(* ===== verification/Prelude.thy ===== *)
theory Prelude
  imports Main "HOL-Library.Word" "HOL-Library.Sublist"
begin

unbundle bit_operations_syntax

text \<open>
  Shared vocabulary of the development: the machine integers of the Rust code as words,
  time stamps, \<open>std::io::Error\<close>, the two shapes of fallible code (\<open>Result\<close> and
  \<open>Result\<close> over a state), big-endian byte pairs, decimal text, and the operations
  of \<open>str\<close> that the endpoint parser uses. Rust strings are UTF-8 byte sequences, and a HOL
  \<open>string\<close> is a list of bytes, so lengths and slices mean the same on both sides.
\<close>

section \<open>Machine integers and time\<close>

type_synonym u8 = "8 word"
type_synonym u16 = "16 word"
type_synonym u32 = "32 word"
type_synonym u64 = "64 word"
type_synonym bytes = "u8 list"

text \<open>
  \<open>Instant\<close> and \<open>Duration\<close> are nanosecond counts. \<open>Instant::duration_since\<close> saturates at
  zero, as subtraction on \<open>nat\<close> does.
\<close>

type_synonym instant = nat
type_synonym duration = nat

definition from_millis :: "nat \<Rightarrow> duration" where
  "from_millis n = n * 1000000"

definition from_secs :: "nat \<Rightarrow> duration" where
  "from_secs n = n * 1000000000"

definition duration_since :: "instant \<Rightarrow> instant \<Rightarrow> duration" where
  "duration_since now earlier = now - earlier"

lemma duration_since_self [simp]: "duration_since t t = 0"
  by (simp add: duration_since_def)

lemma from_secs_pos [simp]: "0 < from_secs n \<longleftrightarrow> 0 < n"
  by (simp add: from_secs_def)

section \<open>Errors and results\<close>

datatype io_error_kind = InvalidInput | InvalidData | NotFound | UnexpectedEof | OtherKind

text \<open>
  \<open>IoError\<close> is an error the program builds itself, with its message; \<open>OsError\<close> is one
  that the operating system or the runtime hands back, with a code.
\<close>

datatype io_error = IoError io_error_kind string | OsError nat

type_synonym 'a io_result = "io_error + 'a"

text \<open>The \<open>?\<close> operator: stop at the first error.\<close>

definition rbind :: "'e + 'a \<Rightarrow> ('a \<Rightarrow> 'e + 'b) \<Rightarrow> 'e + 'b" where
  "rbind m f = (case m of Inl e \<Rightarrow> Inl e | Inr a \<Rightarrow> f a)"

lemma rbind_simps [simp]:
  "rbind (Inl e) f = Inl e"
  "rbind (Inr a) f = f a"
  by (simp_all add: rbind_def)

lemma rbind_Inr_iff:
  "rbind m f = Inr b \<longleftrightarrow> (\<exists>a. m = Inr a \<and> f a = Inr b)"
  by (cases m) auto

lemma rbind_assoc: "rbind (rbind m f) g = rbind m (\<lambda>a. rbind (f a) g)"
  by (cases m) auto

text \<open>
  Fallible code that also changes a state keeps the changed state on its error paths: the
  bytes already read or written stay read or written.
\<close>

type_synonym ('s, 'e, 'a) eff = "'s \<Rightarrow> ('e + 'a) \<times> 's"

definition eret :: "'a \<Rightarrow> ('s, 'e, 'a) eff" where
  "eret a s = (Inr a, s)"

definition efail :: "'e \<Rightarrow> ('s, 'e, 'a) eff" where
  "efail e s = (Inl e, s)"

definition ebind :: "('s, 'e, 'a) eff \<Rightarrow> ('a \<Rightarrow> ('s, 'e, 'b) eff) \<Rightarrow> ('s, 'e, 'b) eff" where
  "ebind m f s = (case m s of (Inl e, s') \<Rightarrow> (Inl e, s') | (Inr a, s') \<Rightarrow> f a s')"

lemma eret_apply [simp]: "eret a s = (Inr a, s)"
  by (simp add: eret_def)

lemma efail_apply [simp]: "efail e s = (Inl e, s)"
  by (simp add: efail_def)

lemma ebind_Inl: "m s = (Inl e, s') \<Longrightarrow> ebind m f s = (Inl e, s')"
  by (simp add: ebind_def)

lemma ebind_Inr: "m s = (Inr a, s') \<Longrightarrow> ebind m f s = f a s'"
  by (simp add: ebind_def)

lemma ebind_eret [simp]: "ebind (eret a) f = f a"
  by (simp add: ebind_def fun_eq_iff)

lemma ebind_efail [simp]: "ebind (efail e) f = efail e"
  by (simp add: ebind_def fun_eq_iff)

section \<open>Big-endian byte pairs\<close>

lemma u8_unat_less: "unat (b::u8) < 256"
  using unsigned_less [where 'a = nat, of b] by simp

lemma u16_unat_le: "unat (p::u16) \<le> 65535"
  using unsigned_less [where 'a = nat, of p] by simp

definition u16_from_be_bytes :: "u8 \<Rightarrow> u8 \<Rightarrow> u16" where
  "u16_from_be_bytes hi lo = push_bit 8 (ucast hi) OR ucast lo"

definition u16_to_be_bytes :: "u16 \<Rightarrow> bytes" where
  "u16_to_be_bytes w = [ucast (drop_bit 8 w), ucast w]"

lemma u16_be_roundtrip [simp]:
  "u16_from_be_bytes (ucast (drop_bit 8 w)) (ucast w) = w"
  unfolding u16_from_be_bytes_def
  by (rule bit_word_eqI) (auto simp: bit_simps not_less)

lemma u16_be_split_hi [simp]: "ucast (drop_bit 8 (u16_from_be_bytes a b)) = a"
  unfolding u16_from_be_bytes_def
  by (rule bit_word_eqI) (auto simp: bit_simps dest: bit_imp_le_length)

lemma u16_be_split_lo [simp]: "ucast (u16_from_be_bytes a b) = b"
  unfolding u16_from_be_bytes_def
  by (rule bit_word_eqI) (auto simp: bit_simps dest: bit_imp_le_length)

lemma u16_to_be_bytes_from [simp]: "u16_to_be_bytes (u16_from_be_bytes a b) = [a, b]"
  by (simp add: u16_to_be_bytes_def)

lemma length_u16_to_be_bytes [simp]: "length (u16_to_be_bytes w) = 2"
  by (simp add: u16_to_be_bytes_def)

lemma u16_from_be_bytes_inject [simp]:
  "u16_from_be_bytes a b = u16_from_be_bytes c d \<longleftrightarrow> a = c \<and> b = d"
  by (metis u16_be_split_hi u16_be_split_lo)

section \<open>Decimal text\<close>

definition digit_char :: "nat \<Rightarrow> char" where
  "digit_char d = char_of (48 + d)"

fun show_nat :: "nat \<Rightarrow> string" where
  "show_nat n = (if n < 10 then [digit_char n] else show_nat (n div 10) @ [digit_char (n mod 10)])"

declare show_nat.simps [simp del]

definition digit_value :: "char \<Rightarrow> nat option" where
  "digit_value c = (let n = of_char c in if 48 \<le> n \<and> n \<le> (57::nat) then Some (n - 48) else None)"

definition is_digit :: "char \<Rightarrow> bool" where
  "is_digit c \<longleftrightarrow> digit_value c \<noteq> None"

fun read_digits :: "nat \<Rightarrow> string \<Rightarrow> nat option" where
  "read_digits acc [] = Some acc"
| "read_digits acc (c # cs) =
     (case digit_value c of None \<Rightarrow> None | Some d \<Rightarrow> read_digits (10 * acc + d) cs)"

lemma digit_value_digit_char [simp]: "d < 10 \<Longrightarrow> digit_value (digit_char d) = Some d"
  by (simp add: digit_value_def digit_char_def Let_def)

lemma is_digit_digit_char [simp]: "d < 10 \<Longrightarrow> is_digit (digit_char d)"
  by (simp add: is_digit_def)

lemma show_nat_nonempty [simp]: "show_nat n \<noteq> []"
  by (subst show_nat.simps) simp

lemma read_digits_append:
  "read_digits acc (xs @ ys) = Option.bind (read_digits acc xs) (\<lambda>a. read_digits a ys)"
  by (induction xs arbitrary: acc) (auto split: option.split)

lemma read_digits_show_nat [simp]: "read_digits 0 (show_nat n) = Some n"
proof (induction n rule: show_nat.induct)
  case (1 n)
  show ?case
  proof (cases "n < 10")
    case True
    then show ?thesis by (subst show_nat.simps) simp
  next
    case False
    then have "read_digits 0 (show_nat n) =
        Option.bind (read_digits 0 (show_nat (n div 10))) (\<lambda>a. read_digits a [digit_char (n mod 10)])"
      by (subst show_nat.simps) (simp add: read_digits_append)
    with 1 False show ?thesis by simp
  qed
qed

lemma show_nat_digits: "list_all is_digit (show_nat n)"
proof (induction n rule: show_nat.induct)
  case (1 n)
  then show ?case by (cases "n < 10") (simp_all add: show_nat.simps [of n])
qed

lemma show_nat_small: "n < 10 \<Longrightarrow> show_nat n = [digit_char n]"
  by (simp add: show_nat.simps)

lemma show_nat_hd_nonzero: "0 < n \<Longrightarrow> hd (show_nat n) \<noteq> CHR ''0''"
proof (induction n rule: show_nat.induct)
  case (1 n)
  show ?case
  proof (cases "n < 10")
    case True
    with "1.prems" have "digit_value (hd (show_nat n)) \<noteq> digit_value CHR ''0''"
      by (simp add: show_nat_small) (simp add: digit_value_def)
    then show ?thesis by auto
  next
    case False
    with 1 show ?thesis by (simp add: show_nat.simps [of n])
  qed
qed

lemma length_show_nat_le: "n < 10 ^ k \<Longrightarrow> 0 < k \<Longrightarrow> length (show_nat n) \<le> k"
proof (induction n arbitrary: k rule: show_nat.induct)
  case (1 n)
  show ?case
  proof (cases "n < 10")
    case True
    with "1.prems" show ?thesis by (simp add: show_nat_small)
  next
    case False
    with "1.prems" obtain k' where k: "k = Suc k'" "0 < k'"
      by (cases k; cases "k - 1") auto
    with "1.prems" have "n div 10 < 10 ^ k'" by auto
    with 1 False k have "length (show_nat (n div 10)) \<le> k'" by simp
    with False k show ?thesis by (simp add: show_nat.simps [of n])
  qed
qed

section \<open>The string operations of the endpoint parser\<close>

text \<open>\<open>str::find\<close> of a pattern and \<open>str::rfind\<close> of a character, as byte offsets.\<close>

fun str_find :: "string \<Rightarrow> string \<Rightarrow> nat option" where
  "str_find pat [] = (if pat = [] then Some 0 else None)"
| "str_find pat (c # cs) =
     (if prefix pat (c # cs) then Some 0 else map_option Suc (str_find pat cs))"

fun str_rfind :: "char \<Rightarrow> string \<Rightarrow> nat option" where
  "str_rfind x [] = None"
| "str_rfind x (c # cs) =
     (case str_rfind x cs of
        Some i \<Rightarrow> Some (Suc i)
      | None \<Rightarrow> if c = x then Some 0 else None)"

definition str_contains :: "string \<Rightarrow> string \<Rightarrow> bool" where
  "str_contains s pat \<longleftrightarrow> str_find pat s \<noteq> None"

text \<open>\<open>splitn(2, c)\<close>: the part before the first \<open>c\<close>, and the rest when there is one.\<close>

definition splitn2 :: "char \<Rightarrow> string \<Rightarrow> string \<times> string option" where
  "splitn2 x s =
     (takeWhile (\<lambda>c. c \<noteq> x) s,
      case dropWhile (\<lambda>c. c \<noteq> x) s of [] \<Rightarrow> None | _ # r \<Rightarrow> Some r)"

lemma str_contains_sublist: "str_contains s pat \<longleftrightarrow> sublist pat s"
  unfolding str_contains_def
  by (induction s) (auto simp: sublist_Cons_right)

lemma str_rfind_None_iff: "str_rfind x s = None \<longleftrightarrow> x \<notin> set s"
  by (induction s) (auto split: option.splits)

lemma str_rfind_append_notin:
  "x \<notin> set t \<Longrightarrow> str_rfind x (s @ x # t) = Some (length s)"
  by (induction s) (auto simp: str_rfind_None_iff [THEN iffD2] split: option.splits)

lemma str_rfind_notin: "x \<notin> set s \<Longrightarrow> str_rfind x s = None"
  by (simp add: str_rfind_None_iff)

lemma str_rfind_Some_nth:
  "str_rfind x s = Some i \<Longrightarrow> i < length s \<and> s ! i = x \<and> x \<notin> set (drop (Suc i) s)"
  by (induction s arbitrary: i) (auto simp: str_rfind_None_iff split: option.splits if_splits)

lemma str_find_char_append:
  "x \<notin> set s \<Longrightarrow> str_find [x] (s @ x # t) = Some (length s)"
  by (induction s) auto

lemma str_find_Some:
  "str_find pat s = Some i \<Longrightarrow> i + length pat \<le> length s \<and> prefix pat (drop i s)"
  by (induction s arbitrary: i) (auto split: if_splits dest: prefix_length_le)

lemma str_find_notin_hd:
  "p \<notin> set s \<Longrightarrow> str_find (p # ps) s = None"
  by (induction s) auto

lemma str_find_absent: "c \<in> set pat \<Longrightarrow> c \<notin> set s \<Longrightarrow> str_find pat s = None"
  by (induction s) (auto simp del: prefix_Cons dest!: set_mono_prefix)

lemma str_find_first:
  "p \<notin> set s \<Longrightarrow> str_find (p # ps) (s @ (p # ps) @ t) = Some (length s)"
  by (induction s) auto

lemma splitn2_split:
  "x \<notin> set s \<Longrightarrow> splitn2 x (s @ x # t) = (s, Some t)"
  unfolding splitn2_def by (induction s) auto

lemma splitn2_nosep: "x \<notin> set s \<Longrightarrow> splitn2 x s = (s, None)"
  unfolding splitn2_def by (induction s) auto

section \<open>Text to a port number\<close>

text \<open>
  \<open>str::parse::<u16>\<close>: an optional leading plus sign, then at least one digit, any number
  of leading zeros, and a value that fits.
\<close>

definition strip_plus :: "string \<Rightarrow> string" where
  "strip_plus s = (case s of c # d # cs \<Rightarrow> if c = CHR ''+'' then d # cs else s | _ \<Rightarrow> s)"

definition parse_u16 :: "string \<Rightarrow> u16 option" where
  "parse_u16 s =
     (let t = strip_plus s in
      if t = [] then None
      else case read_digits 0 t of
             None \<Rightarrow> None
           | Some n \<Rightarrow> if n \<le> 65535 then Some (of_nat n) else None)"

lemma digit_not_plus: "is_digit c \<Longrightarrow> c \<noteq> CHR ''+''"
  by (auto simp: is_digit_def digit_value_def)

lemma strip_plus_show_nat [simp]: "strip_plus (show_nat n) = show_nat n"
  using show_nat_digits [of n] digit_not_plus
  by (cases "show_nat n") (auto simp: strip_plus_def split: list.split)

lemma parse_u16_show [simp]: "parse_u16 (show_nat (unat (p::u16))) = Some p"
proof -
  have "unat p \<le> 65535" by (rule u16_unat_le)
  then show ?thesis by (simp add: parse_u16_def)
qed

section \<open>List lemmas shared by the components\<close>

lemma take_append_exact [simp]: "length xs = n \<Longrightarrow> take n (xs @ ys) = xs"
  by simp

lemma drop_append_exact [simp]: "length xs = n \<Longrightarrow> drop n (xs @ ys) = ys"
  by simp

section \<open>State that summarises a history\<close>

text \<open>
  A component that only stores a summary of what it was given: \<open>view\<close> is what it stores,
  \<open>keep\<close> the summary of a whole history that this is meant to be. \<open>valid\<close> says which histories
  can occur, \<open>inv\<close> what the rest of the state keeps.
\<close>

locale history =
  fixes push :: "'a \<Rightarrow> 's \<Rightarrow> 's"
    and view :: "'s \<Rightarrow> 'b list"
    and keep :: "'a list \<Rightarrow> 'b list"
    and valid :: "'a list \<Rightarrow> bool"
    and inv :: "'s \<Rightarrow> bool"
  assumes valid_prefix: "valid (xs @ [x]) \<Longrightarrow> valid xs"
    and view_push: "valid (xs @ [x]) \<Longrightarrow> inv s \<Longrightarrow> view s = keep xs \<Longrightarrow> view (push x s) = keep (xs @ [x])"
    and inv_push: "inv s \<Longrightarrow> inv (push x s)"
begin

lemma inv_run: "inv s \<Longrightarrow> inv (fold push xs s)"
  by (induction xs arbitrary: s) (simp_all add: inv_push)

lemma view_run: "valid xs \<Longrightarrow> inv s \<Longrightarrow> view s = keep [] \<Longrightarrow> view (fold push xs s) = keep xs"
proof (induction xs rule: rev_induct)
  case (snoc x xs)
  then have "view (fold push xs s) = keep xs" using valid_prefix by blast
  then show ?case using view_push [OF snoc.prems(1) inv_run [OF snoc.prems(2)]] by simp
qed simp

end

end
