(* ===== verification/HashMap.thy ===== *)
theory HashMap
  imports Prelude "HOL-Library.AList"
begin

text \<open>
  \<open>std::collections::HashMap\<close> as an association list with distinct keys. The order of the
  list carries no meaning: the Rust map iterates in an unspecified order, so the operations
  of the program that iterate take that order as an argument elsewhere in the development.
  The locale \<open>hash_table\<close> is the contract the program's tables rely on, and
  \<open>expiring_table\<close> the contract of the three tables that drop idle entries (the
  router's UDP mappings, the proxy's UDP associations, the process-path cache).
\<close>

named_theorems hm_simps \<open>lookups and sizes after the operations of a hash map\<close>

type_synonym ('k, 'v) hash_map = "('k \<times> 'v) list"

definition hm_empty :: "('k, 'v) hash_map" where
  "hm_empty = []"

definition hm_get :: "('k, 'v) hash_map \<Rightarrow> 'k \<Rightarrow> 'v option" where
  "hm_get m k = map_of m k"

definition hm_insert :: "'k \<Rightarrow> 'v \<Rightarrow> ('k, 'v) hash_map \<Rightarrow> ('k, 'v) hash_map" where
  "hm_insert k v m = AList.update k v m"

definition hm_remove :: "'k \<Rightarrow> ('k, 'v) hash_map \<Rightarrow> ('k, 'v) hash_map" where
  "hm_remove k m = AList.delete k m"

definition hm_retain :: "('k \<Rightarrow> 'v \<Rightarrow> bool) \<Rightarrow> ('k, 'v) hash_map \<Rightarrow> ('k, 'v) hash_map" where
  "hm_retain keep m = filter (\<lambda>(k, v). keep k v) m"

definition hm_len :: "('k, 'v) hash_map \<Rightarrow> nat" where
  "hm_len m = length m"

definition hm_keys :: "('k, 'v) hash_map \<Rightarrow> 'k list" where
  "hm_keys m = map fst m"

definition hm_wf :: "('k, 'v) hash_map \<Rightarrow> bool" where
  "hm_wf m \<longleftrightarrow> distinct (map fst m)"

section \<open>The contract of a hash table\<close>

locale hash_table =
  fixes empty :: "'m"
    and get :: "'m \<Rightarrow> 'k \<Rightarrow> 'v option"
    and ins :: "'k \<Rightarrow> 'v \<Rightarrow> 'm \<Rightarrow> 'm"
    and rm :: "'k \<Rightarrow> 'm \<Rightarrow> 'm"
    and retain :: "('k \<Rightarrow> 'v \<Rightarrow> bool) \<Rightarrow> 'm \<Rightarrow> 'm"
    and len :: "'m \<Rightarrow> nat"
    and wf :: "'m \<Rightarrow> bool"
  assumes get_empty: "get empty k = None"
    and get_ins: "get (ins k v m) k' = (if k' = k then Some v else get m k')"
    and get_rm: "get (rm k m) k' = (if k' = k then None else get m k')"
    and get_retain: "wf m \<Longrightarrow>
      get (retain keep m) k = (case get m k of None \<Rightarrow> None | Some v \<Rightarrow> if keep k v then Some v else None)"
    and wf_empty: "wf empty"
    and wf_ins: "wf m \<Longrightarrow> wf (ins k v m)"
    and wf_rm: "wf m \<Longrightarrow> wf (rm k m)"
    and wf_retain: "wf m \<Longrightarrow> wf (retain keep m)"
    and len_ins: "len (ins k v m) = (if get m k = None then len m + 1 else len m)"
    and len_rm: "len (rm k m) \<le> len m"
    and len_retain: "len (retain keep m) \<le> len m"
begin

lemma get_ins_same: "get (ins k v m) k = Some v"
  by (simp add: get_ins)

lemma get_ins_other: "k' \<noteq> k \<Longrightarrow> get (ins k v m) k' = get m k'"
  by (simp add: get_ins)

lemma get_rm_same: "get (rm k m) k = None"
  by (simp add: get_rm)

lemma len_ins_le: "len (ins k v m) \<le> len m + 1"
  by (simp add: len_ins)

lemma get_retain_Some:
  "wf m \<Longrightarrow> get (retain keep m) k = Some v \<longleftrightarrow> get m k = Some v \<and> keep k v"
  by (auto simp: get_retain split: option.splits)

lemma retain_all_kept: "wf m \<Longrightarrow> (\<And>k v. get m k = Some v \<Longrightarrow> keep k v) \<Longrightarrow>
    get (retain keep m) k = get m k"
  by (simp add: get_retain split: option.split)

end

section \<open>The contract of a table that drops idle entries\<close>

text \<open>
  \<open>stamp\<close> reads the time an entry was last active, \<open>fresh\<close> decides on an age; a younger
  entry is fresh when an older one is.
\<close>

locale expiring_table = hash_table empty get ins rm retain len wf
  for empty :: "'m"
    and get :: "'m \<Rightarrow> 'k \<Rightarrow> 'v option"
    and ins :: "'k \<Rightarrow> 'v \<Rightarrow> 'm \<Rightarrow> 'm"
    and rm :: "'k \<Rightarrow> 'm \<Rightarrow> 'm"
    and retain :: "('k \<Rightarrow> 'v \<Rightarrow> bool) \<Rightarrow> 'm \<Rightarrow> 'm"
    and len :: "'m \<Rightarrow> nat"
    and wf :: "'m \<Rightarrow> bool" +
  fixes stamp :: "'v \<Rightarrow> instant"
    and fresh :: "duration \<Rightarrow> bool"
  assumes fresh_antimono: "fresh d \<Longrightarrow> d' \<le> d \<Longrightarrow> fresh d'"
    and fresh_zero: "fresh 0"
begin

definition expire :: "instant \<Rightarrow> 'm \<Rightarrow> 'm" where
  "expire now m = retain (\<lambda>_ v. fresh (duration_since now (stamp v))) m"

lemma get_expire: "wf m \<Longrightarrow>
    get (expire now m) k = Some v \<longleftrightarrow> get m k = Some v \<and> fresh (duration_since now (stamp v))"
  by (simp add: expire_def get_retain_Some)

lemma expire_keeps_active: "wf m \<Longrightarrow> get m k = Some v \<Longrightarrow> stamp v = now \<Longrightarrow>
    get (expire now m) k = Some v"
  by (simp add: get_expire fresh_zero)

lemma expire_ins_now: "wf m \<Longrightarrow> stamp v = now \<Longrightarrow> get (expire now (ins k v m)) k = Some v"
  by (simp add: expire_keeps_active wf_ins get_ins_same)

lemma expire_antitone:
  assumes "wf m" and "now \<le> later" and "get (expire later m) k = Some v"
  shows "get (expire now m) k = Some v"
proof -
  from assms(1,3) have v: "get m k = Some v" and f: "fresh (duration_since later (stamp v))"
    by (simp_all add: get_expire)
  have "duration_since now (stamp v) \<le> duration_since later (stamp v)"
    using assms(2) by (simp add: duration_since_def diff_le_mono)
  with f have "fresh (duration_since now (stamp v))" by (rule fresh_antimono)
  with v assms(1) show ?thesis by (simp add: get_expire)
qed

lemma expire_idem_get: "wf m \<Longrightarrow> get (expire now (expire now m)) k = get (expire now m) k"
  unfolding expire_def by (rule retain_all_kept) (simp_all add: wf_retain get_retain_Some)

lemma len_expire: "len (expire now m) \<le> len m"
  by (simp add: expire_def len_retain)

end

section \<open>The association list meets the contract\<close>

lemma map_of_filter_keep:
  "distinct (map fst m) \<Longrightarrow>
    map_of (filter (\<lambda>(k, v). keep k v) m) k =
      (case map_of m k of None \<Rightarrow> None | Some v \<Rightarrow> if keep k v then Some v else None)"
proof (induction m)
  case (Cons p m)
  obtain a b where p: "p = (a, b)" by force
  from Cons.prems p have "a \<notin> fst ` set m" by simp
  then have "map_of m a = None" by (simp add: map_of_eq_None_iff)
  with Cons p show ?case by (auto split: option.split)
qed simp

lemma length_update: "length (AList.update k v m) = (if map_of m k = None then length m + 1 else length m)"
  by (induction m) auto

interpretation hm: hash_table hm_empty hm_get hm_insert hm_remove hm_retain hm_len hm_wf
proof (unfold_locales, goal_cases)
  case (4 m keep k)
  then show ?case by (simp add: hm_get_def hm_retain_def hm_wf_def map_of_filter_keep)
next
  case (8 m keep)
  then show ?case by (simp add: hm_wf_def hm_retain_def distinct_map_filter)
next
  case (6 m k v)
  then show ?case by (simp add: hm_wf_def hm_insert_def distinct_update)
next
  case (7 m k)
  then show ?case by (simp add: hm_wf_def hm_remove_def distinct_delete)
qed (simp_all add: hm_empty_def hm_get_def hm_insert_def hm_remove_def hm_retain_def hm_len_def
      hm_wf_def update_conv delete_conv length_update length_delete_le)

lemmas hm_facts [hm_simps] =
  hm.get_empty hm.get_ins hm.get_rm hm.wf_empty hm.wf_ins hm.wf_rm hm.wf_retain hm.get_retain

lemma hm_get_Some_key: "hm_get m k = Some v \<Longrightarrow> k \<in> set (hm_keys m)"
  unfolding hm_get_def hm_keys_def by (auto dest: map_of_SomeD intro: image_eqI [rotated])

lemma hm_key_get: "k \<in> set (hm_keys m) \<longleftrightarrow> hm_get m k \<noteq> None"
  unfolding hm_get_def hm_keys_def by (auto simp: map_of_eq_None_iff)

lemma hm_len_retain_le: "hm_len (hm_retain keep m) \<le> hm_len m"
  by (rule hm.len_retain)

lemma hm_len_card: "hm_wf m \<Longrightarrow> hm_len m = card (dom (hm_get m))"
  unfolding hm_wf_def hm_len_def hm_get_def
  by (metis (mono_tags) distinct_card dom_map_of_conv_image_fst image_set length_map)

text \<open>
  An iteration order of a map: its keys, each once, in any order.
\<close>

definition iteration_order :: "('k, 'v) hash_map \<Rightarrow> 'k list \<Rightarrow> bool" where
  "iteration_order m ks \<longleftrightarrow> distinct ks \<and> set ks = set (hm_keys m)"

lemma iteration_order_keys: "hm_wf m \<Longrightarrow> iteration_order m (hm_keys m)"
  by (simp add: iteration_order_def hm_wf_def hm_keys_def)

lemma iteration_order_get: "iteration_order m ks \<Longrightarrow> k \<in> set ks \<longleftrightarrow> hm_get m k \<noteq> None"
  by (simp add: iteration_order_def hm_key_get)

end
