(* ===== verification/Net.thy ===== *)
theory Net
  imports Prelude
begin

text \<open>
  The address types of \<open>std::net\<close> as far as the program uses them: IPv4 addresses as four
  octets, IPv6 addresses as eight 16-bit segments, socket addresses with the flow label and
  scope id that an IPv6 one carries, the embeddings of IPv4 into IPv6, and the text syntax
  (\<open>FromStr for IpAddr\<close>, \<open>Display for Ipv4Addr\<close>).
\<close>

datatype ipv4_addr = Ipv4Addr u8 u8 u8 u8

datatype ipv6_addr = Ipv6Addr u16 u16 u16 u16 u16 u16 u16 u16

datatype ip_addr = V4 ipv4_addr | V6 ipv6_addr

datatype socket_addr = SockV4 ipv4_addr u16 | SockV6 ipv6_addr u16 u32 u32

definition socket_addr_new :: "ip_addr \<Rightarrow> u16 \<Rightarrow> socket_addr" where
  "socket_addr_new i p = (case i of V4 a \<Rightarrow> SockV4 a p | V6 a \<Rightarrow> SockV6 a p 0 0)"

fun sa_ip :: "socket_addr \<Rightarrow> ip_addr" where
  "sa_ip (SockV4 a p) = V4 a"
| "sa_ip (SockV6 a p fl sc) = V6 a"

fun sa_port :: "socket_addr \<Rightarrow> u16" where
  "sa_port (SockV4 a p) = p"
| "sa_port (SockV6 a p fl sc) = p"

fun sa_is_ipv6 :: "socket_addr \<Rightarrow> bool" where
  "sa_is_ipv6 (SockV4 a p) = False"
| "sa_is_ipv6 (SockV6 a p fl sc) = True"

lemma sa_new_sel [simp]:
  "sa_ip (socket_addr_new i p) = i"
  "sa_port (socket_addr_new i p) = p"
  by (cases i; simp add: socket_addr_new_def)+

lemma sa_new_inject [simp]: "socket_addr_new i p = socket_addr_new j q \<longleftrightarrow> i = j \<and> p = q"
  by (metis sa_new_sel)

section \<open>Octets\<close>

fun v4_octets :: "ipv4_addr \<Rightarrow> bytes" where
  "v4_octets (Ipv4Addr a b c d) = [a, b, c, d]"

definition v4_of_octets :: "bytes \<Rightarrow> ipv4_addr" where
  "v4_of_octets bs = Ipv4Addr (bs ! 0) (bs ! 1) (bs ! 2) (bs ! 3)"

fun v6_octets :: "ipv6_addr \<Rightarrow> bytes" where
  "v6_octets (Ipv6Addr a b c d e f g h) =
     concat (map u16_to_be_bytes [a, b, c, d, e, f, g, h])"

definition v6_of_octets :: "bytes \<Rightarrow> ipv6_addr" where
  "v6_of_octets bs =
     (let w = (\<lambda>i. u16_from_be_bytes (bs ! (2 * i)) (bs ! (2 * i + 1)))
      in Ipv6Addr (w 0) (w 1) (w 2) (w 3) (w 4) (w 5) (w 6) (w 7))"

lemma length_v4_octets [simp]: "length (v4_octets a) = 4"
  by (cases a) simp

lemma length_v6_octets [simp]: "length (v6_octets a) = 16"
  by (cases a) simp

lemma v4_octets_roundtrip [simp]: "v4_of_octets (v4_octets a) = a"
  by (cases a) (simp add: v4_of_octets_def)

lemma v6_octets_roundtrip [simp]: "v6_of_octets (v6_octets a) = a"
  by (cases a) (simp add: v6_of_octets_def u16_to_be_bytes_def)

section \<open>Address classes\<close>

definition v4_unspecified :: ipv4_addr where
  "v4_unspecified = Ipv4Addr 0 0 0 0"

definition v6_unspecified :: ipv6_addr where
  "v6_unspecified = Ipv6Addr 0 0 0 0 0 0 0 0"

fun ip_is_unspecified :: "ip_addr \<Rightarrow> bool" where
  "ip_is_unspecified (V4 a) \<longleftrightarrow> a = v4_unspecified"
| "ip_is_unspecified (V6 a) \<longleftrightarrow> a = v6_unspecified"

fun v4_is_multicast :: "ipv4_addr \<Rightarrow> bool" where
  "v4_is_multicast (Ipv4Addr a b c d) \<longleftrightarrow> 224 \<le> a \<and> a \<le> 239"

definition v4_is_broadcast :: "ipv4_addr \<Rightarrow> bool" where
  "v4_is_broadcast a \<longleftrightarrow> a = Ipv4Addr 255 255 255 255"

fun v6_is_multicast :: "ipv6_addr \<Rightarrow> bool" where
  "v6_is_multicast (Ipv6Addr a b c d e f g h) \<longleftrightarrow> a AND 0xFF00 = 0xFF00"

section \<open>IPv4 inside IPv6\<close>

fun to_ipv6_mapped :: "ipv4_addr \<Rightarrow> ipv6_addr" where
  "to_ipv6_mapped (Ipv4Addr a b c d) =
     Ipv6Addr 0 0 0 0 0 0xFFFF (u16_from_be_bytes a b) (u16_from_be_bytes c d)"

definition v4_of_segments :: "u16 \<Rightarrow> u16 \<Rightarrow> ipv4_addr" where
  "v4_of_segments g h =
     Ipv4Addr (ucast (drop_bit 8 g)) (ucast g) (ucast (drop_bit 8 h)) (ucast h)"

fun to_ipv4_mapped :: "ipv6_addr \<Rightarrow> ipv4_addr option" where
  "to_ipv4_mapped (Ipv6Addr a b c d e f g h) =
     (if a = 0 \<and> b = 0 \<and> c = 0 \<and> d = 0 \<and> e = 0 \<and> f = 0xFFFF
      then Some (v4_of_segments g h) else None)"

text \<open>
  \<open>Ipv6Addr::to_ipv4\<close> also accepts the deprecated IPv4-compatible form, with the sixth
  segment zero.
\<close>

fun to_ipv4 :: "ipv6_addr \<Rightarrow> ipv4_addr option" where
  "to_ipv4 (Ipv6Addr a b c d e f g h) =
     (if a = 0 \<and> b = 0 \<and> c = 0 \<and> d = 0 \<and> e = 0 \<and> (f = 0 \<or> f = 0xFFFF)
      then Some (v4_of_segments g h) else None)"

lemma to_ipv4_mapped_of_mapped [simp]: "to_ipv4_mapped (to_ipv6_mapped a) = Some a"
  by (cases a) (simp add: v4_of_segments_def)

lemma to_ipv4_of_mapped [simp]: "to_ipv4 (to_ipv6_mapped a) = Some a"
  by (cases a) (simp add: v4_of_segments_def)

lemma to_ipv6_mapped_inject [simp]: "to_ipv6_mapped a = to_ipv6_mapped b \<longleftrightarrow> a = b"
  by (metis option.inject to_ipv4_mapped_of_mapped)

lemma to_ipv4_mapped_Some_iff: "to_ipv4_mapped x = Some a \<longleftrightarrow> x = to_ipv6_mapped a"
proof
  assume "to_ipv4_mapped x = Some a"
  then show "x = to_ipv6_mapped a"
    by (cases x) (auto simp: v4_of_segments_def split: if_splits)
qed simp

lemma v6_unspecified_not_mapped [simp]: "to_ipv4_mapped v6_unspecified = None"
  by (simp add: v6_unspecified_def)

lemma to_ipv6_mapped_not_unspecified [simp]: "to_ipv6_mapped a \<noteq> v6_unspecified"
  by (cases a) (simp add: v6_unspecified_def)

section \<open>The text syntax of addresses\<close>

text \<open>
  The parser of \<open>core::net::parser\<close>: each function takes the remaining text and returns
  the value with the text it left, or nothing. Restoring the position on failure
  (\<open>read_atomically\<close>) is the caller keeping its own text.
\<close>

type_synonym 'a reader = "string \<Rightarrow> ('a \<times> string) option"

definition read_given_char :: "char \<Rightarrow> unit reader" where
  "read_given_char x s = (case s of [] \<Rightarrow> None | c # cs \<Rightarrow> if c = x then Some ((), cs) else None)"

definition read_separator :: "char \<Rightarrow> nat \<Rightarrow> 'a reader \<Rightarrow> 'a reader" where
  "read_separator sep i inner s =
     (if 0 < i then (case read_given_char sep s of None \<Rightarrow> None | Some (_, s') \<Rightarrow> inner s')
      else inner s)"

definition hex_value :: "char \<Rightarrow> nat option" where
  "hex_value c =
     (let n = of_char c in
      if 48 \<le> n \<and> n \<le> (57::nat) then Some (n - 48)
      else if 97 \<le> n \<and> n \<le> 102 then Some (n - 87)
      else if 65 \<le> n \<and> n \<le> 70 then Some (n - 55)
      else None)"

text \<open>
  The digit loop of \<open>read_number\<close>: it reads digits as long as there are any and gives up
  as soon as there are more than \<open>max_digits\<close>.
\<close>

fun read_digit_loop ::
    "(char \<Rightarrow> nat option) \<Rightarrow> nat \<Rightarrow> nat \<Rightarrow> nat \<Rightarrow> nat \<Rightarrow> string \<Rightarrow> (nat \<times> nat \<times> string) option" where
  "read_digit_loop val radix maxd count acc [] = Some (acc, count, [])"
| "read_digit_loop val radix maxd count acc (c # cs) =
     (case val c of
        None \<Rightarrow> Some (acc, count, c # cs)
      | Some d \<Rightarrow>
          if maxd < count + 1 then None
          else read_digit_loop val radix maxd (count + 1) (acc * radix + d) cs)"

definition read_number ::
    "(char \<Rightarrow> nat option) \<Rightarrow> nat \<Rightarrow> nat \<Rightarrow> bool \<Rightarrow> nat \<Rightarrow> nat reader" where
  "read_number val radix maxd allow_zero_prefix limit s =
     (case read_digit_loop val radix maxd 0 0 s of
        None \<Rightarrow> None
      | Some (n, count, rest) \<Rightarrow>
          if count = 0 then None
          else if \<not> allow_zero_prefix \<and> s \<noteq> [] \<and> hd s = CHR ''0'' \<and> 1 < count then None
          else if n \<le> limit then Some (n, rest) else None)"

definition read_u8_dec :: "nat reader" where
  "read_u8_dec = read_number digit_value 10 3 False 255"

definition read_u16_hex :: "nat reader" where
  "read_u16_hex = read_number hex_value 16 4 True 65535"

definition read_ipv4_addr :: "ipv4_addr reader" where
  "read_ipv4_addr s =
     (case read_u8_dec s of None \<Rightarrow> None | Some (a, s1) \<Rightarrow>
      case read_separator CHR ''.'' 1 read_u8_dec s1 of None \<Rightarrow> None | Some (b, s2) \<Rightarrow>
      case read_separator CHR ''.'' 2 read_u8_dec s2 of None \<Rightarrow> None | Some (c, s3) \<Rightarrow>
      case read_separator CHR ''.'' 3 read_u8_dec s3 of None \<Rightarrow> None | Some (d, s4) \<Rightarrow>
        Some (Ipv4Addr (of_nat a) (of_nat b) (of_nat c) (of_nat d), s4))"

text \<open>
  \<open>read_groups\<close> fills at most \<open>limit\<close> segments from index \<open>i\<close> on and says whether
  they end in an embedded IPv4 address. \<open>todo\<close> counts the slots that are left.
\<close>

fun read_groups :: "nat \<Rightarrow> nat \<Rightarrow> nat \<Rightarrow> string \<Rightarrow> u16 list \<times> bool \<times> string" where
  "read_groups limit i 0 s = ([], False, s)"
| "read_groups limit i (Suc todo) s =
     (case (if i + 1 < limit then read_separator CHR '':'' i read_ipv4_addr s else None) of
        Some (Ipv4Addr a b c d, s') \<Rightarrow>
          ([u16_from_be_bytes a b, u16_from_be_bytes c d], True, s')
      | None \<Rightarrow>
          (case read_separator CHR '':'' i read_u16_hex s of
             None \<Rightarrow> ([], False, s)
           | Some (g, s') \<Rightarrow>
               let (gs, v4, s'') = read_groups limit (i + 1) todo s' in (of_nat g # gs, v4, s'')))"

definition v6_of_segments :: "u16 list \<Rightarrow> ipv6_addr" where
  "v6_of_segments w = Ipv6Addr (w!0) (w!1) (w!2) (w!3) (w!4) (w!5) (w!6) (w!7)"

definition read_ipv6_addr :: "ipv6_addr reader" where
  "read_ipv6_addr s =
     (let (head, head_ipv4, s1) = read_groups 8 0 8 s in
      if length head = 8 then Some (v6_of_segments head, s1)
      else if head_ipv4 then None
      else case read_given_char CHR '':'' s1 of None \<Rightarrow> None | Some (_, s2) \<Rightarrow>
           case read_given_char CHR '':'' s2 of None \<Rightarrow> None | Some (_, s3) \<Rightarrow>
           let limit = 8 - (length head + 1);
               (tl, _, s4) = read_groups limit 0 limit s3
           in Some (v6_of_segments (head @ replicate (8 - length head - length tl) 0 @ tl), s4))"

definition parse_ip_addr :: "string \<Rightarrow> ip_addr option" where
  "parse_ip_addr s =
     (case read_ipv4_addr s of
        Some (a, rest) \<Rightarrow> if rest = [] then Some (V4 a) else None
      | None \<Rightarrow>
          (case read_ipv6_addr s of
             Some (a, rest) \<Rightarrow> if rest = [] then Some (V6 a) else None
           | None \<Rightarrow> None))"

fun show_ipv4 :: "ipv4_addr \<Rightarrow> string" where
  "show_ipv4 (Ipv4Addr a b c d) =
     show_nat (unat a) @ ''.'' @ show_nat (unat b) @ ''.'' @ show_nat (unat c) @ ''.''
       @ show_nat (unat d)"

subsection \<open>Reading back a dotted quad\<close>

lemma read_digit_loop_digits:
  assumes "list_all is_digit ds" and "count + length ds \<le> maxd"
    and "rest = [] \<or> digit_value (hd rest) = None"
  shows "read_digit_loop digit_value 10 maxd count acc (ds @ rest) =
    Some (the (read_digits acc ds), count + length ds, rest)"
  using assms(1,2)
proof (induction ds arbitrary: count acc)
  case Nil
  then show ?case using assms(3) by (cases rest) simp_all
next
  case (Cons c cs)
  then obtain d where "digit_value c = Some d" by (auto simp: is_digit_def)
  with Cons show ?case by (simp add: mult.commute)
qed

lemma read_u8_dec_show:
  assumes "n \<le> 255" and "rest = [] \<or> digit_value (hd rest) = None"
  shows "read_u8_dec (show_nat n @ rest) = Some (n, rest)"
proof -
  have len: "length (show_nat n) \<le> 3"
    using assms(1) length_show_nat_le [of n 3] by simp
  have loop: "read_digit_loop digit_value 10 3 0 0 (show_nat n @ rest) =
      Some (n, length (show_nat n), rest)"
    using read_digit_loop_digits [OF show_nat_digits, of 0 n 3 rest 0] len assms(2) by simp
  have zero: "\<not> (hd (show_nat n @ rest) = CHR ''0'' \<and> 1 < length (show_nat n))"
  proof (cases "n < 10")
    case True
    then show ?thesis by (simp add: show_nat_small)
  next
    case False
    then show ?thesis using show_nat_hd_nonzero [of n] by simp
  qed
  show ?thesis
    unfolding read_u8_dec_def read_number_def loop
    using zero assms(1) by auto
qed

lemma dot_not_digit [simp]: "digit_value CHR ''.'' = None"
  by (simp add: digit_value_def)

lemma read_separator_dot [simp]:
  "0 < i \<Longrightarrow> read_separator CHR ''.'' i inner (CHR ''.'' # s) = inner s"
  by (simp add: read_separator_def read_given_char_def)

lemma u8_unat_le [simp]: "unat (b::u8) \<le> 255"
  using u8_unat_less [of b] by simp

lemma read_show_ipv4:
  assumes "rest = [] \<or> digit_value (hd rest) = None"
  shows "read_ipv4_addr (show_ipv4 a @ rest) = Some (a, rest)"
  using assms by (cases a) (simp add: read_ipv4_addr_def read_u8_dec_show)

lemma parse_show_ipv4 [simp]: "parse_ip_addr (show_ipv4 a) = Some (V4 a)"
  using read_show_ipv4 [of "[]" a] by (simp add: parse_ip_addr_def)

lemma show_nat_chars: "c \<in> set (show_nat n) \<Longrightarrow> is_digit c"
  using show_nat_digits [of n] by (simp add: list_all_iff)

lemma show_ipv4_chars: "c \<in> set (show_ipv4 a) \<Longrightarrow> is_digit c \<or> c = CHR ''.''"
  by (cases a) (auto dest: show_nat_chars)

lemma show_ipv4_nonempty [simp]: "show_ipv4 a \<noteq> []"
  by (cases a) simp

subsection \<open>Reading literals\<close>

lemmas read_groups_numeral = read_groups.simps(2) [of _ _ "pred_numeral k" for k, folded numeral_eq_Suc]

lemmas read_addr_eval =
  parse_ip_addr_def read_ipv4_addr_def read_ipv6_addr_def read_u8_dec_def read_u16_hex_def
  read_number_def read_separator_def read_given_char_def digit_value_def hex_value_def Let_def
  v6_of_segments_def read_groups_numeral nth_append

lemma parse_loopback_v6: "parse_ip_addr ''::1'' = Some (V6 (Ipv6Addr 0 0 0 0 0 0 0 1))"
  by (simp add: read_addr_eval)

lemma parse_compressed_v6:
  "parse_ip_addr ''2001:db8::ff00:42:8329'' = Some (V6 (Ipv6Addr 0x2001 0xdb8 0 0 0 0xff00 0x42 0x8329))"
  by (simp add: read_addr_eval)

lemma parse_octal_rejected: "parse_ip_addr ''01.2.3.4'' = None"
  by (simp add: read_addr_eval)

end
