(* ===== verification/Utf8.thy ===== *)
theory Utf8
  imports Prelude
begin

text \<open>
  Text as bytes: \<open>str::as_bytes\<close>, \<open>String::from_utf8_lossy\<close> (each maximal invalid piece
  becomes one U+FFFD) and \<open>str::trim\<close> (the Unicode White_Space characters, by their UTF-8
  encodings).
\<close>

definition as_bytes :: "string \<Rightarrow> bytes" where
  "as_bytes s = map (\<lambda>c. of_nat (of_char c)) s"

definition text_of_bytes :: "bytes \<Rightarrow> string" where
  "text_of_bytes bs = map (\<lambda>b. char_of (unat b)) bs"

lemma length_as_bytes [simp]: "length (as_bytes s) = length s"
  by (simp add: as_bytes_def)

lemma char_byte_roundtrip [simp]: "char_of (unat (of_nat (of_char c) :: u8)) = c"
proof -
  have "unat (of_nat (of_char c) :: u8) = of_char c"
    by (simp add: unat_of_nat take_bit_eq_mod)
  then show ?thesis by simp
qed

lemma text_as_bytes [simp]: "text_of_bytes (as_bytes s) = s"
  by (simp add: text_of_bytes_def as_bytes_def comp_def)

section \<open>Lossy decoding\<close>

definition is_cont :: "u8 \<Rightarrow> bool" where
  "is_cont b \<longleftrightarrow> b AND 192 = 128"

definition safe_get :: "bytes \<Rightarrow> nat \<Rightarrow> u8" where
  "safe_get bs i = (if i < length bs then bs ! i else 0)"

definition utf8_char_width :: "u8 \<Rightarrow> nat" where
  "utf8_char_width b =
     (if b < 128 then 1 else if 0xC2 \<le> b \<and> b \<le> 0xDF then 2
      else if 0xE0 \<le> b \<and> b \<le> 0xEF then 3 else if 0xF0 \<le> b \<and> b \<le> 0xF4 then 4 else 0)"

definition second_of_3 :: "u8 \<Rightarrow> u8 \<Rightarrow> bool" where
  "second_of_3 b c \<longleftrightarrow>
     (b = 0xE0 \<and> 0xA0 \<le> c \<and> c \<le> 0xBF) \<or> (0xE1 \<le> b \<and> b \<le> 0xEC \<and> 0x80 \<le> c \<and> c \<le> 0xBF) \<or>
     (b = 0xED \<and> 0x80 \<le> c \<and> c \<le> 0x9F) \<or> (0xEE \<le> b \<and> b \<le> 0xEF \<and> 0x80 \<le> c \<and> c \<le> 0xBF)"

definition second_of_4 :: "u8 \<Rightarrow> u8 \<Rightarrow> bool" where
  "second_of_4 b c \<longleftrightarrow>
     (b = 0xF0 \<and> 0x90 \<le> c \<and> c \<le> 0xBF) \<or> (0xF1 \<le> b \<and> b \<le> 0xF3 \<and> 0x80 \<le> c \<and> c \<le> 0xBF) \<or>
     (b = 0xF4 \<and> 0x80 \<le> c \<and> c \<le> 0x8F)"

text \<open>
  One step of the scanner on a non-empty input: how many bytes it passes over, and whether
  they are a character. Bytes past the end read as zero, which continues no sequence.
\<close>

definition utf8_step :: "bytes \<Rightarrow> nat \<times> bool" where
  "utf8_step bs =
     (let b = safe_get bs 0; w = utf8_char_width b in
      if w = 1 then (1, True)
      else if w = 2 then (if is_cont (safe_get bs 1) then (2, True) else (1, False))
      else if w = 3 then
        (if \<not> second_of_3 b (safe_get bs 1) then (1, False)
         else if \<not> is_cont (safe_get bs 2) then (2, False) else (3, True))
      else if w = 4 then
        (if \<not> second_of_4 b (safe_get bs 1) then (1, False)
         else if \<not> is_cont (safe_get bs 2) then (2, False)
         else if \<not> is_cont (safe_get bs 3) then (3, False) else (4, True))
      else (1, False))"

lemma utf8_step_pos: "0 < fst (utf8_step bs)"
  by (simp add: utf8_step_def Let_def)

function from_utf8_lossy :: "bytes \<Rightarrow> bytes" where
  "from_utf8_lossy bs =
     (if bs = [] then []
      else (let (n, ok) = utf8_step bs
            in (if ok then take n bs else [0xEF, 0xBF, 0xBD]) @ from_utf8_lossy (drop n bs)))"
  by pat_completeness auto
termination
proof (relation "measure length", simp)
  fix bs :: bytes and x y n ok
  assume "bs \<noteq> []" "x = utf8_step bs" "(n, ok) = x"
  then have "0 < n" using utf8_step_pos [of bs] by (metis fst_conv)
  with \<open>bs \<noteq> []\<close> show "(drop n bs, bs) \<in> measure length" by simp
qed

declare from_utf8_lossy.simps [simp del]

lemma from_utf8_lossy_Nil [simp]: "from_utf8_lossy [] = []"
  by (simp add: from_utf8_lossy.simps)

lemma from_utf8_lossy_ascii: "list_all (\<lambda>b. b < 128) bs \<Longrightarrow> from_utf8_lossy bs = bs"
proof (induction bs)
  case (Cons b bs)
  then have "utf8_step (b # bs) = (1, True)"
    by (simp add: utf8_step_def safe_get_def utf8_char_width_def)
  with Cons show ?case by (simp add: from_utf8_lossy.simps [of "b # bs"])
qed simp

section \<open>Trimming white space\<close>

definition white_space :: "string list" where
  "white_space =
     map (\<lambda>n. [char_of n]) [9, 10, 11, 12, 13, 32 :: nat] @
     map (map char_of)
       ([[0xC2, 0x85], [0xC2, 0xA0], [0xE1, 0x9A, 0x80], [0xE2, 0x80, 0xA8], [0xE2, 0x80, 0xA9],
         [0xE2, 0x80, 0xAF], [0xE2, 0x81, 0x9F], [0xE3, 0x80, 0x80]] @
        map (\<lambda>n. [0xE2, 0x80, n]) [0x80 ..< 0x8B :: nat])"

fun strip_prefixes :: "nat \<Rightarrow> string list \<Rightarrow> string \<Rightarrow> string" where
  "strip_prefixes 0 ws s = s"
| "strip_prefixes (Suc n) ws s =
     (case find (\<lambda>w. prefix w s) ws of
        None \<Rightarrow> s
      | Some w \<Rightarrow> strip_prefixes n ws (drop (length w) s))"

text \<open>Every white-space character is at least one byte, so the length of the text is enough fuel.\<close>

definition str_trim_start :: "string \<Rightarrow> string" where
  "str_trim_start s = strip_prefixes (length s) white_space s"

definition str_trim_end :: "string \<Rightarrow> string" where
  "str_trim_end s = rev (strip_prefixes (length s) (map rev white_space) (rev s))"

definition str_trim :: "string \<Rightarrow> string" where
  "str_trim s = str_trim_end (str_trim_start s)"

lemma strip_prefixes_fuel:
  assumes "\<forall>w \<in> set ws. w \<noteq> []" and "length s \<le> n"
  shows "find (\<lambda>w. prefix w (strip_prefixes n ws s)) ws = None"
  using assms(2)
proof (induction n arbitrary: s)
  case 0
  then have "s = []" by simp
  with assms(1) show ?case by (auto simp: find_None_iff)
next
  case (Suc n)
  show ?case
  proof (cases "find (\<lambda>w. prefix w s) ws")
    case (Some w)
    then have "w \<in> set ws" "prefix w s" by (auto simp: find_Some_iff)
    then have "w \<noteq> []" using assms(1) by blast
    with Suc.prems have "length (drop (length w) s) \<le> n" by (cases w) auto
    with Some show ?thesis by (simp add: Suc.IH)
  qed simp
qed

definition plain_char :: "char \<Rightarrow> bool" where
  "plain_char c \<longleftrightarrow> 32 < (of_char c :: nat) \<and> (of_char c :: nat) < 128"

lemma white_space_nonempty: "w \<in> set white_space \<Longrightarrow> w \<noteq> []"
  by (auto simp: white_space_def)

lemma white_space_hd: "w \<in> set white_space \<Longrightarrow> \<not> plain_char (hd w)"
  by (auto simp: white_space_def plain_char_def)

lemma white_space_last: "w \<in> set white_space \<Longrightarrow> \<not> plain_char (last w)"
  by (auto simp: white_space_def plain_char_def)

lemma strip_prefixes_plain:
  assumes "\<forall>w \<in> set ws. w \<noteq> [] \<and> \<not> plain_char (hd w)" and "s \<noteq> []" and "plain_char (hd s)"
  shows "strip_prefixes n ws s = s"
proof -
  have "find (\<lambda>w. prefix w s) ws = None"
    using assms by (auto simp: find_None_iff prefix_def)
  then show ?thesis by (cases n) simp_all
qed

lemma str_trim_plain:
  assumes "s \<noteq> []" "plain_char (hd s)" "plain_char (last s)"
  shows "str_trim s = s"
proof -
  have 1: "str_trim_start s = s"
    unfolding str_trim_start_def
    by (rule strip_prefixes_plain) (use assms white_space_nonempty white_space_hd in auto)
  have 2: "strip_prefixes (length s) (map rev white_space) (rev s) = rev s"
    by (rule strip_prefixes_plain)
      (use assms white_space_nonempty white_space_last in \<open>auto simp: hd_rev\<close>)
  show ?thesis by (simp add: str_trim_def 1 str_trim_end_def 2)
qed

end
