(* ===== verification/Proxy.thy ===== *)
theory Proxy
  imports HashMap Socks5 "HOL-Library.Multiset"
begin

text \<open>
  The local transparent proxy, \<open>src/src/proxy/transparent_proxy.rs\<close>: the listeners and their
  ports, the handler of a redirected TCP connection, the pool of datagram buffers, and the table
  of UDP associations with the worker that fills it, the readers that answer through it and the
  cleanup that empties it. The worker's handler is split at its one long await, the UDP
  ASSOCIATE exchange, so that readers can run in between: \<open>proxy_step\<close> is the interleaving.
  The two callbacks of the router are the locale \<open>peer_query\<close>.
\<close>

section \<open>Constants and the buffer pool\<close>

definition UDP_QUEUE_SIZE :: nat where
  "UDP_QUEUE_SIZE = 1024"

definition UDP_ASSOCIATION_TIMEOUT_SECS :: nat where
  "UDP_ASSOCIATION_TIMEOUT_SECS = 120"

definition MAX_UDP_ASSOCIATIONS :: nat where
  "MAX_UDP_ASSOCIATIONS = 1024"

definition UDP_DATAGRAM_BUFFER_SIZE :: nat where
  "UDP_DATAGRAM_BUFFER_SIZE = 65535"

definition UDP_PACKET_POOL_MAX :: nat where
  "UDP_PACKET_POOL_MAX = UDP_QUEUE_SIZE + 2"

type_synonym buffer_pool = "bytes list"

definition vec_resize :: "nat \<Rightarrow> 'a \<Rightarrow> 'a list \<Rightarrow> 'a list" where
  "vec_resize n x xs = take n xs @ replicate (n - length xs) x"

definition pool_take :: "buffer_pool \<Rightarrow> bytes \<times> buffer_pool" where
  "pool_take pool =
     (if pool = [] then (replicate UDP_DATAGRAM_BUFFER_SIZE 0, [])
      else (last pool, butlast pool))"

definition pool_put :: "bytes \<Rightarrow> buffer_pool \<Rightarrow> buffer_pool" where
  "pool_put buffer pool =
     (let buffer = (if length buffer \<noteq> UDP_DATAGRAM_BUFFER_SIZE
                    then vec_resize UDP_DATAGRAM_BUFFER_SIZE 0 buffer else buffer)
      in if length pool < UDP_PACKET_POOL_MAX then pool @ [buffer] else pool)"

definition pool_ok :: "buffer_pool \<Rightarrow> bool" where
  "pool_ok pool \<longleftrightarrow>
     length pool \<le> UDP_PACKET_POOL_MAX \<and> (\<forall>b \<in> set pool. length b = UDP_DATAGRAM_BUFFER_SIZE)"

lemma length_vec_resize [simp]: "length (vec_resize n x xs) = n"
  by (simp add: vec_resize_def)

lemma pool_take_ok: "pool_ok pool \<Longrightarrow>
    length (fst (pool_take pool)) = UDP_DATAGRAM_BUFFER_SIZE \<and> pool_ok (snd (pool_take pool))"
  by (auto simp: pool_take_def pool_ok_def dest: in_set_butlastD)

lemma pool_put_ok: "pool_ok pool \<Longrightarrow> pool_ok (pool_put b pool)"
  by (auto simp: pool_put_def pool_ok_def Let_def)

section \<open>Listeners\<close>

datatype transport = Stream | Dgram

text \<open>The calls that set a dual-stack socket up, in the order the code makes them.\<close>

datatype sock_call =
    SocketNew transport
  | SetOnlyV6 bool
  | SetNonblocking bool
  | BindAddr socket_addr
  | Listen nat

record socket_os =
  os_call :: "transport \<Rightarrow> sock_call \<Rightarrow> unit io_result"
  os_local_addr :: "transport \<Rightarrow> socket_addr io_result"

fun run_calls :: "(sock_call \<Rightarrow> unit io_result) \<Rightarrow> sock_call list \<Rightarrow> unit io_result" where
  "run_calls f [] = Inr ()"
| "run_calls f (c # cs) = rbind (f c) (\<lambda>_. run_calls f cs)"

definition bind_dual_stack_socket :: "socket_os \<Rightarrow> u16 \<Rightarrow> transport \<Rightarrow> bool \<Rightarrow> unit io_result" where
  "bind_dual_stack_socket os port ty listen =
     run_calls (os_call os ty)
       ([SocketNew ty, SetOnlyV6 False, SetNonblocking True,
         BindAddr (socket_addr_new (V6 v6_unspecified) port)]
        @ (if listen then [Listen 128] else []))"

definition bind_dual_stack_tcp :: "socket_os \<Rightarrow> u16 \<Rightarrow> unit io_result" where
  "bind_dual_stack_tcp os port =
     rbind (bind_dual_stack_socket os port Stream True) (\<lambda>_. os_call os Stream (SetNonblocking True))"

definition bind_dual_stack_udp :: "socket_os \<Rightarrow> u16 \<Rightarrow> unit io_result" where
  "bind_dual_stack_udp os port =
     rbind (bind_dual_stack_socket os port Dgram False) (\<lambda>_. os_call os Dgram (SetNonblocking True))"

section \<open>The proxy and its ports\<close>

datatype proxy_task = AcceptTcp | UdpWorker | AcceptUdp

record transparent_proxy =
  tp_port :: u16
  tp_socks5 :: socks5_dialer
  tcp_port_v4 :: u16
  tcp_port_v6 :: u16
  udp_port_v4 :: u16
  udp_port_v6 :: u16
  tp_shutdown :: bool
  tp_handles :: "proxy_task list"

definition transparent_proxy_new :: "u16 \<Rightarrow> socks5_dialer \<Rightarrow> transparent_proxy" where
  "transparent_proxy_new port dialer =
     \<lparr>tp_port = port, tp_socks5 = dialer, tcp_port_v4 = 0, tcp_port_v6 = 0, udp_port_v4 = 0,
      udp_port_v6 = 0, tp_shutdown = False, tp_handles = []\<rparr>"

text \<open>
  \<open>start\<close>: each port is stored as soon as its listener is bound, so a failure half-way leaves
  the TCP ports set; the tasks are spawned only after both listeners exist.
\<close>

definition proxy_start :: "socket_os \<Rightarrow> transparent_proxy \<Rightarrow> unit io_result \<times> transparent_proxy" where
  "proxy_start os tp =
     (case rbind (bind_dual_stack_tcp os (tp_port tp)) (\<lambda>_. os_local_addr os Stream) of
        Inl e \<Rightarrow> (Inl e, tp)
      | Inr tcp_addr \<Rightarrow>
          let tp = tp\<lparr>tcp_port_v4 := sa_port tcp_addr, tcp_port_v6 := sa_port tcp_addr\<rparr> in
          (case rbind (bind_dual_stack_udp os (tp_port tp)) (\<lambda>_. os_local_addr os Dgram) of
             Inl e \<Rightarrow> (Inl e, tp)
           | Inr udp_addr \<Rightarrow>
               let tp = tp\<lparr>udp_port_v4 := sa_port udp_addr, udp_port_v6 := sa_port udp_addr\<rparr> in
               (Inr (), tp\<lparr>tp_handles := tp_handles tp @ [AcceptTcp, UdpWorker, AcceptUdp]\<rparr>)))"

text \<open>What \<open>stop\<close> leaves behind once every task it waits for has ended.\<close>

definition proxy_stopped :: "transparent_proxy \<Rightarrow> transparent_proxy" where
  "proxy_stopped tp = tp\<lparr>tp_shutdown := True, tp_handles := []\<rparr>"

text \<open>When the proxy starts, both TCP ports are the port its TCP listener got and both UDP
  ports the port its UDP listener got, and exactly the three service tasks are added; when it
  fails, no task was spawned.\<close>
theorem proxy_start_spec:
  assumes "proxy_start os tp = (res, tp')"
  shows "case res of
      Inr _ \<Rightarrow> (\<exists>a b. os_local_addr os Stream = Inr a \<and> os_local_addr os Dgram = Inr b \<and>
        tcp_port_v4 tp' = sa_port a \<and> tcp_port_v6 tp' = sa_port a \<and>
        udp_port_v4 tp' = sa_port b \<and> udp_port_v6 tp' = sa_port b \<and>
        tp_handles tp' = tp_handles tp @ [AcceptTcp, UdpWorker, AcceptUdp])
    | Inl _ \<Rightarrow> tp_handles tp' = tp_handles tp \<and> udp_port_v4 tp' = udp_port_v4 tp \<and>
        udp_port_v6 tp' = udp_port_v6 tp"
  using assms by (auto simp: proxy_start_def Let_def rbind_Inr_iff split: sum.splits)

definition demo_os :: socket_os where
  "demo_os = \<lparr>os_call = (\<lambda>_ _. Inr ()),
     os_local_addr = (\<lambda>t. Inr (socket_addr_new (V6 v6_unspecified) (case t of Stream \<Rightarrow> 50000 | Dgram \<Rightarrow> 50001)))\<rparr>"

theorem proxy_start_spec_witness:
  "\<exists>tp'. proxy_start demo_os (transparent_proxy_new 0 demo_dialer) = (Inr (), tp') \<and>
    tp_handles tp' = [AcceptTcp, UdpWorker, AcceptUdp] \<and> tcp_port_v4 tp' = 50000 \<and> udp_port_v6 tp' = 50001"
proof -
  obtain res tp' where r: "proxy_start demo_os (transparent_proxy_new 0 demo_dialer) = (res, tp')"
    by force
  then have "res = Inr ()"
    by (auto simp: proxy_start_def demo_os_def bind_dual_stack_tcp_def bind_dual_stack_udp_def
        bind_dual_stack_socket_def Let_def)
  with proxy_start_spec [OF r] r show ?thesis
    by (simp add: demo_os_def transparent_proxy_new_def)
qed

section \<open>The router's callbacks\<close>

type_synonym peer_query_fn = "socket_addr \<Rightarrow> socket_addr \<Rightarrow> (ip_addr \<times> u16) io_result"

fun normalize_mapped_ipv6 :: "socket_addr \<Rightarrow> socket_addr" where
  "normalize_mapped_ipv6 (SockV6 a p fl sc) =
     (case to_ipv4_mapped a of
        Some v4 \<Rightarrow> socket_addr_new (V4 v4) p
      | None \<Rightarrow> SockV6 a p fl sc)"
| "normalize_mapped_ipv6 (SockV4 a p) = SockV4 a p"

text \<open>
  How a dual-stack listener sees an address of the wire: IPv4 peers appear IPv4-mapped. An
  IPv6 address on the wire that is itself IPv4-mapped is not legal there.
\<close>

fun dual_stack_view :: "ip_addr \<Rightarrow> u16 \<Rightarrow> socket_addr" where
  "dual_stack_view (V4 a) p = SockV6 (to_ipv6_mapped a) p 0 0"
| "dual_stack_view (V6 a) p = SockV6 a p 0 0"

fun wire_ip :: "ip_addr \<Rightarrow> bool" where
  "wire_ip (V4 a) \<longleftrightarrow> True"
| "wire_ip (V6 a) \<longleftrightarrow> to_ipv4_mapped a = None"

lemma sa_port_dual_stack_view [simp]: "sa_port (dual_stack_view i p) = p"
  by (cases i) auto

lemma normalize_dual_stack_view: "wire_ip i \<Longrightarrow> sa_ip (normalize_mapped_ipv6 (dual_stack_view i p)) = i"
  by (cases i) auto

lemma sa_port_normalize [simp]: "sa_port (normalize_mapped_ipv6 a) = sa_port a"
  by (cases a) (auto split: option.split)

section \<open>A redirected TCP connection\<close>

datatype tcp_outcome =
    NoPeerAddr io_error
  | NoLocalAddr io_error
  | NoDestination io_error
  | ConnectFailed socket_addr io_error
  | Relaying socket_addr tcp_stream

definition handle_tcp_connection ::
    "net_env \<Rightarrow> peer_query_fn \<Rightarrow> socks5_dialer \<Rightarrow> socket_addr io_result \<Rightarrow> socket_addr io_result \<Rightarrow> tcp_outcome" where
  "handle_tcp_connection env query d peer_addr local_addr =
     (case peer_addr of Inl e \<Rightarrow> NoPeerAddr e | Inr peer \<Rightarrow>
      case local_addr of Inl e \<Rightarrow> NoLocalAddr e | Inr local \<Rightarrow>
      case query peer local of Inl e \<Rightarrow> NoDestination e | Inr (dst_ip, dst_port) \<Rightarrow>
        let dst_addr = socket_addr_new dst_ip dst_port in
        case connect_tcp env d dst_addr of
          Inl e \<Rightarrow> ConnectFailed dst_addr e
        | Inr s \<Rightarrow> Relaying dst_addr s)"

text \<open>
  The contract of the callbacks: a table answers for the flows it knows, under the listener's
  view of their addresses, and for no others. \<open>knows t d s p dst\<close>: the client at \<open>s\<close>, port
  \<open>p\<close>, was redirected on its way to address \<open>d\<close>, original destination \<open>dst\<close>.
  \<open>seen_at\<close> relates the client's address to the local address the listener reports.
\<close>

locale peer_query =
  fixes knows :: "'t \<Rightarrow> ip_addr \<Rightarrow> ip_addr \<Rightarrow> u16 \<Rightarrow> ip_addr \<times> u16 \<Rightarrow> bool"
    and seen_at :: "ip_addr \<Rightarrow> socket_addr \<Rightarrow> bool"
    and query :: "'t \<Rightarrow> peer_query_fn"
  assumes query_known: "knows t d s p dst \<Longrightarrow> wire_ip d \<Longrightarrow> seen_at s local \<Longrightarrow>
      query t (dual_stack_view d p) local = Inr dst"
    and query_sound: "seen_at s' local \<Longrightarrow> query t peer local = Inr dst \<Longrightarrow>
      \<exists>s. knows t (sa_ip (normalize_mapped_ipv6 peer)) s (sa_port peer) dst"
begin

lemma connection_relayed:
  assumes "knows t d s p (ip, port)" and "wire_ip d" and "seen_at s local"
    and "connect_tcp env dialer (socket_addr_new ip port) = Inr str"
  shows "handle_tcp_connection env (query t) dialer (Inr (dual_stack_view d p)) (Inr local)
    = Relaying (socket_addr_new ip port) str"
  using assms by (simp add: handle_tcp_connection_def query_known Let_def)

lemma connection_destination:
  assumes "seen_at s' local"
    and "handle_tcp_connection env (query t) dialer (Inr peer) (Inr local) = Relaying dst str"
  shows "\<exists>s. knows t (sa_ip (normalize_mapped_ipv6 peer)) s (sa_port peer) (sa_ip dst, sa_port dst)"
proof -
  from assms(2) obtain ip port where q: "query t peer local = Inr (ip, port)"
    and "dst = socket_addr_new ip port"
    by (auto simp: handle_tcp_connection_def Let_def split: sum.splits)
  with query_sound [OF assms(1) q] show ?thesis by simp
qed

lemma unknown_dropped:
  assumes "seen_at s' local" and "\<And>s dst. \<not> knows t (sa_ip (normalize_mapped_ipv6 peer)) s (sa_port peer) dst"
  shows "\<exists>e. handle_tcp_connection env (query t) dialer (Inr peer) (Inr local) = NoDestination e"
  using assms query_sound [OF assms(1), of t peer]
  by (cases "query t peer local") (auto simp: handle_tcp_connection_def)

end

section \<open>UDP associations: state\<close>

datatype udp_association_key = UdpAssociationKey (ak_dst_ip: ip_addr) (ak_client_port: u16)

record udp_association_entry =
  entry_assoc :: nat
  entry_last_active :: instant

text \<open>
  Associations are numbered in the order they are opened; an entry of the table and the reader
  task name their association by its number. The reader task is alive as long as its number is
  in \<open>readers\<close>; its handle stays in \<open>reader_handles\<close> until it is reaped.
\<close>

record udp_reader =
  rd_key :: udp_association_key
  rd_client :: socket_addr
  rd_remote :: socket_addr
  rd_buf :: bytes

record pending_packet =
  pp_key :: udp_association_key
  pp_client :: socket_addr
  pp_remote :: socket_addr
  pp_packet :: bytes

record udp_state =
  conns :: "(udp_association_key, udp_association_entry) hash_map"
  assocs :: "socks5_udp_association list"
  readers :: "(nat, udp_reader) hash_map"
  reader_handles :: "nat list"
  pending :: "pending_packet option"
  sent :: "(nat \<times> bytes) list"
  delivered :: "(socket_addr \<times> bytes) list"

definition udp_init :: udp_state where
  "udp_init = \<lparr>conns = hm_empty, assocs = [], readers = hm_empty, reader_handles = [],
     pending = None, sent = [], delivered = []\<rparr>"

section \<open>UDP associations: operations\<close>

definition udp_assoc_fresh :: "duration \<Rightarrow> bool" where
  "udp_assoc_fresh age \<longleftrightarrow> age < from_secs UDP_ASSOCIATION_TIMEOUT_SECS"

definition cleanup_stale_udp_associations :: "instant \<Rightarrow> udp_state \<Rightarrow> udp_state" where
  "cleanup_stale_udp_associations now st =
     st\<lparr>conns := hm_retain (\<lambda>_ e. udp_assoc_fresh (duration_since now (entry_last_active e))) (conns st)\<rparr>"

text \<open>\<open>Vec::swap_remove\<close> and the loop that drops the finished handles.\<close>

definition swap_remove :: "nat \<Rightarrow> 'a list \<Rightarrow> 'a list" where
  "swap_remove i xs = (if i = length xs - 1 then butlast xs else (butlast xs)[i := last xs])"

lemma length_swap_remove: "xs \<noteq> [] \<Longrightarrow> length (swap_remove i xs) = length xs - 1"
  by (simp add: swap_remove_def)

function reap_loop :: "('a \<Rightarrow> bool) \<Rightarrow> nat \<Rightarrow> 'a list \<Rightarrow> 'a list" where
  "reap_loop finished idx handles =
     (if idx < length handles then
        (if finished (handles ! idx) then reap_loop finished idx (swap_remove idx handles)
         else reap_loop finished (idx + 1) handles)
      else handles)"
  by pat_completeness auto
termination
  by (relation "measure (\<lambda>(f, idx, hs). length hs - idx)")
    (auto simp: swap_remove_def)

declare reap_loop.simps [simp del]

definition reap_udp_reader_handles :: "udp_state \<Rightarrow> udp_state" where
  "reap_udp_reader_handles st =
     st\<lparr>reader_handles := reap_loop (\<lambda>h. hm_get (readers st) h = None) 0 (reader_handles st)\<rparr>"

definition touch :: "udp_association_key \<Rightarrow> udp_association_entry \<Rightarrow> instant \<Rightarrow> udp_state \<Rightarrow> udp_state" where
  "touch key e now st = st\<lparr>conns := hm_insert key (e\<lparr>entry_last_active := now\<rparr>) (conns st)\<rparr>"

definition send_on :: "nat \<Rightarrow> bytes \<Rightarrow> socket_addr \<Rightarrow> udp_state \<Rightarrow> udp_state" where
  "send_on n packet remote st =
     st\<lparr>sent := sent st @ [(n, assoc_send_to (assocs st ! n) [] packet remote)]\<rparr>"

text \<open>
  \<open>handle_udp_packet\<close> up to the UDP ASSOCIATE exchange: a known flow is refreshed and the
  packet sent; for a new one the table is cleaned, finished readers are reaped, and the packet
  waits for an association unless the table is full.
\<close>

definition handle_udp_packet_begin ::
    "peer_query_fn \<Rightarrow> socket_addr io_result \<Rightarrow> instant \<Rightarrow> bytes \<Rightarrow> socket_addr \<Rightarrow> udp_state \<Rightarrow> udp_state" where
  "handle_udp_packet_begin query local_addr now packet client_addr st =
     (case local_addr of Inl e \<Rightarrow> st | Inr local \<Rightarrow>
      case query client_addr local of Inl e \<Rightarrow> st | Inr (dst_ip, dst_port) \<Rightarrow>
        let local_key = UdpAssociationKey dst_ip (sa_port client_addr);
            remote_addr = socket_addr_new dst_ip dst_port in
        case hm_get (conns st) local_key of
          Some e \<Rightarrow> send_on (entry_assoc e) packet remote_addr (touch local_key e now st)
        | None \<Rightarrow>
            let st = reap_udp_reader_handles (cleanup_stale_udp_associations now st) in
            if MAX_UDP_ASSOCIATIONS \<le> hm_len (conns st) then st
            else st\<lparr>pending := Some \<lparr>pp_key = local_key, pp_client = client_addr,
                                    pp_remote = remote_addr, pp_packet = packet\<rparr>\<rparr>)"

definition spawn_udp_reader ::
    "nat \<Rightarrow> udp_association_key \<Rightarrow> socket_addr \<Rightarrow> socket_addr \<Rightarrow> udp_state \<Rightarrow> udp_state" where
  "spawn_udp_reader n key client remote st =
     st\<lparr>readers := hm_insert n \<lparr>rd_key = key, rd_client = client, rd_remote = remote,
                              rd_buf = replicate 65535 0\<rparr> (readers st),
        reader_handles := reader_handles st @ [n]\<rparr>"

text \<open>The rest of \<open>handle_udp_packet\<close>, once the exchange has ended.\<close>

definition handle_udp_packet_finish ::
    "socks5_udp_association io_result \<Rightarrow> instant \<Rightarrow> udp_state \<Rightarrow> udp_state" where
  "handle_udp_packet_finish result now st =
     (case pending st of None \<Rightarrow> st | Some p \<Rightarrow>
        let st = st\<lparr>pending := None\<rparr> in
        case result of Inl e \<Rightarrow> st | Inr assoc \<Rightarrow>
          case hm_get (conns st) (pp_key p) of
            Some e \<Rightarrow> send_on (entry_assoc e) (pp_packet p) (pp_remote p) (touch (pp_key p) e now st)
          | None \<Rightarrow>
              let n = length (assocs st);
                  st = st\<lparr>assocs := assocs st @ [assoc]\<rparr>;
                  st = spawn_udp_reader n (pp_key p) (pp_client p) (pp_remote p) st;
                  st = st\<lparr>conns := hm_insert (pp_key p)
                            \<lparr>entry_assoc = n, entry_last_active = now\<rparr> (conns st)\<rparr>
              in send_on n (pp_packet p) (pp_remote p) st)"

datatype reader_event = RdShutdown | RdTimeout | RdReceived "bytes io_result"

text \<open>The reader's last act removes its key, whichever association the key stands for by then.\<close>

definition reader_exit :: "nat \<Rightarrow> udp_association_key \<Rightarrow> udp_state \<Rightarrow> udp_state" where
  "reader_exit n key st =
     st\<lparr>readers := hm_remove n (readers st), conns := hm_remove key (conns st)\<rparr>"

definition udp_reader_step ::
    "net_env \<Rightarrow> instant \<Rightarrow> nat \<Rightarrow> udp_reader \<Rightarrow> reader_event \<Rightarrow> udp_state \<Rightarrow> udp_state" where
  "udp_reader_step env now n r ev st =
     (case ev of
        RdShutdown \<Rightarrow> reader_exit n (rd_key r) st
      | RdTimeout \<Rightarrow>
          if hm_get (conns st) (rd_key r) = None then reader_exit n (rd_key r) st else st
      | RdReceived res \<Rightarrow>
          let (result, buf) = recv_datagram env res (rd_buf r);
              st = st\<lparr>readers := hm_insert n (r\<lparr>rd_buf := buf\<rparr>) (readers st)\<rparr> in
          (case result of
             Inl e \<Rightarrow> reader_exit n (rd_key r) st
           | Inr (payload_len, _) \<Rightarrow>
               if payload_len = 0 then st
               else
                 let st = st\<lparr>delivered := delivered st @ [(rd_client r, take payload_len buf)]\<rparr> in
                 (case hm_get (conns st) (rd_key r) of
                    Some e \<Rightarrow> touch (rd_key r) e now st
                  | None \<Rightarrow> reader_exit n (rd_key r) st)))"

section \<open>Interleaving\<close>

inductive proxy_step :: "net_env \<Rightarrow> udp_state \<Rightarrow> udp_state \<Rightarrow> bool" for env where
  packet: "pending s = None \<Longrightarrow>
     proxy_step env s (handle_udp_packet_begin query local_addr now packet client s)"
| associated: "pending s = Some p \<Longrightarrow>
     proxy_step env s (handle_udp_packet_finish result now s)"
| cleanup_tick: "pending s = None \<Longrightarrow>
     proxy_step env s (cleanup_stale_udp_associations now s)"
| reader: "hm_get (readers s) n = Some r \<Longrightarrow>
     proxy_step env s (udp_reader_step env now n r ev s)"

inductive proxy_reachable :: "net_env \<Rightarrow> udp_state \<Rightarrow> bool" for env where
  init: "proxy_reachable env udp_init"
| step: "proxy_reachable env s \<Longrightarrow> proxy_step env s t \<Longrightarrow> proxy_reachable env t"

inductive_cases proxy_stepE: "proxy_step env s t"

section \<open>Reaping finished readers\<close>

lemma mset_swap_remove:
  assumes "i < length xs"
  shows "mset (swap_remove i xs) = mset xs - {#xs ! i#}"
proof -
  from assms obtain ys y where xs: "xs = ys @ [y]" by (cases xs rule: rev_cases) auto
  with assms show ?thesis
    by (cases "i = length ys") (auto simp: swap_remove_def nth_append mset_update)
qed

lemma swap_remove_take: "i < length xs \<Longrightarrow> take i (swap_remove i xs) = take i xs"
  by (auto simp: swap_remove_def take_butlast nth_butlast list_eq_iff_nth_eq)

text \<open>Reaping drops every finished handle and keeps every other, whatever order the
  swaps leave them in.\<close>
theorem reap_loop_keeps_unfinished:
  "(\<forall>h \<in> set (take idx handles). \<not> finished h) \<Longrightarrow>
    mset (reap_loop finished idx handles) = filter_mset (\<lambda>h. \<not> finished h) (mset handles)"
proof (induction finished idx handles rule: reap_loop.induct)
  case (1 finished idx handles)
  show ?case
  proof (cases "idx < length handles")
    case False
    with "1.prems" have "filter (\<lambda>h. \<not> finished h) handles = handles"
      by (simp add: filter_id_conv)
    then have "filter_mset (\<lambda>h. \<not> finished h) (mset handles) = mset handles"
      by (metis mset_filter)
    with False show ?thesis by (subst reap_loop.simps) simp
  next
    case True
    show ?thesis
    proof (cases "finished (handles ! idx)")
      case fin: True
      have "mset (reap_loop finished idx (swap_remove idx handles)) =
          filter_mset (\<lambda>h. \<not> finished h) (mset (swap_remove idx handles))"
        using 1 True fin by (simp add: swap_remove_take)
      with True fin show ?thesis
        by (subst reap_loop.simps) (simp add: mset_swap_remove)
    next
      case unfin: False
      then have "\<forall>h \<in> set (take (idx + 1) handles). \<not> finished h"
        using "1.prems" True by (simp add: take_Suc_conv_app_nth)
      with 1 True unfin show ?thesis by (subst reap_loop.simps) simp
    qed
  qed
qed

theorem reap_loop_keeps_unfinished_witness:
  "mset (reap_loop (\<lambda>h. h = (2::nat)) 0 [2, 3, 2, 5]) = filter_mset (\<lambda>h. h \<noteq> 2) {#2, 3, 2, 5#}"
  using reap_loop_keeps_unfinished [of 0 "[2, 3, 2, 5]" "\<lambda>h. h = (2::nat)"] by simp

section \<open>The association table expires idle entries\<close>

interpretation ua: expiring_table hm_empty hm_get hm_insert hm_remove hm_retain hm_len hm_wf
  entry_last_active udp_assoc_fresh
  by unfold_locales (auto simp: udp_assoc_fresh_def UDP_ASSOCIATION_TIMEOUT_SECS_def)

lemma conns_cleanup: "conns (cleanup_stale_udp_associations now st) = ua.expire now (conns st)"
  by (simp add: cleanup_stale_udp_associations_def ua.expire_def)

lemma cleanup_frame [simp]:
  "assocs (cleanup_stale_udp_associations now st) = assocs st"
  "readers (cleanup_stale_udp_associations now st) = readers st"
  "pending (cleanup_stale_udp_associations now st) = pending st"
  "sent (cleanup_stale_udp_associations now st) = sent st"
  "delivered (cleanup_stale_udp_associations now st) = delivered st"
  by (simp_all add: cleanup_stale_udp_associations_def)

lemma reap_frame [simp]:
  "conns (reap_udp_reader_handles st) = conns st"
  "assocs (reap_udp_reader_handles st) = assocs st"
  "readers (reap_udp_reader_handles st) = readers st"
  "pending (reap_udp_reader_handles st) = pending st"
  by (simp_all add: reap_udp_reader_handles_def)

lemma send_on_frame [simp]:
  "conns (send_on n pk a st) = conns st" "assocs (send_on n pk a st) = assocs st"
  "readers (send_on n pk a st) = readers st" "pending (send_on n pk a st) = pending st"
  "sent (send_on n pk a st) = sent st @ [(n, assoc_send_to (assocs st ! n) [] pk a)]"
  by (simp_all add: send_on_def)

lemma touch_frame [simp]:
  "assocs (touch k e now st) = assocs st" "readers (touch k e now st) = readers st"
  "pending (touch k e now st) = pending st" "sent (touch k e now st) = sent st"
  "delivered (touch k e now st) = delivered st"
  "conns (touch k e now st) = hm_insert k (e\<lparr>entry_last_active := now\<rparr>) (conns st)"
  by (simp_all add: touch_def)

section \<open>The invariant of the association table\<close>

text \<open>
  Every entry names an opened association whose reader is alive and answers for the same key,
  every reader answers its client's own port, and the table never outgrows its limit, also not
  while the worker waits for an association.
\<close>

definition entries_served :: "udp_state \<Rightarrow> bool" where
  "entries_served s \<longleftrightarrow> (\<forall>k e. hm_get (conns s) k = Some e \<longrightarrow>
     (\<exists>r. hm_get (readers s) (entry_assoc e) = Some r \<and> rd_key r = k))"

definition readers_ok :: "udp_state \<Rightarrow> bool" where
  "readers_ok s \<longleftrightarrow> (\<forall>n r. hm_get (readers s) n = Some r \<longrightarrow>
     n < length (assocs s) \<and> sa_port (rd_client r) = ak_client_port (rd_key r) \<and>
     length (rd_buf r) = 65535)"

definition pending_ok :: "udp_state \<Rightarrow> bool" where
  "pending_ok s \<longleftrightarrow> (\<forall>p. pending s = Some p \<longrightarrow>
     hm_len (conns s) < MAX_UDP_ASSOCIATIONS \<and> sa_port (pp_client p) = ak_client_port (pp_key p))"

definition table_bounded :: "udp_state \<Rightarrow> bool" where
  "table_bounded s \<longleftrightarrow> hm_wf (conns s) \<and> hm_wf (readers s) \<and> hm_len (conns s) \<le> MAX_UDP_ASSOCIATIONS"

definition udp_inv :: "udp_state \<Rightarrow> bool" where
  "udp_inv s \<longleftrightarrow> entries_served s \<and> readers_ok s \<and> pending_ok s \<and> table_bounded s"

lemmas udp_inv_defs = udp_inv_def entries_served_def readers_ok_def pending_ok_def table_bounded_def

lemma udp_inv_init: "udp_inv udp_init"
  by (simp add: udp_inv_defs udp_init_def hm_simps) (simp add: hm_len_def hm_empty_def)

lemma len_cleanup_le: "hm_len (conns (cleanup_stale_udp_associations now s)) \<le> hm_len (conns s)"
  by (simp add: conns_cleanup ua.len_expire)

lemma udp_inv_shrink:
  assumes "udp_inv s" and "\<And>k e. hm_get c k = Some e \<Longrightarrow> hm_get (conns s) k = Some e"
    and "hm_wf c" and "hm_len c \<le> hm_len (conns s)"
  shows "udp_inv (s\<lparr>conns := c\<rparr>)"
  unfolding udp_inv_def
proof (intro conjI)
  show "entries_served (s\<lparr>conns := c\<rparr>)"
    using assms(1,2) by (auto simp: udp_inv_def entries_served_def)
  show "readers_ok (s\<lparr>conns := c\<rparr>)"
    using assms(1) by (simp add: udp_inv_def readers_ok_def)
  show "pending_ok (s\<lparr>conns := c\<rparr>)"
    using assms(1,4) by (auto simp: udp_inv_def pending_ok_def)
  show "table_bounded (s\<lparr>conns := c\<rparr>)"
    using assms(1,3,4) by (simp add: udp_inv_def table_bounded_def)
qed

lemma udp_inv_cleanup: "udp_inv s \<Longrightarrow> udp_inv (cleanup_stale_udp_associations now s)"
  unfolding cleanup_stale_udp_associations_def
  by (rule udp_inv_shrink)
    (auto simp: udp_inv_def table_bounded_def hm.get_retain_Some hm.wf_retain hm.len_retain)

lemma udp_inv_reap: "udp_inv s \<Longrightarrow> udp_inv (reap_udp_reader_handles s)"
  by (simp add: udp_inv_defs)

lemma udp_inv_send: "udp_inv s \<Longrightarrow> udp_inv (send_on n pk a s)"
  by (simp add: udp_inv_defs)

lemma udp_inv_touch:
  "udp_inv s \<Longrightarrow> hm_get (conns s) k = Some e \<Longrightarrow> udp_inv (touch k e now s)"
  by (auto simp: udp_inv_defs hm.get_ins hm.wf_ins hm.len_ins)

lemma udp_inv_begin:
  assumes "udp_inv s"
  shows "udp_inv (handle_udp_packet_begin query local_addr now packet client s)"
proof -
  let ?c = "reap_udp_reader_handles (cleanup_stale_udp_associations now s)"
  have c: "udp_inv ?c" using assms by (intro udp_inv_reap udp_inv_cleanup)
  then have p: "\<And>k r. hm_len (conns ?c) < MAX_UDP_ASSOCIATIONS \<Longrightarrow> ak_client_port k = sa_port client \<Longrightarrow>
      udp_inv (?c\<lparr>pending := Some \<lparr>pp_key = k, pp_client = client, pp_remote = r, pp_packet = packet\<rparr>\<rparr>)"
    by (simp add: udp_inv_defs)
  show ?thesis
    unfolding handle_udp_packet_begin_def Let_def
    using assms c p
    by (auto simp: not_le intro: udp_inv_send udp_inv_touch split: sum.split option.split)
qed

lemma udp_inv_open:
  assumes "udp_inv s" and "pending s = None" and "hm_get (conns s) k = None"
    and "hm_len (conns s) < MAX_UDP_ASSOCIATIONS" and "sa_port client = ak_client_port k"
  shows "udp_inv ((spawn_udp_reader (length (assocs s)) k client remote (s\<lparr>assocs := assocs s @ [a]\<rparr>))
    \<lparr>conns := hm_insert k \<lparr>entry_assoc = length (assocs s), entry_last_active = now\<rparr> (conns s)\<rparr>)"
    (is "udp_inv ?t")
  unfolding udp_inv_def
proof (intro conjI)
  have fresh: "hm_get (readers s) (length (assocs s)) = None"
    using assms(1)
    by (cases "hm_get (readers s) (length (assocs s))") (auto simp: udp_inv_def readers_ok_def)
  show "entries_served ?t"
    using assms(1) fresh by (auto simp: udp_inv_def entries_served_def spawn_udp_reader_def hm.get_ins)
      fastforce
  show "readers_ok ?t"
    using assms(1,5)
    by (auto simp: udp_inv_def readers_ok_def spawn_udp_reader_def hm.get_ins less_SucI)
  show "pending_ok ?t"
    using assms(2) by (simp add: pending_ok_def spawn_udp_reader_def)
  show "table_bounded ?t"
    using assms(1,3,4)
    by (simp add: udp_inv_def table_bounded_def spawn_udp_reader_def hm.wf_ins hm.len_ins)
qed

lemma udp_inv_finish:
  assumes "udp_inv s"
  shows "udp_inv (handle_udp_packet_finish result now s)"
proof (cases "pending s")
  case None
  with assms show ?thesis by (simp add: handle_udp_packet_finish_def)
next
  case (Some p)
  let ?s = "s\<lparr>pending := None\<rparr>"
  from assms have inv: "udp_inv ?s" by (simp add: udp_inv_defs)
  from assms Some have "hm_len (conns ?s) < MAX_UDP_ASSOCIATIONS"
    and "sa_port (pp_client p) = ak_client_port (pp_key p)"
    by (auto simp: udp_inv_defs)
  with Some inv udp_inv_open [of ?s] show ?thesis
    by (auto simp: handle_udp_packet_finish_def Let_def spawn_udp_reader_def
        intro!: udp_inv_send udp_inv_touch split: sum.split option.split)
qed

lemma length_recv_datagram: "length (snd (recv_datagram env res buf)) = length buf"
proof (cases res)
  case (Inr dgram)
  let ?got = "take (length buf) dgram"
  have "length ?got \<le> length buf" by simp
  then show ?thesis
    using Inr parse_udp_response_offset [of env ?got]
    by (auto simp: recv_datagram_def Let_def copy_within_def split: sum.split prod.split)
qed (simp add: recv_datagram_def)

lemma udp_inv_rebuffer:
  assumes "udp_inv s" and "hm_get (readers s) n = Some r" and "length buf = 65535"
  shows "udp_inv (s\<lparr>readers := hm_insert n (r\<lparr>rd_buf := buf\<rparr>) (readers s)\<rparr>)"
  unfolding udp_inv_def
proof (intro conjI)
  let ?t = "s\<lparr>readers := hm_insert n (r\<lparr>rd_buf := buf\<rparr>) (readers s)\<rparr>"
  show "entries_served ?t"
    using assms(1,2) by (fastforce simp: udp_inv_def entries_served_def hm.get_ins)
  show "readers_ok ?t"
    using assms by (auto simp: udp_inv_def readers_ok_def hm.get_ins)
  show "pending_ok ?t"
    using assms(1) by (simp add: udp_inv_def pending_ok_def)
  show "table_bounded ?t"
    using assms(1) by (simp add: udp_inv_def table_bounded_def hm.wf_ins)
qed

lemma udp_inv_exit:
  assumes "udp_inv s" and "hm_get (readers s) n = Some r"
  shows "udp_inv (reader_exit n (rd_key r) s)"
  unfolding udp_inv_def
proof (intro conjI)
  show "entries_served (reader_exit n (rd_key r) s)"
    using assms by (fastforce simp: udp_inv_def entries_served_def reader_exit_def hm.get_rm)
  show "readers_ok (reader_exit n (rd_key r) s)"
    using assms(1) by (simp add: udp_inv_def readers_ok_def reader_exit_def hm.get_rm)
  show "pending_ok (reader_exit n (rd_key r) s)"
    using assms(1) hm.len_rm [of "rd_key r" "conns s"]
    by (auto simp: udp_inv_def pending_ok_def reader_exit_def)
  show "table_bounded (reader_exit n (rd_key r) s)"
    using assms(1) hm.len_rm [of "rd_key r" "conns s"]
    by (auto simp: udp_inv_def table_bounded_def reader_exit_def hm.wf_rm)
qed

lemma udp_inv_deliver: "udp_inv s \<Longrightarrow> udp_inv (s\<lparr>delivered := d\<rparr>)"
  by (simp add: udp_inv_defs)

lemma udp_inv_received:
  assumes "udp_inv s" and "hm_get (readers s) n = Some r"
  shows "udp_inv (udp_reader_step env now n r (RdReceived res) s)"
proof -
  obtain result buf where rb: "recv_datagram env res (rd_buf r) = (result, buf)" by force
  have "length (rd_buf r) = 65535" using assms by (simp add: udp_inv_def readers_ok_def)
  then have "length buf = 65535"
    using rb length_recv_datagram [of env res "rd_buf r"] by simp
  let ?t = "s\<lparr>readers := hm_insert n (r\<lparr>rd_buf := buf\<rparr>) (readers s)\<rparr>"
  have inv: "udp_inv ?t" and r: "hm_get (readers ?t) n = Some (r\<lparr>rd_buf := buf\<rparr>)"
    using assms \<open>length buf = 65535\<close> by (simp_all add: udp_inv_rebuffer hm.get_ins)
  have dinv: "\<And>d. udp_inv (?t\<lparr>delivered := d\<rparr>)" by (rule udp_inv_deliver [OF inv])
  show ?thesis
    using udp_inv_exit [OF inv r] udp_inv_exit [OF dinv, where n = n and r = "r\<lparr>rd_buf := buf\<rparr>"] r inv
      udp_inv_touch [OF dinv]
    by (auto simp: udp_reader_step_def rb Let_def dinv split: sum.split option.split)
qed

lemma udp_inv_reader:
  "udp_inv s \<Longrightarrow> hm_get (readers s) n = Some r \<Longrightarrow> udp_inv (udp_reader_step env now n r ev s)"
proof (cases ev)
  case (RdReceived res)
  assume "udp_inv s" "hm_get (readers s) n = Some r"
  with RdReceived show ?thesis by (simp add: udp_inv_received)
qed (simp_all add: udp_reader_step_def udp_inv_exit)

lemma proxy_step_inv: "proxy_step env s t \<Longrightarrow> udp_inv s \<Longrightarrow> udp_inv t"
  by (induction rule: proxy_step.induct)
    (simp_all add: udp_inv_begin udp_inv_finish udp_inv_cleanup udp_inv_reader)

lemma proxy_reachable_inv: "proxy_reachable env s \<Longrightarrow> udp_inv s"
  by (induction rule: proxy_reachable.induct) (auto intro: udp_inv_init proxy_step_inv)

section \<open>Correctness of the association table\<close>

text \<open>C11: However packets, readers and the cleanup interleave, there are never more than
  \<open>MAX_UDP_ASSOCIATIONS\<close> associations, every entry of the table has a live reader for its key,
  and every reader answers to the port of the client that opened its flow.\<close>
theorem udp_association_invariant:
  assumes "proxy_reachable env s"
  shows "hm_len (conns s) \<le> MAX_UDP_ASSOCIATIONS \<and>
    (\<forall>k e. hm_get (conns s) k = Some e \<longrightarrow>
       (\<exists>r. hm_get (readers s) (entry_assoc e) = Some r \<and> rd_key r = k \<and>
            sa_port (rd_client r) = ak_client_port k))"
  using proxy_reachable_inv [OF assms] by (fastforce simp: udp_inv_defs)

definition demo_query :: peer_query_fn where
  "demo_query peer local = Inr (V4 (Ipv4Addr 8 8 8 8), 53)"

definition demo_client :: socket_addr where
  "demo_client = SockV6 (to_ipv6_mapped (Ipv4Addr 10 0 0 2)) 53000 0 0"

definition demo_key :: udp_association_key where
  "demo_key = UdpAssociationKey (V4 (Ipv4Addr 8 8 8 8)) 53000"

definition demo_assoc :: socks5_udp_association where
  "demo_assoc = \<lparr>udp_local = V4 v4_unspecified, udp_peer = SockV4 (Ipv4Addr 127 0 0 1) 4000,
     assoc_prefer_mapped = False, assoc_tcp = \<lparr>rx = [], rx_end = OsError 0, tx = [], wr_plan = []\<rparr>\<rparr>"

definition demo_asking :: "instant \<Rightarrow> udp_state \<Rightarrow> udp_state" where
  "demo_asking now s = handle_udp_packet_begin demo_query (Inr (SockV6 v6_unspecified 50001 0 0)) now [1, 2] demo_client s"

definition demo_open :: udp_state where
  "demo_open = handle_udp_packet_finish (Inr demo_assoc) 0 (demo_asking 0 udp_init)"

lemma reap_loop_Nil [simp]: "reap_loop f i [] = []"
  by (simp add: reap_loop.simps)

lemmas demo_defs = demo_query_def demo_client_def demo_key_def demo_assoc_def demo_asking_def

lemma pending_demo_asking: "pending (demo_asking 0 udp_init) =
    Some \<lparr>pp_key = demo_key, pp_client = demo_client,
          pp_remote = SockV4 (Ipv4Addr 8 8 8 8) 53, pp_packet = [1, 2]\<rparr>"
  by (simp add: demo_asking_def demo_query_def demo_key_def demo_client_def
      handle_udp_packet_begin_def udp_init_def hm_simps cleanup_stale_udp_associations_def Let_def
      reap_udp_reader_handles_def socket_addr_new_def MAX_UDP_ASSOCIATIONS_def)
    (simp add: hm_len_def hm_retain_def hm_empty_def)

definition demo_remote :: socket_addr where
  "demo_remote = SockV4 (Ipv4Addr 8 8 8 8) 53"

definition demo_frame :: bytes where
  "demo_frame = build_udp_request [] demo_remote [1, 2]"

lemma demo_open_eq: "demo_open =
   \<lparr>conns = [(demo_key, \<lparr>entry_assoc = 0, entry_last_active = 0\<rparr>)], assocs = [demo_assoc],
    readers = [(0, \<lparr>rd_key = demo_key, rd_client = demo_client, rd_remote = demo_remote,
                   rd_buf = replicate 65535 0\<rparr>)],
    reader_handles = [0], pending = None, sent = [(0, demo_frame)], delivered = []\<rparr>"
  by (simp add: demo_open_def handle_udp_packet_finish_def pending_demo_asking Let_def)
    (simp add: demo_asking_def demo_query_def demo_key_def demo_client_def demo_remote_def demo_frame_def
      handle_udp_packet_begin_def udp_init_def cleanup_stale_udp_associations_def Let_def
      reap_udp_reader_handles_def socket_addr_new_def MAX_UDP_ASSOCIATIONS_def spawn_udp_reader_def
      send_on_def assoc_send_to_def demo_assoc_def socks_simps
      hm_len_def hm_retain_def hm_empty_def hm_get_def hm_insert_def)

lemma reachable_demo_open: "proxy_reachable env demo_open"
proof -
  have "proxy_reachable env (demo_asking 0 udp_init)"
    unfolding demo_asking_def
    by (rule proxy_reachable.step [OF proxy_reachable.init proxy_step.packet]) (simp add: udp_init_def)
  then show ?thesis
    unfolding demo_open_def
    by (rule proxy_reachable.step) (rule proxy_step.associated [OF pending_demo_asking])
qed

theorem udp_association_invariant_witness:
  "hm_len (conns demo_open) \<le> MAX_UDP_ASSOCIATIONS \<and>
   (\<exists>r. hm_get (readers demo_open) 0 = Some r \<and> rd_key r = demo_key \<and> sa_port (rd_client r) = 53000)"
proof -
  have "hm_get (conns demo_open) demo_key = Some \<lparr>entry_assoc = 0, entry_last_active = 0\<rparr>"
    by (simp add: demo_open_eq hm_get_def)
  with udp_association_invariant [OF reachable_demo_open] show ?thesis
    by (fastforce simp: demo_key_def)
qed



text \<open>The packet that opens a flow waits for the association and is then sent on it: after a
  successful exchange the flow has an entry and a live reader answering its client, and the
  datagram for the original destination is the one and only thing sent.\<close>
theorem new_flow_packet:
  assumes "pending s = Some p" and "hm_get (conns s) (pp_key p) = None"
  shows "let t = handle_udp_packet_finish (Inr a) now s; n = length (assocs s) in
    hm_get (conns t) (pp_key p) = Some \<lparr>entry_assoc = n, entry_last_active = now\<rparr> \<and>
    (\<exists>r. hm_get (readers t) n = Some r \<and> rd_client r = pp_client p \<and> rd_key r = pp_key p) \<and>
    assocs t ! n = a \<and> pending t = None \<and>
    sent t = sent s @ [(n, assoc_send_to a [] (pp_packet p) (pp_remote p))]"
  using assms
  by (simp add: handle_udp_packet_finish_def Let_def spawn_udp_reader_def hm.get_ins)

theorem new_flow_packet_witness:
  "sent demo_open = [(0, assoc_send_to demo_assoc [] [1, 2] (SockV4 (Ipv4Addr 8 8 8 8) 53))]"
proof -
  have "hm_get (conns (demo_asking 0 udp_init)) demo_key = None \<and> sent (demo_asking 0 udp_init) = []
      \<and> assocs (demo_asking 0 udp_init) = []"
    by (simp add: demo_asking_def demo_query_def demo_client_def
        handle_udp_packet_begin_def udp_init_def cleanup_stale_udp_associations_def Let_def
        reap_udp_reader_handles_def hm_len_def hm_retain_def hm_empty_def hm_get_def
        MAX_UDP_ASSOCIATIONS_def)
  with new_flow_packet [OF pending_demo_asking, of demo_assoc 0] show ?thesis
    by (simp add: Let_def demo_open_def)
qed

lemma reader_delivers:
  assumes "payload \<noteq> []" and "udp_header_len src + length payload \<le> length (rd_buf r)"
  shows "let t = udp_reader_step env now n r (RdReceived (Inr (build_udp_request old src payload))) s in
    delivered t = delivered s @ [(rd_client r, payload)] \<and>
    (\<forall>e. hm_get (conns s) (rd_key r) = Some e \<longrightarrow> hm_get (conns t) (rd_key r) = Some (e\<lparr>entry_last_active := now\<rparr>))"
proof -
  let ?d = "build_udp_request old src payload"
  have "length ?d \<le> length (rd_buf r)"
    using assms(2) by (simp add: length_build_udp_request)
  moreover have "drop (udp_header_len src) ?d = payload" "length ?d - udp_header_len src = length payload"
    by (simp_all add: drop_build_udp_request length_build_udp_request)
  ultimately show ?thesis
    using assms
    by (simp add: udp_reader_step_def recv_datagram_def parse_udp_request copy_within_def Let_def
        reader_exit_def hm.get_ins split: option.split)
qed

text \<open>C23: A reply datagram that a reader receives goes to the flow's client as its bare payload,
  and keeps the flow alive by renewing the time stamp of the flow's entry.\<close>
theorem reply_delivered:
  assumes "hm_get (conns s) (rd_key r) = Some e" and "payload \<noteq> []"
    and "udp_header_len src + length payload \<le> length (rd_buf r)"
  shows "let t = udp_reader_step env now n r (RdReceived (Inr (build_udp_request old src payload))) s in
    delivered t = delivered s @ [(rd_client r, payload)] \<and>
    hm_get (conns t) (rd_key r) = Some (e\<lparr>entry_last_active := now\<rparr>)"
  using reader_delivers [OF assms(2,3), of env now n old s] assms(1) by (simp add: Let_def)

theorem reply_delivered_witness:
  "delivered (udp_reader_step demo_env 5 0
      \<lparr>rd_key = demo_key, rd_client = demo_client, rd_remote = demo_remote, rd_buf = replicate 65535 0\<rparr>
      (RdReceived (Inr (build_udp_request [] demo_remote [3]))) demo_open) = [(demo_client, [3])]"
  using reply_delivered [of demo_open "\<lparr>rd_key = demo_key, rd_client = demo_client,
      rd_remote = demo_remote, rd_buf = replicate 65535 0\<rparr>" "\<lparr>entry_assoc = 0, entry_last_active = 0\<rparr>" "[3]" demo_remote demo_env 5 0 "[]"]
  by (simp add: Let_def demo_open_eq hm_get_def udp_header_len_def demo_remote_def)

text \<open>Idle associations are dropped after exactly \<open>UDP_ASSOCIATION_TIMEOUT_SECS\<close>, and
  younger ones are kept unchanged.\<close>
theorem cleanup_associations_spec:
  assumes "hm_wf (conns s)"
  shows "hm_get (conns (cleanup_stale_udp_associations now s)) k = Some e \<longleftrightarrow>
    hm_get (conns s) k = Some e \<and> now - entry_last_active e < 120 * 1000000000"
  using assms
  by (simp add: conns_cleanup ua.get_expire udp_assoc_fresh_def duration_since_def from_secs_def
      UDP_ASSOCIATION_TIMEOUT_SECS_def)

theorem cleanup_associations_spec_witness:
  "hm_get (conns (cleanup_stale_udp_associations 119999999999 demo_open)) demo_key =
     Some \<lparr>entry_assoc = 0, entry_last_active = 0\<rparr>"
  by (subst cleanup_associations_spec) (simp_all add: demo_open_eq hm_wf_def hm_get_def)

section \<open>A reader outlives its entry\<close>

text \<open>
  A reader whose entry was cleaned up looks for its key, not for its association. If a new flow
  takes the key before the reader's next look, the old reader stays, and when its own
  association fails it removes the new flow's entry. The state below is reached by: a flow
  opens, idles for 120 seconds, the cleanup drops it, and its next packet opens it again.
\<close>

definition demo_reopened :: udp_state where
  "demo_reopened =
     handle_udp_packet_finish (Inr demo_assoc) (from_secs 120)
       (demo_asking (from_secs 120) (cleanup_stale_udp_associations (from_secs 120) demo_open))"

lemma demo_idle_eq: "cleanup_stale_udp_associations (from_secs 120) demo_open = demo_open\<lparr>conns := []\<rparr>"
  by (simp add: demo_open_eq cleanup_stale_udp_associations_def hm_retain_def udp_assoc_fresh_def
      UDP_ASSOCIATION_TIMEOUT_SECS_def duration_since_def)

lemma reap_loop_alive: "\<forall>h \<in> set hs. \<not> f h \<Longrightarrow> reap_loop f i hs = hs"
proof (induction f i hs rule: reap_loop.induct)
  case (1 f i hs)
  then show ?case by (cases "i < length hs") (simp_all add: reap_loop.simps [of f i hs])
qed

lemma demo_reasking_eq: "demo_asking (from_secs 120) (demo_open\<lparr>conns := []\<rparr>) =
    demo_open\<lparr>conns := [], pending := Some \<lparr>pp_key = demo_key, pp_client = demo_client,
      pp_remote = demo_remote, pp_packet = [1, 2]\<rparr>\<rparr>"
  by (simp add: demo_open_eq demo_asking_def demo_query_def demo_key_def demo_client_def demo_remote_def
      handle_udp_packet_begin_def cleanup_stale_udp_associations_def Let_def reap_udp_reader_handles_def
      socket_addr_new_def MAX_UDP_ASSOCIATIONS_def hm_len_def hm_retain_def hm_get_def reap_loop_alive)

lemma demo_assoc_send: "assoc_send_to demo_assoc buf pk a = build_udp_request buf a pk"
  by (simp add: assoc_send_to_def demo_assoc_def socks_simps)

lemma demo_reopened_eq: "demo_reopened =
   \<lparr>conns = [(demo_key, \<lparr>entry_assoc = 1, entry_last_active = from_secs 120\<rparr>)],
    assocs = [demo_assoc, demo_assoc],
    readers = [(0, \<lparr>rd_key = demo_key, rd_client = demo_client, rd_remote = demo_remote,
                   rd_buf = replicate 65535 0\<rparr>),
               (1, \<lparr>rd_key = demo_key, rd_client = demo_client, rd_remote = demo_remote,
                   rd_buf = replicate 65535 0\<rparr>)],
    reader_handles = [0, 1], pending = None,
    sent = [(0, demo_frame), (1, demo_frame)], delivered = []\<rparr>"
  unfolding demo_reopened_def demo_idle_eq demo_reasking_eq
  by (simp add: handle_udp_packet_finish_def Let_def demo_open_eq hm_get_def spawn_udp_reader_def
      send_on_def demo_assoc_send hm_insert_def demo_frame_def)

lemma reachable_demo_reopened: "proxy_reachable env demo_reopened"
proof -
  have "proxy_reachable env (demo_open\<lparr>conns := []\<rparr>)"
    using proxy_reachable.step [OF reachable_demo_open proxy_step.cleanup_tick, where now1 = "from_secs 120"]
    by (simp add: demo_idle_eq) (simp add: demo_open_eq)
  then have "proxy_reachable env (demo_asking (from_secs 120) (demo_open\<lparr>conns := []\<rparr>))"
    unfolding demo_asking_def
    by (rule proxy_reachable.step) (rule proxy_step.packet, simp add: demo_open_eq)
  then show ?thesis
    unfolding demo_reopened_def demo_idle_eq
    by (rule proxy_reachable.step) (rule proxy_step.associated, simp add: demo_reasking_eq)
qed

text \<open>There is a reachable state in which the failure of an old, expired association tears
  down the new association that has taken its key: the flow's entry disappears although its own
  association and reader are alive.\<close>
theorem stale_reader_drops_new_association:
  "\<exists>s t r e. proxy_reachable env s \<and> proxy_step env s t \<and>
     hm_get (readers s) 0 = Some r \<and> t = udp_reader_step env (from_secs 120) 0 r (RdReceived (Inl (OsError 1))) s \<and>
     hm_get (conns s) demo_key = Some e \<and> entry_assoc e = 1 \<and>
     hm_get (conns t) demo_key = None \<and> hm_get (readers t) 1 \<noteq> None"
proof -
  let ?r = "\<lparr>rd_key = demo_key, rd_client = demo_client, rd_remote = demo_remote, rd_buf = replicate 65535 0\<rparr>"
  let ?t = "udp_reader_step env (from_secs 120) 0 ?r (RdReceived (Inl (OsError 1))) demo_reopened"
  have r: "hm_get (readers demo_reopened) 0 = Some ?r"
    by (simp add: demo_reopened_eq hm_get_def)
  have "hm_get (conns ?t) demo_key = None \<and> hm_get (readers ?t) 1 \<noteq> None"
    by (simp add: demo_reopened_eq udp_reader_step_def recv_datagram_def reader_exit_def hm_get_def
        hm_remove_def hm_insert_def Let_def)
  then show ?thesis
    using reachable_demo_reopened [of env] proxy_step.reader [OF r] r
    by (intro exI [of _ demo_reopened] exI [of _ ?t] exI [of _ ?r]
        exI [of _ "\<lparr>entry_assoc = 1, entry_last_active = from_secs 120\<rparr>"])
      (simp add: demo_reopened_eq hm_get_def)
qed

end
