(* ===== verification/Mappings.thy ===== *)
theory Mappings
  imports Proxy
begin

text \<open>
  The router's connection tables (\<open>src/src/router/flow.rs\<close> for the keys and entries,
  \<open>UdpMappings\<close> of \<open>src/src/router/mod.rs\<close> for the UDP index) and the two callbacks through
  which the transparent proxy asks for the original destination of a redirected flow
  (\<open>query_tcp\<close> and \<open>query_udp\<close> of \<open>add_socks5_proxy\<close>). The specification of the index is the
  set of flows it summarises; the callbacks interpret the proxy's contract \<open>peer_query\<close>.
\<close>

section \<open>Keys and entries\<close>

datatype udp_flow_key = UdpFlowKey (fk_dst_ip: ip_addr) (fk_src_ip: ip_addr) (fk_src_port: u16)

datatype udp_index_key = UdpIndexKey (ik_dst_ip: ip_addr) (ik_src_port: u16)

record tcp_port_mapping =
  tm_dst_ip :: ip_addr
  tm_dst_port :: u16
  tm_proxy_port :: u16

record udp_port_mapping =
  um_dst_ip :: ip_addr
  um_dst_port :: u16
  um_proxy_port :: u16
  um_last_active :: instant

type_synonym tcp_key = "ip_addr \<times> ip_addr \<times> u16"
type_synonym tcp_table = "(tcp_key, tcp_port_mapping) hash_map"
type_synonym peer_index = "(udp_index_key, udp_flow_key option) hash_map"

record udp_mappings =
  by_flow :: "(udp_flow_key, udp_port_mapping) hash_map"
  by_peer :: peer_index

section \<open>The UDP table and its index\<close>

definition mappings_new :: udp_mappings where
  "mappings_new = \<lparr>by_flow = hm_empty, by_peer = hm_empty\<rparr>"

definition index_key :: "udp_flow_key \<Rightarrow> udp_index_key" where
  "index_key key = UdpIndexKey (fk_dst_ip key) (fk_src_port key)"

definition insert_peer_index :: "peer_index \<Rightarrow> udp_flow_key \<Rightarrow> peer_index" where
  "insert_peer_index bp key =
     (case hm_get bp (index_key key) of
        Some entry \<Rightarrow> hm_insert (index_key key) (if entry \<noteq> Some key then None else entry) bp
      | None \<Rightarrow> hm_insert (index_key key) (Some key) bp)"

definition mappings_insert :: "udp_flow_key \<Rightarrow> udp_port_mapping \<Rightarrow> udp_mappings \<Rightarrow> udp_mappings" where
  "mappings_insert key entry m =
     (let existing = hm_get (by_flow m) key \<noteq> None;
          m = m\<lparr>by_flow := hm_insert key entry (by_flow m)\<rparr>
      in if \<not> existing then m\<lparr>by_peer := insert_peer_index (by_peer m) key\<rparr> else m)"

text \<open>The index is rebuilt in the iteration order of the flow map, \<open>order\<close>.\<close>

definition rebuild_peer_index :: "udp_flow_key list \<Rightarrow> udp_mappings \<Rightarrow> udp_mappings" where
  "rebuild_peer_index order m =
     m\<lparr>by_peer := foldl insert_peer_index hm_empty order\<rparr>"

definition retain_active ::
    "(udp_port_mapping \<Rightarrow> bool) \<Rightarrow> udp_flow_key list \<Rightarrow> udp_mappings \<Rightarrow> udp_mappings" where
  "retain_active keep order m =
     rebuild_peer_index order (m\<lparr>by_flow := hm_retain (\<lambda>_ e. keep e) (by_flow m)\<rparr>)"

section \<open>What the index says\<close>

text \<open>
  For each peer the index tells whether there is no flow, exactly one, or more than one.
\<close>

definition index_matches :: "udp_flow_key set \<Rightarrow> udp_flow_key option option \<Rightarrow> bool" where
  "index_matches S v \<longleftrightarrow>
     (case v of
        None \<Rightarrow> S = {}
      | Some (Some k) \<Rightarrow> S = {k}
      | Some None \<Rightarrow> (\<exists>k \<in> S. \<exists>k' \<in> S. k \<noteq> k'))"

definition index_summary :: "udp_flow_key set \<Rightarrow> peer_index \<Rightarrow> bool" where
  "index_summary S bp \<longleftrightarrow> (\<forall>ik. index_matches {k \<in> S. index_key k = ik} (hm_get bp ik))"

definition flows :: "udp_mappings \<Rightarrow> udp_flow_key set" where
  "flows m = {k. hm_get (by_flow m) k \<noteq> None}"

definition index_ok :: "udp_mappings \<Rightarrow> bool" where
  "index_ok m \<longleftrightarrow> hm_wf (by_flow m) \<and> index_summary (flows m) (by_peer m)"

lemma index_matches_insert:
  assumes "index_matches S v" and "k \<notin> S"
  shows "index_matches (insert k S)
    (Some (case v of None \<Rightarrow> Some k | Some e \<Rightarrow> if e \<noteq> Some k then None else e))"
proof (cases v)
  case None
  with assms show ?thesis by (simp add: index_matches_def)
next
  case (Some e)
  with assms show ?thesis by (cases e) (auto simp: index_matches_def)
qed

lemma get_insert_peer_index:
  "hm_get (insert_peer_index bp k) ik =
    (if ik = index_key k
     then Some (case hm_get bp ik of None \<Rightarrow> Some k | Some e \<Rightarrow> if e \<noteq> Some k then None else e)
     else hm_get bp ik)"
  by (simp add: insert_peer_index_def hm.get_ins split: option.split)

lemma index_summary_insert:
  assumes "index_summary S bp" and "k \<notin> S"
  shows "index_summary (insert k S) (insert_peer_index bp k)"
  unfolding index_summary_def
proof
  fix ik
  have ins: "{x \<in> insert k S. index_key x = ik} =
      (if ik = index_key k then insert k {x \<in> S. index_key x = ik} else {x \<in> S. index_key x = ik})"
    by auto
  have old: "index_matches {x \<in> S. index_key x = ik} (hm_get bp ik)"
    using assms(1) by (simp add: index_summary_def)
  show "index_matches {x \<in> insert k S. index_key x = ik} (hm_get (insert_peer_index bp k) ik)"
    unfolding ins get_insert_peer_index
    using old assms(2) by (auto intro: index_matches_insert)
qed

lemma index_summary_empty: "index_summary {} hm_empty"
  by (simp add: index_summary_def index_matches_def hm.get_empty)

lemma index_summary_fold: "distinct order \<Longrightarrow> index_summary (set order) (foldl insert_peer_index hm_empty order)"
  by (induction order rule: rev_induct) (auto simp: index_summary_empty index_summary_insert)

lemma index_ok_new: "index_ok mappings_new"
proof -
  have "flows mappings_new = {}" by (simp add: flows_def mappings_new_def hm.get_empty)
  then show ?thesis by (simp add: index_ok_def mappings_new_def hm.wf_empty index_summary_empty)
qed

lemma by_flow_insert [simp]: "by_flow (mappings_insert k e m) = hm_insert k e (by_flow m)"
  by (simp add: mappings_insert_def Let_def)

lemma flows_insert: "flows (mappings_insert k e m) = insert k (flows m)"
  by (auto simp: flows_def hm.get_ins)

lemma index_ok_insert:
  assumes "index_ok m"
  shows "index_ok (mappings_insert k e m)"
proof (cases "hm_get (by_flow m) k")
  case None
  then have "k \<notin> flows m" by (simp add: flows_def)
  with assms None show ?thesis
    unfolding index_ok_def flows_insert
    by (simp add: hm.wf_ins mappings_insert_def index_summary_insert Let_def)
next
  case (Some x)
  then have "insert k (flows m) = flows m" by (auto simp: flows_def)
  with assms Some show ?thesis
    unfolding index_ok_def flows_insert by (simp add: hm.wf_ins mappings_insert_def Let_def)
qed

lemma index_ok_retain:
  assumes "index_ok m" and "iteration_order (hm_retain (\<lambda>_ e. keep e) (by_flow m)) order"
  shows "index_ok (retain_active keep order m)"
proof -
  have "set order = flows (retain_active keep order m)"
    using iteration_order_get [OF assms(2)]
    by (auto simp: flows_def retain_active_def rebuild_peer_index_def)
  moreover have "distinct order" using assms(2) by (simp add: iteration_order_def)
  ultimately show ?thesis
    using assms(1) index_summary_fold [of order]
    by (simp add: index_ok_def retain_active_def rebuild_peer_index_def hm.wf_retain)
qed

lemma index_matches_unique: "index_matches S v \<Longrightarrow> v = Some (Some k) \<longleftrightarrow> S = {k}"
  by (auto simp: index_matches_def split: option.splits)

lemma index_matches_ambiguous:
  "index_matches S v \<Longrightarrow> v = Some None \<longleftrightarrow> (\<exists>k \<in> S. \<exists>k' \<in> S. k \<noteq> k')"
  by (auto simp: index_matches_def split: option.splits)

lemma index_ok_matches:
  "index_ok m \<Longrightarrow> index_matches {x \<in> flows m. index_key x = ik} (hm_get (by_peer m) ik)"
  by (simp add: index_ok_def index_summary_def)

lemma index_ok_unique:
  "index_ok m \<Longrightarrow> hm_get (by_peer m) ik = Some (Some k) \<longleftrightarrow> {x \<in> flows m. index_key x = ik} = {k}"
  by (rule index_matches_unique [OF index_ok_matches])

lemma index_ok_ambiguous:
  "index_ok m \<Longrightarrow> hm_get (by_peer m) ik = Some None \<longleftrightarrow>
    (\<exists>k \<in> flows m. \<exists>k' \<in> flows m. k \<noteq> k' \<and> index_key k = ik \<and> index_key k' = ik)"
  using index_matches_ambiguous [OF index_ok_matches, of m ik] by auto

section \<open>The callbacks of the transparent proxy\<close>

definition err_not_found :: "string \<Rightarrow> io_error" where
  "err_not_found msg = IoError NotFound msg"

definition query_tcp :: "tcp_table \<Rightarrow> peer_query_fn" where
  "query_tcp tcp_map peer local =
     (let peer = normalize_mapped_ipv6 peer;
          local = normalize_mapped_ipv6 local;
          key = (sa_ip peer, sa_ip local, sa_port peer) in
      case hm_get tcp_map key of
        Some entry \<Rightarrow> Inr (tm_dst_ip entry, tm_dst_port entry)
      | None \<Rightarrow> Inl (err_not_found ''original destination not found''))"

definition flow_destination :: "udp_mappings \<Rightarrow> udp_flow_key \<Rightarrow> (ip_addr \<times> u16) io_result" where
  "flow_destination m key =
     (case hm_get (by_flow m) key of
        Some entry \<Rightarrow> Inr (um_dst_ip entry, um_dst_port entry)
      | None \<Rightarrow> Inl (err_not_found ''original destination not found''))"

definition query_udp :: "udp_mappings \<Rightarrow> peer_query_fn" where
  "query_udp m peer local =
     (let peer = normalize_mapped_ipv6 peer;
          local = normalize_mapped_ipv6 local;
          local_ip = sa_ip local;
          key = UdpFlowKey (sa_ip peer) local_ip (sa_port peer) in
      if \<not> ip_is_unspecified local_ip then flow_destination m key
      else
        (case hm_get (by_peer m) (UdpIndexKey (sa_ip peer) (sa_port peer)) of
           Some (Some key) \<Rightarrow> flow_destination m key
         | Some None \<Rightarrow> Inl (err_not_found ''ambiguous destination mapping'')
         | None \<Rightarrow> Inl (err_not_found ''original destination not found'')))"

definition tcp_knows :: "tcp_table \<Rightarrow> ip_addr \<Rightarrow> ip_addr \<Rightarrow> u16 \<Rightarrow> ip_addr \<times> u16 \<Rightarrow> bool" where
  "tcp_knows t d s p dst \<longleftrightarrow>
     (\<exists>e. hm_get t (d, s, p) = Some e \<and> dst = (tm_dst_ip e, tm_dst_port e))"

definition flow_knows :: "udp_mappings \<Rightarrow> ip_addr \<Rightarrow> ip_addr \<Rightarrow> u16 \<Rightarrow> ip_addr \<times> u16 \<Rightarrow> bool" where
  "flow_knows m d s p dst \<longleftrightarrow>
     (\<exists>e. hm_get (by_flow m) (UdpFlowKey d s p) = Some e \<and> dst = (um_dst_ip e, um_dst_port e))"

text \<open>On the unspecified address the listener is bound to, only an unambiguous flow is known.\<close>

definition peer_knows :: "udp_mappings \<Rightarrow> ip_addr \<Rightarrow> ip_addr \<Rightarrow> u16 \<Rightarrow> ip_addr \<times> u16 \<Rightarrow> bool" where
  "peer_knows m d s p dst \<longleftrightarrow>
     flow_knows m d s p dst \<and> hm_get (by_peer m) (UdpIndexKey d p) = Some (Some (UdpFlowKey d s p))"

definition seen_as :: "ip_addr \<Rightarrow> socket_addr \<Rightarrow> bool" where
  "seen_as s local \<longleftrightarrow> sa_ip (normalize_mapped_ipv6 local) = s"

definition seen_specific :: "ip_addr \<Rightarrow> socket_addr \<Rightarrow> bool" where
  "seen_specific s local \<longleftrightarrow> seen_as s local \<and> \<not> ip_is_unspecified s"

definition seen_unspecified :: "ip_addr \<Rightarrow> socket_addr \<Rightarrow> bool" where
  "seen_unspecified s local \<longleftrightarrow> ip_is_unspecified (sa_ip (normalize_mapped_ipv6 local))"

lemma flow_destination_Inr:
  "flow_destination m (UdpFlowKey d s p) = Inr dst \<longleftrightarrow> flow_knows m d s p dst"
  by (auto simp: flow_destination_def flow_knows_def split: option.splits)

interpretation tq: peer_query tcp_knows seen_as query_tcp
proof
  fix t d s p dst local
  assume "tcp_knows t d s p dst" "wire_ip d" "seen_as s local"
  then show "query_tcp t (dual_stack_view d p) local = Inr dst"
    by (auto simp: query_tcp_def tcp_knows_def seen_as_def normalize_dual_stack_view Let_def)
next
  fix s' t peer local dst
  assume "query_tcp t peer local = Inr dst"
  then show "\<exists>s. tcp_knows t (sa_ip (normalize_mapped_ipv6 peer)) s (sa_port peer) dst"
    by (auto simp: query_tcp_def tcp_knows_def Let_def split: option.splits)
qed

interpretation fq: peer_query flow_knows seen_specific query_udp
proof
  fix m d s p dst local
  assume "flow_knows m d s p dst" "wire_ip d" "seen_specific s local"
  then show "query_udp m (dual_stack_view d p) local = Inr dst"
    by (auto simp: query_udp_def seen_specific_def seen_as_def normalize_dual_stack_view Let_def
        flow_destination_Inr)
next
  fix s' m peer local dst
  assume "seen_specific s' local" "query_udp m peer local = Inr dst"
  then show "\<exists>s. flow_knows m (sa_ip (normalize_mapped_ipv6 peer)) s (sa_port peer) dst"
    by (auto simp: query_udp_def seen_specific_def seen_as_def Let_def flow_destination_Inr)
qed

text \<open>The index holds only keys that are filed under their own peer.\<close>

lemma index_ok_key:
  assumes "index_ok m" and "hm_get (by_peer m) (UdpIndexKey d p) = Some (Some k)"
  shows "\<exists>s. k = UdpFlowKey d s p"
proof -
  have "k \<in> {x \<in> flows m. index_key x = UdpIndexKey d p}"
    using assms index_ok_unique [of m "UdpIndexKey d p" k] by simp
  then show ?thesis by (cases k) (simp add: index_key_def)
qed

lemma query_udp_unspecified:
  assumes "index_ok m" and "ip_is_unspecified (sa_ip (normalize_mapped_ipv6 local))"
    and "query_udp m peer local = Inr dst"
  shows "\<exists>s. peer_knows m (sa_ip (normalize_mapped_ipv6 peer)) s (sa_port peer) dst"
proof -
  let ?d = "sa_ip (normalize_mapped_ipv6 peer)"
  from assms(2,3) obtain k where k: "hm_get (by_peer m) (UdpIndexKey ?d (sa_port peer)) = Some (Some k)"
    and dst: "flow_destination m k = Inr dst"
    by (auto simp: query_udp_def Let_def split: option.splits)
  from index_ok_key [OF assms(1) k] obtain s where "k = UdpFlowKey ?d s (sa_port peer)" by blast
  with k dst show ?thesis by (auto simp: peer_knows_def flow_destination_Inr)
qed

text \<open>
  What the callback knows on the unspecified address the listener is bound to: the flow that the
  index names for the peer. The local address does not enter.
\<close>

definition checked_knows :: "udp_mappings \<Rightarrow> ip_addr \<Rightarrow> ip_addr \<Rightarrow> u16 \<Rightarrow> ip_addr \<times> u16 \<Rightarrow> bool" where
  "checked_knows m d s p dst \<longleftrightarrow>
     (\<exists>k e. hm_get (by_peer m) (UdpIndexKey d p) = Some (Some k) \<and> hm_get (by_flow m) k = Some e \<and>
        dst = (um_dst_ip e, um_dst_port e))"

interpretation uq: peer_query checked_knows seen_unspecified query_udp
proof
  fix m d s p dst local
  assume "checked_knows m d s p dst" "wire_ip d" "seen_unspecified s local"
  then show "query_udp m (dual_stack_view d p) local = Inr dst"
    by (auto simp: query_udp_def checked_knows_def seen_unspecified_def normalize_dual_stack_view
        Let_def flow_destination_def)
next
  fix s' m peer local dst
  assume "seen_unspecified s' local" "query_udp m peer local = Inr dst"
  then show "\<exists>s. checked_knows m (sa_ip (normalize_mapped_ipv6 peer)) s (sa_port peer) dst"
    by (auto simp: query_udp_def checked_knows_def seen_unspecified_def Let_def flow_destination_def
        split: option.splits)
qed

lemma checked_knows_flow: "peer_knows m d s p dst \<Longrightarrow> checked_knows m d s p dst"
  by (auto simp: checked_knows_def peer_knows_def flow_knows_def)

section \<open>Tables the router can hold\<close>

text \<open>New tables, closed under insertion and under retaining with any iteration order.\<close>

inductive udp_table :: "udp_mappings \<Rightarrow> bool" where
  new: "udp_table mappings_new"
| ins: "udp_table m \<Longrightarrow> udp_table (mappings_insert k e m)"
| ret: "udp_table m \<Longrightarrow> iteration_order (hm_retain (\<lambda>_ e. keep e) (by_flow m)) order \<Longrightarrow>
    udp_table (retain_active keep order m)"

lemma udp_table_index_ok: "udp_table m \<Longrightarrow> index_ok m"
  by (induction rule: udp_table.induct) (simp_all add: index_ok_new index_ok_insert index_ok_retain)

text \<open>C9: After any sequence of insertions and cleanups the peer index is exact: it names a flow
  for a peer if and only if that is the peer's only flow, says ambiguous if and only if there are
  two, and has no entry if and only if there is none.\<close>
theorem peer_index_exact:
  assumes "udp_table m"
  shows "(hm_get (by_peer m) ik = Some (Some k) \<longleftrightarrow> {x \<in> flows m. index_key x = ik} = {k}) \<and>
    (hm_get (by_peer m) ik = Some None \<longleftrightarrow>
      (\<exists>k \<in> flows m. \<exists>k' \<in> flows m. k \<noteq> k' \<and> index_key k = ik \<and> index_key k' = ik)) \<and>
    (hm_get (by_peer m) ik = None \<longleftrightarrow> {x \<in> flows m. index_key x = ik} = {})"
  using udp_table_index_ok [OF assms] index_ok_matches [OF udp_table_index_ok [OF assms], of ik]
  by (intro conjI index_ok_unique index_ok_ambiguous)
    (auto simp: index_matches_def split: option.splits)

definition demo_flow_key :: "u8 \<Rightarrow> udp_flow_key" where
  "demo_flow_key n = UdpFlowKey (V4 (Ipv4Addr 203 0 113 10)) (V4 (Ipv4Addr 192 0 2 n)) 53000"

definition demo_flow :: "u16 \<Rightarrow> udp_port_mapping" where
  "demo_flow port = \<lparr>um_dst_ip = V4 (Ipv4Addr 203 0 113 10), um_dst_port = port, um_proxy_port = 10000,
     um_last_active = 0\<rparr>"

definition demo_table :: udp_mappings where
  "demo_table = retain_active (\<lambda>e. um_dst_port e = 53) [demo_flow_key 10]
     (mappings_insert (demo_flow_key 11) (demo_flow 123)
       (mappings_insert (demo_flow_key 10) (demo_flow 53) mappings_new))"

lemmas demo_table_defs = demo_table_def demo_flow_key_def demo_flow_def mappings_insert_def
  mappings_new_def retain_active_def rebuild_peer_index_def insert_peer_index_def index_key_def
  hm_get_def hm_insert_def hm_empty_def hm_retain_def Let_def

lemma udp_table_demo: "udp_table demo_table"
  unfolding demo_table_def
proof (intro udp_table.ret udp_table.ins udp_table.new)
  show "iteration_order (hm_retain (\<lambda>_ e. um_dst_port e = 53)
     (by_flow (mappings_insert (demo_flow_key 11) (demo_flow 123)
       (mappings_insert (demo_flow_key 10) (demo_flow 53) mappings_new)))) [demo_flow_key 10]"
    by (simp add: demo_table_defs iteration_order_def hm_keys_def)
qed

theorem peer_index_exact_witness:
  "{x \<in> flows demo_table. index_key x = UdpIndexKey (V4 (Ipv4Addr 203 0 113 10)) 53000} = {demo_flow_key 10}"
proof -
  have "hm_get (by_peer demo_table) (UdpIndexKey (V4 (Ipv4Addr 203 0 113 10)) 53000) = Some (Some (demo_flow_key 10))"
    by (simp add: demo_table_defs)
  then show ?thesis
    using peer_index_exact [OF udp_table_demo, of "UdpIndexKey (V4 (Ipv4Addr 203 0 113 10)) 53000" "demo_flow_key 10"]
    by blast
qed

lemma index_matches_functional:
  "index_matches S v \<Longrightarrow> index_matches S v' \<Longrightarrow> v = v'"
  by (auto simp: index_matches_def split: option.splits)

text \<open>The index that a cleanup rebuilds does not depend on the order in which the hash map
  yields its keys.\<close>
theorem rebuild_order_irrelevant:
  assumes "iteration_order (by_flow m) order" and "iteration_order (by_flow m) order'"
  shows "hm_get (by_peer (rebuild_peer_index order m)) ik = hm_get (by_peer (rebuild_peer_index order' m)) ik"
proof -
  have "distinct order" "distinct order'" "set order = set order'"
    using assms by (auto simp: iteration_order_def)
  then have "index_summary (set order) (foldl insert_peer_index hm_empty order)"
    and "index_summary (set order) (foldl insert_peer_index hm_empty order')"
    by (metis index_summary_fold)+
  then show ?thesis
    unfolding index_summary_def rebuild_peer_index_def
    by (auto intro: index_matches_functional)
qed

theorem rebuild_order_irrelevant_witness:
  "hm_get (by_peer (rebuild_peer_index [demo_flow_key 10, demo_flow_key 11]
      (mappings_insert (demo_flow_key 11) (demo_flow 123) (mappings_insert (demo_flow_key 10) (demo_flow 53) mappings_new)))) ik =
   hm_get (by_peer (rebuild_peer_index [demo_flow_key 11, demo_flow_key 10]
      (mappings_insert (demo_flow_key 11) (demo_flow 123) (mappings_insert (demo_flow_key 10) (demo_flow 53) mappings_new)))) ik"
  by (rule rebuild_order_irrelevant)
    (auto simp: demo_table_defs iteration_order_def hm_keys_def)

text \<open>C13: On its dual-stack listener the proxy learns the original destination of a datagram
  exactly when the router has one flow from that client port to that address, and then it is the
  destination that flow was redirected from.\<close>
theorem query_udp_dual_stack_iff:
  assumes "udp_table m" and "wire_ip d"
  shows "query_udp m (dual_stack_view d p) (SockV6 v6_unspecified lp 0 0) = Inr dst \<longleftrightarrow>
    (\<exists>s. {x \<in> flows m. index_key x = UdpIndexKey d p} = {UdpFlowKey d s p} \<and> flow_knows m d s p dst)"
proof
  have ok: "index_ok m" by (rule udp_table_index_ok [OF assms(1)])
  {
    assume "query_udp m (dual_stack_view d p) (SockV6 v6_unspecified lp 0 0) = Inr dst"
    then obtain s where "peer_knows m d s p dst"
      using query_udp_unspecified [OF ok, of "SockV6 v6_unspecified lp 0 0" "dual_stack_view d p" dst]
        normalize_dual_stack_view [OF assms(2), of p] by auto
    then show "\<exists>s. {x \<in> flows m. index_key x = UdpIndexKey d p} = {UdpFlowKey d s p} \<and> flow_knows m d s p dst"
      using index_ok_unique [OF ok] by (auto simp: peer_knows_def)
  next
    assume "\<exists>s. {x \<in> flows m. index_key x = UdpIndexKey d p} = {UdpFlowKey d s p} \<and> flow_knows m d s p dst"
    then obtain s where "peer_knows m d s p dst"
      using index_ok_unique [OF ok] by (auto simp: peer_knows_def)
    then show "query_udp m (dual_stack_view d p) (SockV6 v6_unspecified lp 0 0) = Inr dst"
      by (intro uq.query_known [OF checked_knows_flow _ _]) (simp_all add: assms(2) seen_unspecified_def)
  }
qed

theorem query_udp_dual_stack_iff_witness:
  "query_udp demo_table (dual_stack_view (V4 (Ipv4Addr 203 0 113 10)) 53000) (SockV6 v6_unspecified 10000 0 0)
     = Inr (V4 (Ipv4Addr 203 0 113 10), 53)"
  apply (subst query_udp_dual_stack_iff [OF udp_table_demo])
   apply simp
  apply (rule exI [of _ "V4 (Ipv4Addr 192 0 2 10)"])
  apply (auto simp: demo_table_defs flows_def flow_knows_def split: if_splits)
  done

end
