(* ===== verification/Filters.thy ===== *)
theory Filters
  imports Net
begin

text \<open>
  The static packet filters, \<open>src/src/router/filters.rs\<close>. The types of the driver's API that the
  code builds values of are kept as plain data: a filter says in which direction, on which
  network and transport conditions a packet passes without being handed to the router.
\<close>

section \<open>The driver's filter types\<close>

datatype direction_flag = PACKET_FLAG_ON_SEND | PACKET_FLAG_ON_RECEIVE

datatype layer_flag = NETWORK_LAYER_VALID | TRANSPORT_LAYER_VALID

datatype ip_filter_flag = IP_FILTER_PROTOCOL | IP_FILTER_SRC_ADDRESS | IP_FILTER_DEST_ADDRESS

datatype tcpudp_flag = TCPUDP_SRC_PORT | TCPUDP_DEST_PORT

datatype filter_action = FILTER_PACKET_PASS

datatype in_addr = InAddr u8 u8 u8 u8

datatype in6_addr = In6Addr bytes

datatype ip_address_v4 = AnyV4 | SubnetV4 in_addr in_addr

datatype ip_address_v6 = AnyV6 | SubnetV6 in6_addr in6_addr

datatype port_range = PortRange u16 u16

datatype network_filter =
    IpV4Filter "ip_filter_flag set" ip_address_v4 ip_address_v4 u8
  | IpV6Filter "ip_filter_flag set" ip_address_v6 ip_address_v6 u8

datatype transport_filter = AnyTransport | TcpUdpFilter "tcpudp_flag set" port_range port_range u8

text \<open>The \<open>Default\<close> instances the code uses.\<close>

instantiation ip_address_v4 :: default
begin
definition default_ip_address_v4 :: ip_address_v4 where
  "default_ip_address_v4 = AnyV4"
instance ..
end

instantiation ip_address_v6 :: default
begin
definition default_ip_address_v6 :: ip_address_v6 where
  "default_ip_address_v6 = AnyV6"
instance ..
end

instantiation port_range :: default
begin
definition default_port_range :: port_range where
  "default_port_range = PortRange 0 0"
instance ..
end

instantiation transport_filter :: default
begin
definition default_transport_filter :: transport_filter where
  "default_transport_filter = AnyTransport"
instance ..
end

record static_filter =
  sf_adapter :: nat
  sf_direction :: "direction_flag set"
  sf_action :: filter_action
  sf_valid :: "layer_flag set"
  sf_network :: network_filter
  sf_transport :: transport_filter

section \<open>Address conversions\<close>

fun ipv4_to_in_addr :: "ipv4_addr \<Rightarrow> in_addr" where
  "ipv4_to_in_addr (Ipv4Addr b1 b2 b3 b4) = InAddr b1 b2 b3 b4"

definition ipv6_to_in6_addr :: "ipv6_addr \<Rightarrow> in6_addr" where
  "ipv6_to_in6_addr i = In6Addr (v6_octets i)"

definition ipv4_subnet_filter :: "ipv4_addr \<Rightarrow> ipv4_addr \<Rightarrow> ip_address_v4" where
  "ipv4_subnet_filter i netmask = SubnetV4 (ipv4_to_in_addr i) (ipv4_to_in_addr netmask)"

definition ipv6_subnet_filter :: "ipv6_addr \<Rightarrow> ipv6_addr \<Rightarrow> ip_address_v6" where
  "ipv6_subnet_filter i netmask = SubnetV6 (ipv6_to_in6_addr i) (ipv6_to_in6_addr netmask)"

section \<open>The filters of the program\<close>

definition IPPROTO_ICMP :: u8 where
  "IPPROTO_ICMP = 1"

definition IPPROTO_TCP :: u8 where
  "IPPROTO_TCP = 6"

definition IPPROTO_UDP :: u8 where
  "IPPROTO_UDP = 17"

definition build_icmp_pass_filter :: static_filter where
  "build_icmp_pass_filter =
     \<lparr>sf_adapter = 0, sf_direction = {PACKET_FLAG_ON_RECEIVE, PACKET_FLAG_ON_SEND},
      sf_action = FILTER_PACKET_PASS, sf_valid = {NETWORK_LAYER_VALID},
      sf_network = IpV4Filter {IP_FILTER_PROTOCOL} default default IPPROTO_ICMP,
      sf_transport = default\<rparr>"

definition port_conditions :: "bool \<Rightarrow> u16 \<Rightarrow> transport_filter" where
  "port_conditions match_src_port port =
     (let r = PortRange port port in
      if match_src_port then TcpUdpFilter {TCPUDP_SRC_PORT} r default 0
      else TcpUdpFilter {TCPUDP_DEST_PORT} default r 0)"

definition build_proxy_pass_filter ::
    "direction_flag set \<Rightarrow> ip_address_v4 \<Rightarrow> u8 \<Rightarrow> bool \<Rightarrow> u16 \<Rightarrow> static_filter" where
  "build_proxy_pass_filter direction dest protocol match_src_port port =
     \<lparr>sf_adapter = 0, sf_direction = direction, sf_action = FILTER_PACKET_PASS,
      sf_valid = {NETWORK_LAYER_VALID, TRANSPORT_LAYER_VALID},
      sf_network = IpV4Filter {IP_FILTER_PROTOCOL, IP_FILTER_DEST_ADDRESS} default dest protocol,
      sf_transport = port_conditions match_src_port port\<rparr>"

definition build_proxy_pass_filter_v6 ::
    "direction_flag set \<Rightarrow> ip_address_v6 \<Rightarrow> u8 \<Rightarrow> bool \<Rightarrow> u16 \<Rightarrow> static_filter" where
  "build_proxy_pass_filter_v6 direction dest protocol match_src_port port =
     \<lparr>sf_adapter = 0, sf_direction = direction, sf_action = FILTER_PACKET_PASS,
      sf_valid = {NETWORK_LAYER_VALID, TRANSPORT_LAYER_VALID},
      sf_network = IpV6Filter {IP_FILTER_PROTOCOL, IP_FILTER_DEST_ADDRESS} default dest protocol,
      sf_transport = port_conditions match_src_port port\<rparr>"

definition build_proxy_pass_filters_common ::
    "'t \<Rightarrow> u16 \<Rightarrow> (direction_flag set \<Rightarrow> 't \<Rightarrow> u8 \<Rightarrow> bool \<Rightarrow> u16 \<Rightarrow> static_filter) \<Rightarrow> static_filter list" where
  "build_proxy_pass_filters_common dest port build =
     (let tcp_out = build {PACKET_FLAG_ON_SEND} dest IPPROTO_TCP False port;
          tcp_in = build {PACKET_FLAG_ON_RECEIVE} dest IPPROTO_TCP True port;
          udp_out = build {PACKET_FLAG_ON_SEND} dest IPPROTO_UDP False port;
          udp_in = build {PACKET_FLAG_ON_RECEIVE} dest IPPROTO_UDP True port
      in [tcp_out, tcp_in, udp_out, udp_in])"

definition build_proxy_pass_filters :: "ipv4_addr \<Rightarrow> u16 \<Rightarrow> static_filter list" where
  "build_proxy_pass_filters i port =
     build_proxy_pass_filters_common (ipv4_subnet_filter i (Ipv4Addr 255 255 255 255)) port
       build_proxy_pass_filter"

definition build_proxy_pass_filters_v6 :: "ipv6_addr \<Rightarrow> u16 \<Rightarrow> static_filter list" where
  "build_proxy_pass_filters_v6 i port =
     build_proxy_pass_filters_common
       (ipv6_subnet_filter i (Ipv6Addr 0xFFFF 0xFFFF 0xFFFF 0xFFFF 0xFFFF 0xFFFF 0xFFFF 0xFFFF)) port
       build_proxy_pass_filter_v6"

lemma length_build_proxy_pass_filters [simp]:
  "length (build_proxy_pass_filters i port) = 4"
  "length (build_proxy_pass_filters_v6 j port) = 4"
  by (simp_all add: build_proxy_pass_filters_def build_proxy_pass_filters_v6_def
      build_proxy_pass_filters_common_def)

section \<open>What the filters let pass\<close>










end
