(* ===== verification/Router.thy ===== *)
theory Router
  imports Mappings Filters
begin

text \<open>
  The router object, \<open>src/src/router/mod.rs\<close>, with the choice of the adapter from
  \<open>src/src/router/adapter.rs\<close>: its state, its configuration (proxies, process names, static
  filters), its life cycle (start, stop, close), and the notification callback. Locks are held
  for single operations only and disappear in the state passing. The packet filter driver and
  the IP helper API are the fields of \<open>driver_env\<close>; the table installed in the driver is kept
  in the state, so that what the calls leave behind can be stated.
\<close>

section \<open>Errors and the environment\<close>

text \<open>\<open>anyhow::Error\<close>: a message, an I/O error or a driver error, with the contexts added on the way.\<close>

datatype router_error =
    Msg string
  | FromIo io_error
  | DriverError nat
  | Context string router_error

type_synonym 'a router_result = "router_error + 'a"

definition with_context :: "string \<Rightarrow> router_error + 'a \<Rightarrow> router_error + 'a" where
  "with_context c r = (case r of Inl e \<Rightarrow> Inl (Context c e) | Inr a \<Rightarrow> Inr a)"

lemma with_context_simps [simp]:
  "with_context c (Inl e) = Inl (Context c e)"
  "with_context c (Inr a) = Inr a"
  "with_context c r = Inr a \<longleftrightarrow> r = Inr a"
  by (cases r; simp add: with_context_def)+

text \<open>One call to the driver either succeeds or fails with a code.\<close>

definition driver_call :: "nat option \<Rightarrow> unit router_result" where
  "driver_call r = (case r of None \<Rightarrow> Inr () | Some code \<Rightarrow> Inl (DriverError code))"

lemma driver_call_simps [simp]:
  "driver_call None = Inr ()"
  "driver_call (Some c) = Inl (DriverError c)"
  by (simp_all add: driver_call_def)

record adapter_info =
  ad_name :: string
  ad_hw_address :: bytes
  ad_handle :: nat

record driver_env =
  drv_open :: "nat option"
  drv_set_table :: "nat option"
  drv_reset_table :: "nat option"
  drv_adapters :: "adapter_info list router_result"
  drv_best_interface :: "nat + u32"
  drv_connections :: "(bytes \<times> u32) list"
  drv_notify :: "nat + nat"

section \<open>Choosing the adapter\<close>

text \<open>
  \<open>MacAddress::from_slice\<close> accepts exactly six bytes. \<open>GetBestInterface\<close> is asked for the
  route to 8.8.8.8 and answers with an index unless it fails.
\<close>

definition mac_from_slice :: "bytes \<Rightarrow> bytes option" where
  "mac_from_slice bs = (if length bs = 6 then Some bs else None)"

definition get_best_interface_index :: "driver_env \<Rightarrow> u32 option" where
  "get_best_interface_index env = (case drv_best_interface env of Inl _ \<Rightarrow> None | Inr i \<Rightarrow> Some i)"

definition mac_to_index :: "driver_env \<Rightarrow> (bytes, u32) hash_map" where
  "mac_to_index env = foldl (\<lambda>m (mac, i). hm_insert mac i m) hm_empty (drv_connections env)"

definition is_best_adapter :: "driver_env \<Rightarrow> u32 \<Rightarrow> adapter_info \<Rightarrow> bool" where
  "is_best_adapter env index a =
     (case Option.bind (mac_from_slice (ad_hw_address a)) (hm_get (mac_to_index env)) of
        None \<Rightarrow> False
      | Some if_index \<Rightarrow> if_index = index)"

definition select_best_adapter_name :: "driver_env \<Rightarrow> string router_result" where
  "select_best_adapter_name env =
     rbind (drv_adapters env) (\<lambda>adapters.
       case adapters of
         [] \<Rightarrow> Inl (Msg ''no network adapters found'')
       | first # _ \<Rightarrow>
           (case get_best_interface_index env of
              None \<Rightarrow> Inr (ad_name first)
            | Some index \<Rightarrow>
                (case find (is_best_adapter env index) adapters of
                   Some a \<Rightarrow> Inr (ad_name a)
                 | None \<Rightarrow> Inr (ad_name first))))"

definition find_adapter_handle :: "driver_env \<Rightarrow> string \<Rightarrow> nat router_result" where
  "find_adapter_handle env name =
     rbind (drv_adapters env) (\<lambda>adapters.
       case find (\<lambda>a. ad_name a = name) adapters of
         Some a \<Rightarrow> Inr (ad_handle a)
       | None \<Rightarrow> Inl (Msg (''adapter not found: '' @ name)))"

section \<open>The state\<close>

definition MAX_STATIC_FILTERS :: nat where
  "MAX_STATIC_FILTERS = 256"

text \<open>
  \<open>'l\<close> is the state of the process lookup. \<open>driver_table\<close> is the filter table in the driver
  (none before the first call), \<open>raw_refs\<close> the number of references to the router that were
  turned into raw pointers and not taken back, \<open>packet_task\<close> whether the packet task is held.
\<close>

record 'l router =
  adapter_name :: string
  process_lookup :: 'l
  tcp_connections :: tcp_table
  udp_endpoints :: udp_mappings
  proxies :: "transparent_proxy list"
  name_to_proxy :: "(string, nat) hash_map"
  static_filters :: "static_filter list"
  shutdown :: bool
  restart :: bool
  is_active :: bool
  packet_task :: bool
  notify_handle :: "nat option"
  notify_context :: bool
  bytes_sent :: u64
  bytes_received :: u64
  start_time :: instant
  driver_table :: "static_filter list option"
  raw_refs :: nat

definition router_new :: "driver_env \<Rightarrow> 'l \<Rightarrow> instant \<Rightarrow> 'l router router_result" where
  "router_new env lookup now =
     rbind (select_best_adapter_name env) (\<lambda>name.
       Inr \<lparr>adapter_name = name, process_lookup = lookup, tcp_connections = hm_empty,
            udp_endpoints = mappings_new, proxies = [], name_to_proxy = hm_empty,
            static_filters = [build_icmp_pass_filter], shutdown = False, restart = False,
            is_active = False, packet_task = False, notify_handle = None, notify_context = False,
            bytes_sent = 0, bytes_received = 0, start_time = now, driver_table = None, raw_refs = 0\<rparr>)"

section \<open>Static filters\<close>

definition reset_static_filters :: "driver_env \<Rightarrow> 'l router \<Rightarrow> unit router_result \<times> 'l router" where
  "reset_static_filters env r =
     (case with_context ''failed to open NDIS driver'' (driver_call (drv_open env)) of
        Inl e \<Rightarrow> (Inl e, r)
      | Inr _ \<Rightarrow>
          (case with_context ''failed to reset static filter table'' (driver_call (drv_reset_table env)) of
             Inl e \<Rightarrow> (Inl e, r)
           | Inr _ \<Rightarrow> (Inr (), r\<lparr>driver_table := None\<rparr>)))"

definition apply_static_filters :: "driver_env \<Rightarrow> 'l router \<Rightarrow> unit router_result \<times> 'l router" where
  "apply_static_filters env r =
     (let filters = static_filters r in
      if filters = [] then reset_static_filters env r
      else if MAX_STATIC_FILTERS < length filters then
        (Inl (Msg (''too many static filters: '' @ show_nat (length filters) @ '' (max 256)'')), r)
      else
        (case with_context ''failed to open NDIS driver'' (driver_call (drv_open env)) of
           Inl e \<Rightarrow> (Inl e, r)
         | Inr _ \<Rightarrow>
             (case with_context ''failed to set static filter table'' (driver_call (drv_set_table env)) of
                Inl e \<Rightarrow> (Inl e, r)
              | Inr _ \<Rightarrow> (Inr (), r\<lparr>driver_table := Some filters\<rparr>))))"

section \<open>Configuration\<close>

definition proxy_filters :: "socket_addr \<Rightarrow> static_filter list" where
  "proxy_filters addr =
     (case sa_ip addr of
        V4 i \<Rightarrow> build_proxy_pass_filters i (sa_port addr)
      | V6 i \<Rightarrow> build_proxy_pass_filters_v6 i (sa_port addr))"

text \<open>
  The filters and the proxy are added before the filters are applied, so a failure of the last
  step leaves both in place.
\<close>

definition add_socks5_proxy ::
    "net_env \<Rightarrow> driver_env \<Rightarrow> string \<Rightarrow> 'l router \<Rightarrow> nat router_result \<times> 'l router" where
  "add_socks5_proxy net env endpoint r =
     (case dialer_new net endpoint of
        Inl e \<Rightarrow> (Inl (Context (''failed to parse SOCKS5 endpoint: '' @ endpoint) (FromIo e)), r)
      | Inr dialer \<Rightarrow>
          let r = r\<lparr>static_filters := static_filters r @ proxy_filters (proxy_addr dialer)\<rparr>;
              r = r\<lparr>proxies := proxies r @ [transparent_proxy_new 0 dialer]\<rparr> in
          (case apply_static_filters env r of
             (Inl e, r) \<Rightarrow> (Inl e, r)
           | (Inr _, r) \<Rightarrow> (Inr (length (proxies r) - 1), r)))"

definition associate_process_name_to_proxy ::
    "string \<Rightarrow> nat \<Rightarrow> 'l router \<Rightarrow> unit router_result \<times> 'l router" where
  "associate_process_name_to_proxy process_name proxy_id r =
     (if length (proxies r) \<le> proxy_id then (Inl (Msg ''proxy index is out of range''), r)
      else (Inr (), r\<lparr>name_to_proxy := hm_insert process_name proxy_id (name_to_proxy r)\<rparr>))"

section \<open>Life cycle\<close>

text \<open>\<open>NotifyIpInterfaceChange\<close> takes a reference to the router as a raw pointer.\<close>

definition register_interface_change_notifications :: "driver_env \<Rightarrow> 'l router \<Rightarrow> 'l router" where
  "register_interface_change_notifications env r =
     (if notify_handle r \<noteq> None then r
      else
        let r = r\<lparr>raw_refs := raw_refs r + 1\<rparr> in
        (case drv_notify env of
           Inl status \<Rightarrow> r\<lparr>raw_refs := raw_refs r - 1\<rparr>
         | Inr handle \<Rightarrow> r\<lparr>notify_handle := Some handle, notify_context := True\<rparr>))"

definition cancel_interface_change_notifications :: "'l router \<Rightarrow> 'l router" where
  "cancel_interface_change_notifications r =
     (let r = r\<lparr>notify_handle := None\<rparr> in
      if notify_context r then r\<lparr>notify_context := False, raw_refs := raw_refs r - 1\<rparr> else r)"

fun start_proxies ::
    "(nat \<Rightarrow> socket_os) \<Rightarrow> nat \<Rightarrow> transparent_proxy list \<Rightarrow> unit io_result \<times> transparent_proxy list" where
  "start_proxies os i [] = (Inr (), [])"
| "start_proxies os i (p # ps) =
     (case proxy_start (os i) p of
        (Inl e, p') \<Rightarrow> (Inl e, p' # ps)
      | (Inr _, p') \<Rightarrow> (let (res, ps') = start_proxies os (i + 1) ps in (res, p' # ps')))"

definition router_start ::
    "driver_env \<Rightarrow> (nat \<Rightarrow> socket_os) \<Rightarrow> 'l router \<Rightarrow> unit router_result \<times> 'l router" where
  "router_start env os r =
     (if shutdown r then (Inl (Msg ''router already stopped''), r)
      else if is_active r then (Inl (Msg ''router already active''), r)
      else
        let r = r\<lparr>is_active := True\<rparr> in
        (case apply_static_filters env r of
           (Inl e, r) \<Rightarrow> (Inl e, r\<lparr>is_active := False\<rparr>)
         | (Inr _, r) \<Rightarrow>
             (case start_proxies os 0 (proxies r) of
                (Inl e, ps) \<Rightarrow> (Inl (FromIo e), r\<lparr>proxies := ps, is_active := False\<rparr>)
              | (Inr _, ps) \<Rightarrow>
                  (Inr (), register_interface_change_notifications env
                             (r\<lparr>proxies := ps, packet_task := True\<rparr>)))))"

text \<open>
  \<open>stop\<close> awaits the packet task and the tasks of every proxy; this is the state once they have
  all ended.
\<close>

definition router_stop :: "'l router \<Rightarrow> unit router_result \<times> 'l router" where
  "router_stop r =
     (if \<not> is_active r then (Inl (Msg ''router already stopped''), r)
      else
        let r = cancel_interface_change_notifications
                  (r\<lparr>is_active := False, shutdown := True, restart := False\<rparr>)
        in (Inr (), r\<lparr>packet_task := False, proxies := map proxy_stopped (proxies r)\<rparr>))"

definition router_close :: "driver_env \<Rightarrow> 'l router \<Rightarrow> unit router_result \<times> 'l router" where
  "router_close env r =
     (case router_stop r of
        (Inl e, r) \<Rightarrow> (Inl e, r)
      | (Inr _, r) \<Rightarrow> reset_static_filters env r)"

definition refresh_adapter_name :: "driver_env \<Rightarrow> 'l router \<Rightarrow> bool router_result \<times> 'l router" where
  "refresh_adapter_name env r =
     (case with_context ''failed to open NDIS driver'' (driver_call (drv_open env)) of
        Inl e \<Rightarrow> (Inl e, r)
      | Inr _ \<Rightarrow>
          (case select_best_adapter_name env of
             Inl e \<Rightarrow> (Inl e, r)
           | Inr new_name \<Rightarrow>
               if adapter_name r \<noteq> new_name then (Inr True, r\<lparr>adapter_name := new_name\<rparr>)
               else (Inr False, r)))"

text \<open>The notification callback; its context pointer is null or the router.\<close>

definition ip_interface_changed_callback :: "driver_env \<Rightarrow> bool \<Rightarrow> 'l router \<Rightarrow> 'l router" where
  "ip_interface_changed_callback env context_is_null r =
     (if context_is_null then r
      else case refresh_adapter_name env r of
             (Inr True, r) \<Rightarrow> r\<lparr>restart := True\<rparr>
           | (Inr False, r) \<Rightarrow> r
           | (Inl e, r) \<Rightarrow> r)"

section \<open>Read access\<close>

definition get_tcp_connection_count :: "'l router \<Rightarrow> nat" where
  "get_tcp_connection_count r = hm_len (tcp_connections r)"

definition get_udp_connection_count :: "'l router \<Rightarrow> nat" where
  "get_udp_connection_count r = hm_len (by_flow (udp_endpoints r))"

definition get_bytes_sent :: "'l router \<Rightarrow> u64" where
  "get_bytes_sent r = bytes_sent r"

definition get_bytes_received :: "'l router \<Rightarrow> u64" where
  "get_bytes_received r = bytes_received r"

definition get_running_time :: "instant \<Rightarrow> 'l router \<Rightarrow> duration" where
  "get_running_time now r = duration_since now (start_time r)"

section \<open>Frames\<close>

lemma apply_frame:
  assumes "apply_static_filters env r = (res, r')"
  shows "r' = r\<lparr>driver_table := driver_table r'\<rparr>"
  using assms
  by (auto simp: apply_static_filters_def reset_static_filters_def Let_def split: sum.splits if_splits)

lemma apply_Inr:
  assumes "apply_static_filters env r = (Inr u, r')" and "static_filters r \<noteq> []"
  shows "r' = r\<lparr>driver_table := Some (static_filters r)\<rparr> \<and> length (static_filters r) \<le> MAX_STATIC_FILTERS"
  using assms by (auto simp: apply_static_filters_def Let_def split: sum.splits if_splits)

lemma reset_frame:
  assumes "reset_static_filters env r = (res, r')"
  shows "r' = r\<lparr>driver_table := driver_table r'\<rparr>"
  using assms by (auto simp: reset_static_filters_def split: sum.splits)

lemma length_start_proxies:
  "start_proxies os i ps = (res, ps') \<Longrightarrow> length ps' = length ps"
  by (induction ps arbitrary: i res ps') (auto split: prod.splits sum.splits)

lemma length_proxy_filters [simp]: "length (proxy_filters a) = 4"
  by (cases "sa_ip a") (simp_all add: proxy_filters_def)

section \<open>The invariant of the router\<close>

text \<open>
  The configuration fits together (four filters per proxy behind the ICMP filter, names only for
  proxies that exist), a stopped router is not active, and the notification holds exactly one
  reference to the router, only while it is active.
\<close>

definition config_ok :: "'l router \<Rightarrow> bool" where
  "config_ok r \<longleftrightarrow> length (static_filters r) = 1 + 4 * length (proxies r) \<and>
     hm_wf (name_to_proxy r) \<and>
     (\<forall>n i. hm_get (name_to_proxy r) n = Some i \<longrightarrow> i < length (proxies r))"

definition lifecycle_ok :: "'l router \<Rightarrow> bool" where
  "lifecycle_ok r \<longleftrightarrow> (is_active r \<longrightarrow> \<not> shutdown r) \<and> (packet_task r \<longrightarrow> is_active r) \<and>
     (notify_handle r \<noteq> None \<longleftrightarrow> notify_context r) \<and> (notify_context r \<longrightarrow> is_active r) \<and>
     raw_refs r = (if notify_context r then 1 else 0)"

definition router_inv :: "'l router \<Rightarrow> bool" where
  "router_inv r \<longleftrightarrow> config_ok r \<and> lifecycle_ok r"

lemmas router_inv_defs = router_inv_def config_ok_def lifecycle_ok_def

lemma router_inv_table [simp]: "router_inv (r\<lparr>driver_table := t\<rparr>) \<longleftrightarrow> router_inv r"
  by (simp add: router_inv_defs)

lemma router_inv_new: "router_new env l now = Inr r \<Longrightarrow> router_inv r"
  by (auto simp: router_new_def rbind_Inr_iff router_inv_defs hm_simps)

lemma router_inv_add:
  assumes "router_inv r"
  shows "router_inv (snd (add_socks5_proxy net env ep r))"
proof (cases "dialer_new net ep")
  case (Inl e)
  with assms show ?thesis by (simp add: add_socks5_proxy_def)
next
  case (Inr d)
  let ?r = "r\<lparr>static_filters := static_filters r @ proxy_filters (proxy_addr d),
              proxies := proxies r @ [transparent_proxy_new 0 d]\<rparr>"
  have "router_inv ?r"
    using assms by (auto simp: router_inv_defs less_SucI)
  moreover obtain res r' where a: "apply_static_filters env ?r = (res, r')" by force
  ultimately have "router_inv r'" using apply_frame [OF a] router_inv_table by metis
  with Inr a show ?thesis by (cases res) (simp_all add: add_socks5_proxy_def Let_def)
qed

lemma router_inv_associate: "router_inv r \<Longrightarrow> router_inv (snd (associate_process_name_to_proxy n i r))"
  by (auto simp: associate_process_name_to_proxy_def router_inv_defs hm.wf_ins hm.get_ins)

lemma router_inv_register:
  assumes "config_ok r" "lifecycle_ok r" "is_active r"
  shows "router_inv (register_interface_change_notifications env r)"
  using assms
  by (auto simp: register_interface_change_notifications_def router_inv_defs Let_def split: sum.split)

lemma router_inv_start:
  assumes "router_inv r"
  shows "router_inv (snd (router_start env os r))"
proof (cases "shutdown r \<or> is_active r")
  case True
  with assms show ?thesis by (auto simp: router_start_def)
next
  case False
  then have idle: "\<not> shutdown r" "\<not> is_active r" "\<not> packet_task r" "\<not> notify_context r"
      "notify_handle r = None" "raw_refs r = 0"
    using assms by (auto simp: router_inv_def lifecycle_ok_def)
  obtain res r' where a: "apply_static_filters env (r\<lparr>is_active := True\<rparr>) = (res, r')" by force
  note r' = apply_frame [OF a]
  show ?thesis
  proof (cases res)
    case (Inl e)
    have "snd (router_start env os r) = r\<lparr>driver_table := driver_table r'\<rparr>"
      using False Inl a idle by (simp add: router_start_def Let_def) (subst r', simp)
    with assms show ?thesis by simp
  next
    case (Inr u)
    obtain res2 ps where s: "start_proxies os 0 (proxies r') = (res2, ps)" by force
    have px: "proxies r' = proxies r" by (subst r') simp
    have len: "length ps = length (proxies r)" using length_start_proxies [OF s] px by simp
    let ?q = "r\<lparr>driver_table := driver_table r', is_active := True, proxies := ps, packet_task := True\<rparr>"
    have cfg: "config_ok ?q" "config_ok (r\<lparr>driver_table := driver_table r', proxies := ps\<rparr>)"
      using assms len by (auto simp: router_inv_def config_ok_def)
    have life: "lifecycle_ok ?q" using idle by (simp add: lifecycle_ok_def)
    have q: "r'\<lparr>proxies := ps, packet_task := True\<rparr> = ?q"
      and q2: "r'\<lparr>proxies := ps, is_active := False\<rparr> = r\<lparr>driver_table := driver_table r', proxies := ps\<rparr>"
      using idle by (subst r', simp)+
    show ?thesis
    proof (cases res2)
      case (Inl e)
      have "snd (router_start env os r) = r\<lparr>driver_table := driver_table r', proxies := ps\<rparr>"
        using False Inr Inl a s q2 by (simp add: router_start_def Let_def)
      then show ?thesis
        using cfg(2) idle by (simp add: router_inv_def lifecycle_ok_def)
    next
      case (Inr v)
      have "snd (router_start env os r) = register_interface_change_notifications env ?q"
        using False \<open>res = Inr u\<close> Inr a s q by (simp add: router_start_def Let_def)
      then show ?thesis using router_inv_register [OF cfg(1) life] by simp
    qed
  qed
qed

lemma router_inv_stop: "router_inv r \<Longrightarrow> router_inv (snd (router_stop r))"
  by (auto simp: router_stop_def cancel_interface_change_notifications_def router_inv_defs Let_def)

lemma router_inv_close:
  assumes "router_inv r"
  shows "router_inv (snd (router_close env r))"
proof -
  obtain res r' where s: "router_stop r = (res, r')" by force
  with router_inv_stop [OF assms] have inv: "router_inv r'" by simp
  obtain res2 r2 where z: "reset_static_filters env r' = (res2, r2)" by force
  from reset_frame [OF z] inv have "router_inv r2" by (metis router_inv_table)
  with s z inv show ?thesis by (cases res) (simp_all add: router_close_def)
qed

lemma router_inv_callback: "router_inv r \<Longrightarrow> router_inv (ip_interface_changed_callback env isnull r)"
  by (auto simp: ip_interface_changed_callback_def refresh_adapter_name_def router_inv_defs
      split: sum.splits)

inductive router_step :: "'l router \<Rightarrow> 'l router \<Rightarrow> bool" where
  add: "router_step r (snd (add_socks5_proxy net env ep r))"
| assoc: "router_step r (snd (associate_process_name_to_proxy n i r))"
| start: "router_step r (snd (router_start env os r))"
| stop: "router_step r (snd (router_stop r))"
| close: "router_step r (snd (router_close env r))"
| notified: "is_active r \<Longrightarrow> router_step r (ip_interface_changed_callback env isnull r)"

inductive router_reachable :: "'l router \<Rightarrow> bool" where
  new: "router_new env l now = Inr r \<Longrightarrow> router_reachable r"
| step: "router_reachable r \<Longrightarrow> router_step r r' \<Longrightarrow> router_reachable r'"

lemmas router_inv_ops = router_inv_add router_inv_associate router_inv_start router_inv_stop
  router_inv_close router_inv_callback

lemma router_step_inv: "router_step r r' \<Longrightarrow> router_inv r \<Longrightarrow> router_inv r'"
  by (induction rule: router_step.induct) (simp_all add: router_inv_ops)

lemma router_reachable_inv: "router_reachable r \<Longrightarrow> router_inv r"
  by (induction rule: router_reachable.induct) (auto intro: router_inv_new router_step_inv)

section \<open>Correctness of configuration and life cycle\<close>

definition demo_driver :: driver_env where
  "demo_driver = \<lparr>drv_open = None, drv_set_table = None, drv_reset_table = None,
     drv_adapters = Inr [\<lparr>ad_name = ''eth0'', ad_hw_address = [2, 0, 0, 0, 0, 1], ad_handle = 7\<rparr>,
                         \<lparr>ad_name = ''eth1'', ad_hw_address = [2, 0, 0, 0, 0, 2], ad_handle = 8\<rparr>],
     drv_best_interface = Inr 12, drv_connections = [([2, 0, 0, 0, 0, 1], 11), ([2, 0, 0, 0, 0, 2], 12)],
     drv_notify = Inr 99\<rparr>"

definition demo_endpoint :: string where
  "demo_endpoint = show_ipv4 (Ipv4Addr 127 0 0 1) @ '':'' @ show_nat (unat (1080::u16))"

definition demo_plain_dialer :: socks5_dialer where
  "demo_plain_dialer = \<lparr>proxy_addr = SockV4 (Ipv4Addr 127 0 0 1) 1080, auth = None,
     prefer_ipv4_mapped_ipv6 = False\<rparr>"

lemma dialer_new_demo: "dialer_new env demo_endpoint = Inr demo_plain_dialer"
  unfolding demo_endpoint_def demo_plain_dialer_def by (rule dialer_new_plain) simp

definition demo_router :: "unit router" where
  "demo_router = \<lparr>adapter_name = ''eth1'', process_lookup = (), tcp_connections = hm_empty,
     udp_endpoints = mappings_new, proxies = [], name_to_proxy = hm_empty,
     static_filters = [build_icmp_pass_filter], shutdown = False, restart = False,
     is_active = False, packet_task = False, notify_handle = None, notify_context = False,
     bytes_sent = 0, bytes_received = 0, start_time = 0, driver_table = None, raw_refs = 0\<rparr>"

lemma demo_adapter: "select_best_adapter_name demo_driver = Inr ''eth1''"
  by (simp add: select_best_adapter_name_def demo_driver_def get_best_interface_index_def
      is_best_adapter_def mac_from_slice_def mac_to_index_def hm.get_ins hm.get_empty)

lemma router_new_demo: "router_new demo_driver () 0 = Inr demo_router"
  by (simp add: router_new_def demo_adapter demo_router_def)

lemma reachable_demo_router: "router_reachable demo_router"
  by (rule router_reachable.new [OF router_new_demo])

definition demo_configured :: "unit router" where
  "demo_configured = snd (add_socks5_proxy demo_env demo_driver demo_endpoint demo_router)"

lemma demo_add: "add_socks5_proxy demo_env demo_driver demo_endpoint demo_router = (Inr 0, demo_configured)"
  by (simp add: demo_configured_def add_socks5_proxy_def dialer_new_demo Let_def apply_static_filters_def
      MAX_STATIC_FILTERS_def demo_driver_def demo_router_def)

lemma reachable_demo_configured: "router_reachable demo_configured"
  unfolding demo_configured_def by (rule router_reachable.step [OF reachable_demo_router router_step.add])

text \<open>C26: Adding a proxy succeeds only with the whole filter list installed in the driver, and
  that list never exceeds the table: at most 63 proxies can be configured, and the identifier
  returned is the new proxy's position.\<close>
theorem add_proxy_capacity:
  assumes "router_reachable r" and "add_socks5_proxy net env ep r = (Inr n, r')"
  shows "n = length (proxies r) \<and> n < 63 \<and> driver_table r' = Some (static_filters r') \<and>
    length (static_filters r') = 1 + 4 * length (proxies r') \<and> length (proxies r') = n + 1"
proof -
  from assms(2) obtain d where d: "dialer_new net ep = Inr d"
    by (auto simp: add_socks5_proxy_def split: sum.splits)
  let ?r = "r\<lparr>static_filters := static_filters r @ proxy_filters (proxy_addr d),
              proxies := proxies r @ [transparent_proxy_new 0 d]\<rparr>"
  from assms(2) d have a: "apply_static_filters env ?r = (Inr (), r')" and n: "n = length (proxies r') - 1"
    by (auto simp: add_socks5_proxy_def Let_def split: prod.splits sum.splits)
  have "proxy_filters (proxy_addr d) \<noteq> []"
    using length_proxy_filters [of "proxy_addr d"] by (metis list.size(3) zero_neq_numeral)
  then have ne: "static_filters ?r \<noteq> []" by simp
  from apply_Inr [OF a ne] have r': "r' = ?r\<lparr>driver_table := Some (static_filters ?r)\<rparr>"
    and le: "length (static_filters ?r) \<le> 256"
    by (auto simp: MAX_STATIC_FILTERS_def)
  have cfg: "length (static_filters r) = 1 + 4 * length (proxies r)"
    using router_reachable_inv [OF assms(1)] by (simp add: router_inv_def config_ok_def)
  show ?thesis using n le cfg by (simp add: r')
qed

theorem add_proxy_capacity_witness:
  "driver_table demo_configured = Some (static_filters demo_configured) \<and>
   length (proxies demo_configured) = 1"
  using add_proxy_capacity [OF reachable_demo_router demo_add] by simp

text \<open>C21: In every reachable state the configuration is consistent: four filters for each proxy
  behind the ICMP filter, process names mapped only to proxies that exist, no router both active
  and shut down, and exactly one raw reference held by the notification while it is registered,
  which is only while the router is active.\<close>
theorem router_invariant:
  assumes "router_reachable r"
  shows "length (static_filters r) = 1 + 4 * length (proxies r) \<and>
    (hm_get (name_to_proxy r) name = Some i \<longrightarrow> i < length (proxies r)) \<and>
    \<not> (is_active r \<and> shutdown r) \<and>
    raw_refs r = (if notify_context r then 1 else 0) \<and> (notify_context r \<longrightarrow> is_active r)"
  using router_reachable_inv [OF assms] by (simp add: router_inv_defs)

theorem router_invariant_witness:
  "length (static_filters demo_configured) = 1 + 4 * length (proxies demo_configured)"
  using router_invariant [OF reachable_demo_configured] by blast

lemma shutdown_apply: "shutdown (snd (apply_static_filters env r)) = shutdown r"
  by (simp add: apply_static_filters_def reset_static_filters_def Let_def split: sum.split)

lemma shutdown_add: "shutdown (snd (add_socks5_proxy net env ep r)) = shutdown r"
proof (cases "dialer_new net ep")
  case (Inr d)
  let ?r = "r\<lparr>static_filters := static_filters r @ proxy_filters (proxy_addr d),
              proxies := proxies r @ [transparent_proxy_new 0 d]\<rparr>"
  obtain res r' where a: "apply_static_filters env ?r = (res, r')" by force
  then have "shutdown r' = shutdown r" using shutdown_apply [of env ?r] by simp
  with Inr a show ?thesis by (cases res) (simp_all add: add_socks5_proxy_def Let_def)
qed (simp add: add_socks5_proxy_def)

lemma shutdown_step: "router_step r r' \<Longrightarrow> shutdown r \<Longrightarrow> shutdown r'"
  by (induction rule: router_step.induct)
    (auto simp: shutdown_add associate_process_name_to_proxy_def router_start_def router_stop_def
      router_close_def cancel_interface_change_notifications_def reset_static_filters_def Let_def
      ip_interface_changed_callback_def refresh_adapter_name_def split: sum.splits)

lemma shutdown_steps: "router_step\<^sup>*\<^sup>* r r' \<Longrightarrow> shutdown r \<Longrightarrow> shutdown r'"
  by (induction rule: rtranclp_induct) (auto intro: shutdown_step)

text \<open>C28: Stopping is final: whatever is done with a router after a successful \<open>stop\<close>, starting it
  again fails and changes nothing.\<close>
theorem stop_is_final:
  assumes "router_stop r = (Inr (), s)" and "router_step\<^sup>*\<^sup>* s t"
  shows "router_start env os t = (Inl (Msg ''router already stopped''), t)"
proof -
  from assms(1) have "shutdown s"
    by (auto simp: router_stop_def cancel_interface_change_notifications_def Let_def split: if_splits)
  from shutdown_steps [OF assms(2) this] show ?thesis by (simp add: router_start_def)
qed


theorem stop_is_final_witness:
  "\<exists>s. router_stop (demo_router\<lparr>is_active := True\<rparr>) = (Inr (), s) \<and>
     router_start demo_driver (\<lambda>_. demo_os) s = (Inl (Msg ''router already stopped''), s)"
proof -
  obtain s where s: "router_stop (demo_router\<lparr>is_active := True\<rparr>) = (Inr (), s)"
    by (simp add: router_stop_def Let_def)
  from stop_is_final [OF s rtranclp.rtrancl_refl] s show ?thesis by blast
qed





text \<open>
  When the second proxy fails to start, the first one keeps running: its tasks are held, the
  router is not active, and \<open>stop\<close> and \<open>close\<close> refuse to end them.
\<close>

lemma start_failure_leaves_proxy:
  assumes "proxy_start (os 0) p = (Inr (), p')" and "proxy_start (os 1) q = (Inl e, q')"
    and "proxies r = [p, q]" and "apply_static_filters env (r\<lparr>is_active := True\<rparr>) = (Inr (), r\<lparr>is_active := True\<rparr>)"
    and "\<not> shutdown r" and "\<not> is_active r"
  shows "router_start env os r = (Inl (FromIo e), r\<lparr>proxies := [p', q'], is_active := False\<rparr>) \<and>
    router_stop (r\<lparr>proxies := [p', q'], is_active := False\<rparr>) =
      (Inl (Msg ''router already stopped''), r\<lparr>proxies := [p', q'], is_active := False\<rparr>) \<and>
    tp_handles p' = tp_handles p @ [AcceptTcp, UdpWorker, AcceptUdp]"
proof -
  have "tp_handles p' = tp_handles p @ [AcceptTcp, UdpWorker, AcceptUdp]"
    using assms(1) by (auto simp: proxy_start_def Let_def split: sum.splits)
  with assms show ?thesis by (simp add: router_start_def router_stop_def)
qed

end
