(* ===== verification/Flow.thy ===== *)
theory Flow
  imports Router
begin

text \<open>
  The router's decision for each packet, \<open>src/src/router/flow.rs\<close>: which proxy a process belongs
  to, and how the connection tables turn a packet into a port rewrite. The process lookup is the
  trait object \<open>ProcessLookup\<close>, a function on its own state here; the iteration order of the map
  of process names is an argument, because the code takes the first name that matches.
\<close>

definition UDP_TIMEOUT_SECS :: nat where
  "UDP_TIMEOUT_SECS = 60"

datatype port_rewrite = RewriteToProxy u16 | RewriteFromProxy u16

type_synonym 'l find_process_path =
  "bool \<Rightarrow> socket_addr \<Rightarrow> socket_addr \<Rightarrow> instant \<Rightarrow> 'l \<Rightarrow> string router_result \<times> 'l"

record 'l flow_env =
  fe_find_process_path :: "'l find_process_path"
  fe_name_order :: "string list"
  fe_now :: instant

section \<open>From process to proxy\<close>

fun first_match ::
    "string list \<Rightarrow> (string, nat) hash_map \<Rightarrow> transparent_proxy list \<Rightarrow> string \<Rightarrow> transparent_proxy option" where
  "first_match [] names ps path = None"
| "first_match (n # ns) names ps path =
     (case hm_get names n of
        Some i \<Rightarrow> if str_contains path n \<and> i < length ps then Some (ps ! i)
                  else first_match ns names ps path
      | None \<Rightarrow> first_match ns names ps path)"

definition get_proxy_port_tcp :: "string list \<Rightarrow> 'l router \<Rightarrow> string \<Rightarrow> bool \<Rightarrow> u16" where
  "get_proxy_port_tcp order r process_path is_v6 =
     (case first_match order (name_to_proxy r) (proxies r) process_path of
        Some p \<Rightarrow> if is_v6 then tcp_port_v6 p else tcp_port_v4 p
      | None \<Rightarrow> 0)"

definition get_proxy_port_udp :: "string list \<Rightarrow> 'l router \<Rightarrow> string \<Rightarrow> bool \<Rightarrow> u16" where
  "get_proxy_port_udp order r process_path is_v6 =
     (case first_match order (name_to_proxy r) (proxies r) process_path of
        Some p \<Rightarrow> if is_v6 then udp_port_v6 p else udp_port_v4 p
      | None \<Rightarrow> 0)"

definition is_tcp_proxy_port :: "'l router \<Rightarrow> u16 \<Rightarrow> bool" where
  "is_tcp_proxy_port r port \<longleftrightarrow> list_ex (\<lambda>p. tcp_port_v4 p = port \<or> tcp_port_v6 p = port) (proxies r)"

definition is_udp_proxy_port :: "'l router \<Rightarrow> u16 \<Rightarrow> bool" where
  "is_udp_proxy_port r port \<longleftrightarrow> list_ex (\<lambda>p. udp_port_v4 p = port \<or> udp_port_v6 p = port) (proxies r)"

section \<open>TCP\<close>

text \<open>\<open>entry(key).or_insert(v)\<close>.\<close>

definition hm_or_insert :: "'k \<Rightarrow> 'v \<Rightarrow> ('k, 'v) hash_map \<Rightarrow> ('k, 'v) hash_map" where
  "hm_or_insert k v m = (if hm_get m k = None then hm_insert k v m else m)"

definition process_tcp_payload ::
    "'l flow_env \<Rightarrow> socket_addr \<Rightarrow> socket_addr \<Rightarrow> ip_addr \<Rightarrow> ip_addr \<Rightarrow> u16 \<Rightarrow> u16 \<Rightarrow> bool \<Rightarrow>
     bool \<Rightarrow> bool \<Rightarrow> bool \<Rightarrow> bool \<Rightarrow> 'l router \<Rightarrow> port_rewrite option \<times> 'l router" where
  "process_tcp_payload env src dst src_ip dst_ip src_port dst_port is_v6 syn ack rst fin r =
     (let key = (dst_ip, src_ip, src_port);
          (redirected, proxy_port, r) =
            (if syn \<and> \<not> ack then
               (case fe_find_process_path env False src dst (fe_now env) (process_lookup r) of
                  (Inl e, l) \<Rightarrow> (False, 0, r\<lparr>process_lookup := l\<rparr>)
                | (Inr path, l) \<Rightarrow>
                    let r = r\<lparr>process_lookup := l\<rparr>;
                        port = get_proxy_port_tcp (fe_name_order env) r path is_v6 in
                    if port \<noteq> 0 then
                      (True, port,
                       r\<lparr>tcp_connections := hm_or_insert key
                           \<lparr>tm_dst_ip = dst_ip, tm_dst_port = dst_port, tm_proxy_port = port\<rparr>
                           (tcp_connections r)\<rparr>)
                    else (False, port, r))
             else
               (case hm_get (tcp_connections r) key of
                  Some entry \<Rightarrow>
                    (True, tm_proxy_port entry,
                     if rst \<or> fin then r\<lparr>tcp_connections := hm_remove key (tcp_connections r)\<rparr> else r)
                | None \<Rightarrow> (False, 0, r)))
      in
        if redirected then (Some (RewriteToProxy proxy_port), r)
        else if is_tcp_proxy_port r src_port then
          (let key = (dst_ip, src_ip, dst_port) in
           case hm_get (tcp_connections r) key of
             Some entry \<Rightarrow>
               (Some (RewriteFromProxy (tm_dst_port entry)),
                if rst \<or> fin then r\<lparr>tcp_connections := hm_remove key (tcp_connections r)\<rparr> else r)
           | None \<Rightarrow> (None, r))
        else (None, r))"

section \<open>UDP\<close>

definition process_udp_payload ::
    "'l flow_env \<Rightarrow> socket_addr \<Rightarrow> socket_addr \<Rightarrow> ip_addr \<Rightarrow> ip_addr \<Rightarrow> u16 \<Rightarrow> u16 \<Rightarrow> bool \<Rightarrow>
     'l router \<Rightarrow> port_rewrite option \<times> 'l router" where
  "process_udp_payload env src dst src_ip dst_ip src_port dst_port is_v6 r =
     (let now = fe_now env;
          key = UdpFlowKey dst_ip src_ip src_port in
      case hm_get (by_flow (udp_endpoints r)) key of
        Some entry \<Rightarrow>
          if um_dst_port entry = dst_port then
            (Some (RewriteToProxy (um_proxy_port entry)),
             r\<lparr>udp_endpoints := (udp_endpoints r)\<lparr>by_flow :=
                 hm_insert key (entry\<lparr>um_last_active := now\<rparr>) (by_flow (udp_endpoints r))\<rparr>\<rparr>)
          else (None, r)
      | None \<Rightarrow>
          let (redirected, proxy_port, r) =
            (case fe_find_process_path env True src dst now (process_lookup r) of
               (Inl e, l) \<Rightarrow> (False, 0, r\<lparr>process_lookup := l\<rparr>)
             | (Inr path, l) \<Rightarrow>
                 let r = r\<lparr>process_lookup := l\<rparr>;
                     port = get_proxy_port_udp (fe_name_order env) r path is_v6 in
                 if port \<noteq> 0 then
                   (True, port,
                    r\<lparr>udp_endpoints := mappings_insert key
                        \<lparr>um_dst_ip = dst_ip, um_dst_port = dst_port, um_proxy_port = port,
                         um_last_active = now\<rparr> (udp_endpoints r)\<rparr>)
                 else (False, port, r))
          in
            if redirected then (Some (RewriteToProxy proxy_port), r)
            else if is_udp_proxy_port r src_port then
              (case hm_get (by_flow (udp_endpoints r)) (UdpFlowKey dst_ip src_ip dst_port) of
                 Some entry \<Rightarrow> (Some (RewriteFromProxy (um_dst_port entry)), r)
               | None \<Rightarrow> (None, r))
            else (None, r))"

definition udp_flow_fresh :: "duration \<Rightarrow> bool" where
  "udp_flow_fresh age \<longleftrightarrow> age < from_secs UDP_TIMEOUT_SECS"

text \<open>\<open>order\<close> is the iteration order of the flow map after the idle flows are gone.\<close>

definition cleanup_stale_udp_endpoints :: "instant \<Rightarrow> udp_flow_key list \<Rightarrow> 'l router \<Rightarrow> 'l router" where
  "cleanup_stale_udp_endpoints now order r =
     r\<lparr>udp_endpoints := retain_active
         (\<lambda>e. udp_flow_fresh (duration_since now (um_last_active e))) order (udp_endpoints r)\<rparr>"

section \<open>The UDP table expires idle flows\<close>

interpretation uf: expiring_table hm_empty hm_get hm_insert hm_remove hm_retain hm_len hm_wf
  um_last_active udp_flow_fresh
  by unfold_locales (auto simp: udp_flow_fresh_def UDP_TIMEOUT_SECS_def)

lemma by_flow_cleanup:
  "by_flow (udp_endpoints (cleanup_stale_udp_endpoints now order r)) = uf.expire now (by_flow (udp_endpoints r))"
  by (simp add: cleanup_stale_udp_endpoints_def retain_active_def rebuild_peer_index_def uf.expire_def)

section \<open>Choosing the proxy\<close>

definition name_applies :: "'l router \<Rightarrow> string \<Rightarrow> string \<Rightarrow> transparent_proxy \<Rightarrow> bool" where
  "name_applies r path n p \<longleftrightarrow>
     (\<exists>i. hm_get (name_to_proxy r) n = Some i \<and> str_contains path n \<and> i < length (proxies r) \<and>
          proxies r ! i = p)"

lemma first_match_Some:
  "first_match order (name_to_proxy r) (proxies r) path = Some p \<Longrightarrow>
    \<exists>n \<in> set order. name_applies r path n p"
  by (induction order) (auto simp: name_applies_def split: option.splits if_splits)

lemma first_match_None:
  "first_match order (name_to_proxy r) (proxies r) path = None \<Longrightarrow> n \<in> set order \<Longrightarrow>
    \<not> name_applies r path n p"
  by (induction order) (auto simp: name_applies_def split: option.splits if_splits)

lemma first_match_unique:
  assumes "iteration_order (name_to_proxy r) order"
    and "name_applies r path n p" and "\<And>n' p'. name_applies r path n' p' \<Longrightarrow> p' = p"
  shows "first_match order (name_to_proxy r) (proxies r) path = Some p"
proof -
  have "n \<in> set order"
    using assms(1,2) iteration_order_get [OF assms(1)] by (auto simp: name_applies_def)
  then have "first_match order (name_to_proxy r) (proxies r) path \<noteq> None"
    using first_match_None [of order r path n p] assms(2) by blast
  then obtain q where q: "first_match order (name_to_proxy r) (proxies r) path = Some q" by blast
  with first_match_Some [OF q] assms(3) show ?thesis by blast
qed

lemma first_match_none_applies:
  assumes "\<And>n p. \<not> name_applies r path n p"
  shows "first_match order (name_to_proxy r) (proxies r) path = None"
  using first_match_Some [of order r path] assms
  by (cases "first_match order (name_to_proxy r) (proxies r) path") auto

section \<open>The invariant of the tables\<close>

text \<open>
  Every redirected flow remembers the address it was going to under its own key, and a proxy
  port that is not zero; the UDP index is exact.
\<close>

definition tcp_entry_ok :: "tcp_key \<Rightarrow> tcp_port_mapping \<Rightarrow> bool" where
  "tcp_entry_ok k e \<longleftrightarrow> tm_dst_ip e = fst k \<and> tm_proxy_port e \<noteq> 0"

definition udp_entry_ok :: "udp_flow_key \<Rightarrow> udp_port_mapping \<Rightarrow> bool" where
  "udp_entry_ok k e \<longleftrightarrow> um_dst_ip e = fk_dst_ip k \<and> um_proxy_port e \<noteq> 0"

definition tables_ok :: "'l router \<Rightarrow> bool" where
  "tables_ok r \<longleftrightarrow> hm_wf (tcp_connections r) \<and>
     (\<forall>k e. hm_get (tcp_connections r) k = Some e \<longrightarrow> tcp_entry_ok k e) \<and>
     index_ok (udp_endpoints r) \<and>
     (\<forall>k e. hm_get (by_flow (udp_endpoints r)) k = Some e \<longrightarrow> udp_entry_ok k e)"

lemma index_ok_refresh:
  assumes "index_ok m" and "hm_get (by_flow m) k = Some e"
  shows "index_ok (m\<lparr>by_flow := hm_insert k e' (by_flow m)\<rparr>)"
proof -
  have "flows (m\<lparr>by_flow := hm_insert k e' (by_flow m)\<rparr>) = flows m"
    using assms(2) by (auto simp: flows_def hm.get_ins)
  with assms(1) show ?thesis by (simp add: index_ok_def hm.wf_ins)
qed

lemma hm_or_insert_get:
  "hm_get (hm_or_insert k v m) k' =
    (if k' = k then Some (case hm_get m k of None \<Rightarrow> v | Some x \<Rightarrow> x) else hm_get m k')"
  by (auto simp: hm_or_insert_def hm.get_ins)

lemma hm_or_insert_wf: "hm_wf m \<Longrightarrow> hm_wf (hm_or_insert k v m)"
  by (simp add: hm_or_insert_def hm.wf_ins)

lemma tables_ok_tcp_insert:
  "tables_ok r \<Longrightarrow> tcp_entry_ok k e \<Longrightarrow> tables_ok (r\<lparr>tcp_connections := hm_or_insert k e (tcp_connections r)\<rparr>)"
  by (auto simp: tables_ok_def hm_or_insert_get hm_or_insert_wf split: option.splits)

lemma tables_ok_tcp_remove:
  "tables_ok r \<Longrightarrow> tables_ok (r\<lparr>tcp_connections := hm_remove k (tcp_connections r)\<rparr>)"
  by (auto simp: tables_ok_def hm.get_rm hm.wf_rm)

lemma tables_ok_udp_insert:
  "tables_ok r \<Longrightarrow> udp_entry_ok k e \<Longrightarrow> tables_ok (r\<lparr>udp_endpoints := mappings_insert k e (udp_endpoints r)\<rparr>)"
  by (auto simp: tables_ok_def index_ok_insert hm.get_ins)

lemma tables_ok_lookup [simp]: "tables_ok (r\<lparr>process_lookup := l\<rparr>) \<longleftrightarrow> tables_ok r"
  by (simp add: tables_ok_def)

end
