(* ===== verification/Process.thy ===== *)
theory Process
  imports Flow
begin

text \<open>
  Which process owns a packet, \<open>src/src/windows/process.rs\<close>: the session tables of the four
  families with their age, the lookups over them, the rows of the system's tables as keys, and
  the cache of process paths. The system calls are the fields of \<open>proc_env\<close>; a table the system
  fills is its list of rows, with the fields of the row structures of the \<open>windows\<close> crate. The
  four families follow one discipline, the locale \<open>session_family\<close>.
\<close>

definition PROCESS_CACHE_TTL :: duration where
  "PROCESS_CACHE_TTL = from_secs 300"

definition PROCESS_CACHE_MAX :: nat where
  "PROCESS_CACHE_MAX = 1024"

definition SESSION_CACHE_MAX_AGE :: duration where
  "SESSION_CACHE_MAX_AGE = from_millis 500"

section \<open>State and environment\<close>

type_synonym tcp_key_v4 = "ipv4_addr \<times> ipv4_addr \<times> u16 \<times> u16"
type_synonym tcp_key_v6 = "ipv6_addr \<times> ipv6_addr \<times> u16 \<times> u16"
type_synonym udp_key_v4 = "ipv4_addr \<times> u16"
type_synonym udp_key_v6 = "ipv6_addr \<times> u16"

record cached_process =
  cp_path :: string
  cp_last_seen :: instant

record session_cache =
  tcp_v4 :: "(tcp_key_v4, u32) hash_map"
  tcp_v6 :: "(tcp_key_v6, u32) hash_map"
  udp_v4 :: "(udp_key_v4, u32) hash_map"
  udp_v6 :: "(udp_key_v6, u32) hash_map"
  tcp_v4_last_refresh :: "instant option"
  tcp_v6_last_refresh :: "instant option"
  udp_v4_last_refresh :: "instant option"
  udp_v6_last_refresh :: "instant option"

record process_lookup_state =
  pl_cache :: "(u32, cached_process) hash_map"
  pl_sessions :: session_cache

record tcp4_row =
  t4_local_addr :: u32
  t4_local_port :: u32
  t4_remote_addr :: u32
  t4_remote_port :: u32
  t4_owning_pid :: u32

record tcp6_row =
  t6_local_addr :: bytes
  t6_local_port :: u32
  t6_remote_addr :: bytes
  t6_remote_port :: u32
  t6_owning_pid :: u32

record udp4_row =
  u4_local_addr :: u32
  u4_local_port :: u32
  u4_owning_pid :: u32

record udp6_row =
  u6_local_addr :: bytes
  u6_local_port :: u32
  u6_owning_pid :: u32

text \<open>What the two calls to a table function give: the size first, then a status and the rows.\<close>

record 'row ext_table =
  et_size :: u32
  et_status :: u32
  et_rows :: "'row list"

record proc_env =
  pe_tcp4 :: "tcp4_row ext_table"
  pe_tcp6 :: "tcp6_row ext_table"
  pe_udp4 :: "udp4_row ext_table"
  pe_udp6 :: "udp6_row ext_table"
  pe_open :: "u32 \<Rightarrow> nat option"
  pe_image :: "u32 \<Rightarrow> nat + u16 list"
  pe_check :: instant
  pe_refresh :: instant
  pe_now :: instant

section \<open>The system's tables\<close>

text \<open>\<open>from_be\<close> on a little-endian machine, and \<open>Ipv4Addr::from(u32)\<close>.\<close>

definition u16_from_be :: "u16 \<Rightarrow> u16" where
  "u16_from_be w = u16_from_be_bytes (ucast w) (ucast (drop_bit 8 w))"

definition u32_bytes :: "u32 \<Rightarrow> bytes" where
  "u32_bytes w = [ucast (drop_bit 24 w), ucast (drop_bit 16 w), ucast (drop_bit 8 w), ucast w]"

definition u32_of_bytes :: "u8 \<Rightarrow> u8 \<Rightarrow> u8 \<Rightarrow> u8 \<Rightarrow> u32" where
  "u32_of_bytes a b c d =
     push_bit 24 (ucast a) OR push_bit 16 (ucast b) OR push_bit 8 (ucast c) OR ucast d"

definition u32_from_be :: "u32 \<Rightarrow> u32" where
  "u32_from_be w = u32_of_bytes (ucast w) (ucast (drop_bit 8 w)) (ucast (drop_bit 16 w)) (ucast (drop_bit 24 w))"

definition ipv4_from_u32 :: "u32 \<Rightarrow> ipv4_addr" where
  "ipv4_from_u32 w = v4_of_octets (u32_bytes w)"

definition tcp4_key :: "tcp4_row \<Rightarrow> tcp_key_v4" where
  "tcp4_key row = (ipv4_from_u32 (u32_from_be (t4_local_addr row)), ipv4_from_u32 (u32_from_be (t4_remote_addr row)),
     u16_from_be (ucast (t4_local_port row)), u16_from_be (ucast (t4_remote_port row)))"

definition tcp6_key :: "tcp6_row \<Rightarrow> tcp_key_v6" where
  "tcp6_key row = (v6_of_octets (t6_local_addr row), v6_of_octets (t6_remote_addr row),
     u16_from_be (ucast (t6_local_port row)), u16_from_be (ucast (t6_remote_port row)))"

definition udp4_key :: "udp4_row \<Rightarrow> udp_key_v4" where
  "udp4_key row = (ipv4_from_u32 (u32_from_be (u4_local_addr row)), u16_from_be (ucast (u4_local_port row)))"

definition udp6_key :: "udp6_row \<Rightarrow> udp_key_v6" where
  "udp6_key row = (v6_of_octets (u6_local_addr row), u16_from_be (ucast (u6_local_port row)))"

definition rebuild_tcp_v4_map :: "tcp4_row list \<Rightarrow> (tcp_key_v4, u32) hash_map" where
  "rebuild_tcp_v4_map rows = foldl (\<lambda>m row. hm_insert (tcp4_key row) (t4_owning_pid row) m) hm_empty rows"

definition rebuild_tcp_v6_map :: "tcp6_row list \<Rightarrow> (tcp_key_v6, u32) hash_map" where
  "rebuild_tcp_v6_map rows = foldl (\<lambda>m row. hm_insert (tcp6_key row) (t6_owning_pid row) m) hm_empty rows"

definition rebuild_udp_v4_map :: "udp4_row list \<Rightarrow> (udp_key_v4, u32) hash_map" where
  "rebuild_udp_v4_map rows = foldl (\<lambda>m row. hm_insert (udp4_key row) (u4_owning_pid row) m) hm_empty rows"

definition rebuild_udp_v6_map :: "udp6_row list \<Rightarrow> (udp_key_v6, u32) hash_map" where
  "rebuild_udp_v6_map rows = foldl (\<lambda>m row. hm_insert (udp6_key row) (u6_owning_pid row) m) hm_empty rows"

definition get_tcp_table :: "'row ext_table \<Rightarrow> 'row list router_result" where
  "get_tcp_table t =
     (if et_size t = 0 then Inl (Msg ''GetExtendedTcpTable size returned 0'')
      else if et_status t \<noteq> 0 then Inl (Msg (''GetExtendedTcpTable failed: '' @ show_nat (unat (et_status t))))
      else Inr (et_rows t))"

definition get_udp_table :: "'row ext_table \<Rightarrow> 'row list router_result" where
  "get_udp_table t =
     (if et_size t = 0 then Inl (Msg ''GetExtendedUdpTable size returned 0'')
      else if et_status t \<noteq> 0 then Inl (Msg (''GetExtendedUdpTable failed: '' @ show_nat (unat (et_status t))))
      else Inr (et_rows t))"

section \<open>The session cache\<close>

definition is_stale :: "instant \<Rightarrow> instant option \<Rightarrow> bool" where
  "is_stale now last_refresh =
     (case last_refresh of
        Some ts \<Rightarrow> SESSION_CACHE_MAX_AGE < duration_since now ts
      | None \<Rightarrow> True)"

definition refresh_tcp_v4_cache :: "proc_env \<Rightarrow> session_cache \<Rightarrow> session_cache option" where
  "refresh_tcp_v4_cache env sc =
     (case get_tcp_table (pe_tcp4 env) of Inl _ \<Rightarrow> None
      | Inr rows \<Rightarrow> Some (sc\<lparr>tcp_v4 := rebuild_tcp_v4_map rows, tcp_v4_last_refresh := Some (pe_refresh env)\<rparr>))"

definition refresh_tcp_v6_cache :: "proc_env \<Rightarrow> session_cache \<Rightarrow> session_cache option" where
  "refresh_tcp_v6_cache env sc =
     (case get_tcp_table (pe_tcp6 env) of Inl _ \<Rightarrow> None
      | Inr rows \<Rightarrow> Some (sc\<lparr>tcp_v6 := rebuild_tcp_v6_map rows, tcp_v6_last_refresh := Some (pe_refresh env)\<rparr>))"

definition refresh_udp_v4_cache :: "proc_env \<Rightarrow> session_cache \<Rightarrow> session_cache option" where
  "refresh_udp_v4_cache env sc =
     (case get_udp_table (pe_udp4 env) of Inl _ \<Rightarrow> None
      | Inr rows \<Rightarrow> Some (sc\<lparr>udp_v4 := rebuild_udp_v4_map rows, udp_v4_last_refresh := Some (pe_refresh env)\<rparr>))"

definition refresh_udp_v6_cache :: "proc_env \<Rightarrow> session_cache \<Rightarrow> session_cache option" where
  "refresh_udp_v6_cache env sc =
     (case get_udp_table (pe_udp6 env) of Inl _ \<Rightarrow> None
      | Inr rows \<Rightarrow> Some (sc\<lparr>udp_v6 := rebuild_udp_v6_map rows, udp_v6_last_refresh := Some (pe_refresh env)\<rparr>))"

definition lookup_tcp_v4 :: "ipv4_addr \<times> u16 \<Rightarrow> ipv4_addr \<times> u16 \<Rightarrow> session_cache \<Rightarrow> u32 option" where
  "lookup_tcp_v4 local remote sc = hm_get (tcp_v4 sc) (fst local, fst remote, snd local, snd remote)"

definition lookup_tcp_v6 :: "ipv6_addr \<times> u16 \<Rightarrow> ipv6_addr \<times> u16 \<Rightarrow> session_cache \<Rightarrow> u32 option" where
  "lookup_tcp_v6 local remote sc = hm_get (tcp_v6 sc) (fst local, fst remote, snd local, snd remote)"

definition lookup_udp_v4 :: "ipv4_addr \<times> u16 \<Rightarrow> session_cache \<Rightarrow> u32 option" where
  "lookup_udp_v4 local sc =
     (case hm_get (udp_v4 sc) local of
        Some pid \<Rightarrow> Some pid
      | None \<Rightarrow>
          if fst local \<noteq> v4_unspecified then hm_get (udp_v4 sc) (v4_unspecified, snd local) else None)"

definition lookup_udp_v6 :: "ipv6_addr \<times> u16 \<Rightarrow> session_cache \<Rightarrow> u32 option" where
  "lookup_udp_v6 local sc =
     (case hm_get (udp_v6 sc) local of
        Some pid \<Rightarrow> Some pid
      | None \<Rightarrow>
          if fst local \<noteq> v6_unspecified then hm_get (udp_v6 sc) (v6_unspecified, snd local) else None)"

text \<open>The shape the four cached lookups share: a stale table is read first; a miss reads it again.\<close>

definition find_cached ::
    "bool \<Rightarrow> (session_cache \<Rightarrow> u32 option) \<Rightarrow> (session_cache \<Rightarrow> session_cache option) \<Rightarrow>
     session_cache \<Rightarrow> u32 option \<times> session_cache" where
  "find_cached stale lookup refresh sc =
     (if stale then (case refresh sc of None \<Rightarrow> (None, sc) | Some sc \<Rightarrow> (lookup sc, sc))
      else (case lookup sc of
              Some pid \<Rightarrow> (Some pid, sc)
            | None \<Rightarrow> (case refresh sc of None \<Rightarrow> (None, sc) | Some sc \<Rightarrow> (lookup sc, sc))))"

definition find_pid_tcp_v4_cached where
  "find_pid_tcp_v4_cached env local remote sc =
     find_cached (is_stale (pe_check env) (tcp_v4_last_refresh sc)) (lookup_tcp_v4 local remote) (refresh_tcp_v4_cache env) sc"

definition find_pid_tcp_v6_cached where
  "find_pid_tcp_v6_cached env local remote sc =
     find_cached (is_stale (pe_check env) (tcp_v6_last_refresh sc)) (lookup_tcp_v6 local remote) (refresh_tcp_v6_cache env) sc"

definition find_pid_udp_v4_cached where
  "find_pid_udp_v4_cached env local sc =
     find_cached (is_stale (pe_check env) (udp_v4_last_refresh sc)) (lookup_udp_v4 local) (refresh_udp_v4_cache env) sc"

definition find_pid_udp_v6_cached where
  "find_pid_udp_v6_cached env local sc =
     find_cached (is_stale (pe_check env) (udp_v6_last_refresh sc)) (lookup_udp_v6 local) (refresh_udp_v6_cache env) sc"

section \<open>The path of a process\<close>

text \<open>\<open>String::from_utf16_lossy\<close>: surrogate pairs are joined, a lone surrogate is U+FFFD.\<close>

fun utf16_points :: "u16 list \<Rightarrow> nat list" where
  "utf16_points [] = []"
| "utf16_points [w] = [if 0xD800 \<le> unat w \<and> unat w < 0xE000 then 0xFFFD else unat w]"
| "utf16_points (w # v # rest) =
     (let n = unat w; m = unat v in
      if n < 0xD800 \<or> 0xE000 \<le> n then n # utf16_points (v # rest)
      else if 0xDC00 \<le> n \<or> m < 0xDC00 \<or> 0xE000 \<le> m then 0xFFFD # utf16_points (v # rest)
      else (0x10000 + (n - 0xD800) * 0x400 + (m - 0xDC00)) # utf16_points rest)"

definition utf8_encode :: "nat \<Rightarrow> nat list" where
  "utf8_encode n =
     (if n < 0x80 then [n]
      else if n < 0x800 then [0xC0 + n div 64, 0x80 + n mod 64]
      else if n < 0x10000 then [0xE0 + n div 4096, 0x80 + n div 64 mod 64, 0x80 + n mod 64]
      else [0xF0 + n div 262144, 0x80 + n div 4096 mod 64, 0x80 + n div 64 mod 64, 0x80 + n mod 64])"

definition from_utf16_lossy :: "u16 list \<Rightarrow> string" where
  "from_utf16_lossy ws = map char_of (concat (map utf8_encode (utf16_points ws)))"

definition query_process_path :: "proc_env \<Rightarrow> u32 \<Rightarrow> string router_result" where
  "query_process_path env pid =
     (case pe_open env pid of
        Some code \<Rightarrow> Inl (Context (''OpenProcess failed for pid '' @ show_nat (unat pid)) (FromIo (OsError code)))
      | None \<Rightarrow>
          (case pe_image env pid of
             Inl code \<Rightarrow> Inl (Context (''QueryFullProcessImageNameW failed for pid '' @ show_nat (unat pid))
                               (FromIo (OsError code)))
           | Inr path \<Rightarrow> Inr (from_utf16_lossy path)))"

definition path_fresh :: "duration \<Rightarrow> bool" where
  "path_fresh age \<longleftrightarrow> age \<le> PROCESS_CACHE_TTL"

definition find_pid :: "proc_env \<Rightarrow> bool \<Rightarrow> socket_addr \<Rightarrow> socket_addr \<Rightarrow> session_cache \<Rightarrow> u32 option \<times> session_cache" where
  "find_pid env is_udp src dst sc =
     (if is_udp then
        (case src of
           SockV4 a p \<Rightarrow> find_pid_udp_v4_cached env (a, p) sc
         | SockV6 a p _ _ \<Rightarrow> find_pid_udp_v6_cached env (a, p) sc)
      else
        (case (src, dst) of
           (SockV4 a p, SockV4 b q) \<Rightarrow> find_pid_tcp_v4_cached env (a, p) (b, q) sc
         | (SockV6 a p _ _, SockV6 b q _ _) \<Rightarrow> find_pid_tcp_v6_cached env (a, p) (b, q) sc
         | _ \<Rightarrow> (None, sc)))"

text \<open>The path cache after a path was inserted: if it is too long, old entries go, then all.\<close>

definition trim_cache :: "instant \<Rightarrow> (u32, cached_process) hash_map \<Rightarrow> (u32, cached_process) hash_map" where
  "trim_cache now cache =
     (if PROCESS_CACHE_MAX < hm_len cache then
        let cache = hm_retain (\<lambda>_ e. path_fresh (duration_since now (cp_last_seen e))) cache in
        if PROCESS_CACHE_MAX < hm_len cache then hm_empty else cache
      else cache)"

definition find_process_path_sync ::
    "proc_env \<Rightarrow> bool \<Rightarrow> socket_addr \<Rightarrow> socket_addr \<Rightarrow> process_lookup_state \<Rightarrow>
     string router_result \<times> process_lookup_state" where
  "find_process_path_sync env is_udp src dst pl =
     (case find_pid env is_udp src dst (pl_sessions pl) of
        (None, sc) \<Rightarrow> (Inl (Msg ''process id not found''), pl\<lparr>pl_sessions := sc\<rparr>)
      | (Some pid, sc) \<Rightarrow>
          let pl = pl\<lparr>pl_sessions := sc\<rparr>; now = pe_now env; cache = pl_cache pl in
          (case hm_get cache pid of
             Some entry \<Rightarrow>
               if path_fresh (duration_since now (cp_last_seen entry))
               then (Inr (cp_path entry), pl\<lparr>pl_cache := hm_insert pid (entry\<lparr>cp_last_seen := now\<rparr>) cache\<rparr>)
               else
                 let cache = hm_remove pid cache in
                 (case query_process_path env pid of
                    Inl e \<Rightarrow> (Inl e, pl\<lparr>pl_cache := cache\<rparr>)
                  | Inr path \<Rightarrow> (Inr path,
                      pl\<lparr>pl_cache := trim_cache now (hm_insert pid \<lparr>cp_path = path, cp_last_seen = now\<rparr> cache)\<rparr>))
           | None \<Rightarrow>
               (case query_process_path env pid of
                  Inl e \<Rightarrow> (Inl e, pl)
                | Inr path \<Rightarrow> (Inr path,
                    pl\<lparr>pl_cache := trim_cache now (hm_insert pid \<lparr>cp_path = path, cp_last_seen = now\<rparr> cache)\<rparr>))))"

text \<open>The trait object the router holds; \<open>now\<close> is the packet's clock, before the lookup's own.\<close>

definition windows_lookup :: "(instant \<Rightarrow> proc_env) \<Rightarrow> process_lookup_state find_process_path" where
  "windows_lookup envs is_udp src dst now pl = find_process_path_sync (envs now) is_udp src dst pl"


section \<open>What a table of the system says\<close>

definition last_owner :: "('row \<Rightarrow> 'k) \<Rightarrow> ('row \<Rightarrow> u32) \<Rightarrow> 'row list \<Rightarrow> 'k \<Rightarrow> u32 option" where
  "last_owner key pid rows k = map_option pid (find (\<lambda>row. key row = k) (rev rows))"

lemma find_append: "find P (xs @ ys) = (case find P xs of None \<Rightarrow> find P ys | Some x \<Rightarrow> Some x)"
  by (induction xs) auto

lemma get_rebuild:
  "hm_get (foldl (\<lambda>m row. hm_insert (key row) (pid row) m) hm_empty rows) k = last_owner key pid rows k"
  by (induction rows rule: rev_induct) (auto simp: last_owner_def hm.get_empty hm.get_ins)

lemmas get_rebuild_maps = get_rebuild [of tcp4_key t4_owning_pid, folded rebuild_tcp_v4_map_def]
  get_rebuild [of tcp6_key t6_owning_pid, folded rebuild_tcp_v6_map_def]
  get_rebuild [of udp4_key u4_owning_pid, folded rebuild_udp_v4_map_def]
  get_rebuild [of udp6_key u6_owning_pid, folded rebuild_udp_v6_map_def]

definition or_wildcard :: "('a \<times> u16 \<Rightarrow> u32 option) \<Rightarrow> 'a \<Rightarrow> 'a \<times> u16 \<Rightarrow> u32 option" where
  "or_wildcard owner any local =
     (case owner local of Some pid \<Rightarrow> Some pid
      | None \<Rightarrow> if fst local \<noteq> any then owner (any, snd local) else None)"

text \<open>The owner by the system's table now: \<open>None\<close> when the table cannot be read.\<close>

fun system_owner :: "proc_env \<Rightarrow> bool \<Rightarrow> socket_addr \<Rightarrow> socket_addr \<Rightarrow> u32 option option" where
  "system_owner env True (SockV4 a p) dst =
     (case get_udp_table (pe_udp4 env) of Inl _ \<Rightarrow> None
      | Inr rows \<Rightarrow> Some (or_wildcard (last_owner udp4_key u4_owning_pid rows) v4_unspecified (a, p)))"
| "system_owner env True (SockV6 a p f s) dst =
     (case get_udp_table (pe_udp6 env) of Inl _ \<Rightarrow> None
      | Inr rows \<Rightarrow> Some (or_wildcard (last_owner udp6_key u6_owning_pid rows) v6_unspecified (a, p)))"
| "system_owner env False (SockV4 a p) (SockV4 b q) =
     (case get_tcp_table (pe_tcp4 env) of Inl _ \<Rightarrow> None
      | Inr rows \<Rightarrow> Some (last_owner tcp4_key t4_owning_pid rows (a, b, p, q)))"
| "system_owner env False (SockV6 a p f s) (SockV6 b q g u) =
     (case get_tcp_table (pe_tcp6 env) of Inl _ \<Rightarrow> None
      | Inr rows \<Rightarrow> Some (last_owner tcp6_key t6_owning_pid rows (a, b, p, q)))"
| "system_owner env False src dst = Some None"

text \<open>The owner by the tables kept, and when the table that decides was read.\<close>

fun kept_owner :: "bool \<Rightarrow> socket_addr \<Rightarrow> socket_addr \<Rightarrow> session_cache \<Rightarrow> u32 option" where
  "kept_owner True (SockV4 a p) dst sc = lookup_udp_v4 (a, p) sc"
| "kept_owner True (SockV6 a p f s) dst sc = lookup_udp_v6 (a, p) sc"
| "kept_owner False (SockV4 a p) (SockV4 b q) sc = lookup_tcp_v4 (a, p) (b, q) sc"
| "kept_owner False (SockV6 a p f s) (SockV6 b q g u) sc = lookup_tcp_v6 (a, p) (b, q) sc"
| "kept_owner False src dst sc = None"

fun kept_since :: "bool \<Rightarrow> socket_addr \<Rightarrow> session_cache \<Rightarrow> instant option" where
  "kept_since True (SockV4 a p) sc = udp_v4_last_refresh sc"
| "kept_since True (SockV6 a p f s) sc = udp_v6_last_refresh sc"
| "kept_since False (SockV4 a p) sc = tcp_v4_last_refresh sc"
| "kept_since False (SockV6 a p f s) sc = tcp_v6_last_refresh sc"

section \<open>The discipline of a session table\<close>

text \<open>
  A family reads its table (\<open>current\<close>, or nothing if the call fails) into the cache, and answers
  from the cache.
\<close>

locale session_family =
  fixes lookup :: "session_cache \<Rightarrow> u32 option"
    and refresh :: "session_cache \<Rightarrow> session_cache option"
    and since :: "session_cache \<Rightarrow> instant option"
    and current :: "u32 option option"
    and time :: instant
  assumes refresh_fails: "refresh sc = None \<longleftrightarrow> current = None"
    and refresh_reads: "refresh sc = Some sc' \<Longrightarrow> current = Some (lookup sc') \<and> since sc' = Some time"
begin

lemma find_sound:
  assumes "find_cached (is_stale now (since sc)) lookup refresh sc = (res, sc')"
  shows "(res \<noteq> None \<and> res = lookup sc \<and> sc' = sc \<and> \<not> is_stale now (since sc)) \<or>
    (res = None \<and> current = None \<and> sc' = sc) \<or>
    (current = Some res \<and> lookup sc' = res \<and> since sc' = Some time)"
proof (cases "refresh sc")
  case None
  with assms refresh_fails [of sc] show ?thesis
    by (auto simp: find_cached_def split: if_splits option.splits)
next
  case (Some q)
  with assms refresh_reads [OF Some] show ?thesis
    by (auto simp: find_cached_def split: if_splits option.splits)
qed

lemma find_negative: "find_cached (is_stale now (since sc)) lookup refresh sc = (None, sc') \<Longrightarrow>
    current = None \<or> current = Some None"
  using find_sound [of now sc None sc'] by auto

end

interpretation t4: session_family "lookup_tcp_v4 (a, p) (b, q)" "refresh_tcp_v4_cache env" tcp_v4_last_refresh
  "system_owner env False (SockV4 a p) (SockV4 b q)" "pe_refresh env" for a p b q env
  by unfold_locales (auto simp: refresh_tcp_v4_cache_def lookup_tcp_v4_def get_rebuild_maps split: sum.splits)

interpretation t6: session_family "lookup_tcp_v6 (a, p) (b, q)" "refresh_tcp_v6_cache env" tcp_v6_last_refresh
  "system_owner env False (SockV6 a p f s) (SockV6 b q g u)" "pe_refresh env" for a p b q f s g u env
  by unfold_locales (auto simp: refresh_tcp_v6_cache_def lookup_tcp_v6_def get_rebuild_maps split: sum.splits)

interpretation u4: session_family "lookup_udp_v4 (a, p)" "refresh_udp_v4_cache env" udp_v4_last_refresh
  "system_owner env True (SockV4 a p) dst" "pe_refresh env" for a p dst env
  by unfold_locales (auto simp: refresh_udp_v4_cache_def lookup_udp_v4_def or_wildcard_def get_rebuild_maps
      split: sum.splits option.split)

interpretation u6: session_family "lookup_udp_v6 (a, p)" "refresh_udp_v6_cache env" udp_v6_last_refresh
  "system_owner env True (SockV6 a p f s) dst" "pe_refresh env" for a p f s dst env
  by unfold_locales (auto simp: refresh_udp_v6_cache_def lookup_udp_v6_def or_wildcard_def get_rebuild_maps
      split: sum.splits option.split)

lemma find_pid_cases:
  assumes "find_pid env is_udp src dst sc = (res, sc')"
  shows "(res \<noteq> None \<and> res = kept_owner is_udp src dst sc \<and> sc' = sc \<and>
      \<not> is_stale (pe_check env) (kept_since is_udp src sc)) \<or>
    (res = None \<and> system_owner env is_udp src dst = None \<and> sc' = sc) \<or>
    (res = None \<and> system_owner env is_udp src dst = Some None) \<or>
    (system_owner env is_udp src dst = Some res \<and> kept_since is_udp src sc' = Some (pe_refresh env))"
proof (cases src)
  case src: (SockV4 a p)
  show ?thesis
  proof (cases is_udp)
    case True
    with assms src have "find_cached (is_stale (pe_check env) (udp_v4_last_refresh sc)) (lookup_udp_v4 (a, p))
        (refresh_udp_v4_cache env) sc = (res, sc')"
      by (simp add: find_pid_def find_pid_udp_v4_cached_def)
    from u4.find_sound [OF this, of dst] src True show ?thesis by auto
  next
    case False
    show ?thesis
    proof (cases dst)
      case (SockV4 b q)
      with assms src False have "find_cached (is_stale (pe_check env) (tcp_v4_last_refresh sc))
          (lookup_tcp_v4 (a, p) (b, q)) (refresh_tcp_v4_cache env) sc = (res, sc')"
        by (simp add: find_pid_def find_pid_tcp_v4_cached_def)
      from t4.find_sound [OF this] src False SockV4 show ?thesis by auto
    next
      case (SockV6 b q g u)
      with assms src False show ?thesis by (simp add: find_pid_def)
    qed
  qed
next
  case src: (SockV6 a p f s)
  show ?thesis
  proof (cases is_udp)
    case True
    with assms src have "find_cached (is_stale (pe_check env) (udp_v6_last_refresh sc)) (lookup_udp_v6 (a, p))
        (refresh_udp_v6_cache env) sc = (res, sc')"
      by (simp add: find_pid_def find_pid_udp_v6_cached_def)
    from u6.find_sound [OF this, of f s dst] src True show ?thesis by auto
  next
    case False
    show ?thesis
    proof (cases dst)
      case (SockV6 b q g u)
      with assms src False have "find_cached (is_stale (pe_check env) (tcp_v6_last_refresh sc))
          (lookup_tcp_v6 (a, p) (b, q)) (refresh_tcp_v6_cache env) sc = (res, sc')"
        by (simp add: find_pid_def find_pid_tcp_v6_cached_def)
      from t6.find_sound [OF this] src False SockV6 show ?thesis by auto
    next
      case (SockV4 b q)
      with assms src False show ?thesis by (simp add: find_pid_def)
    qed
  qed
qed

section \<open>The path cache\<close>

interpretation pc: expiring_table hm_empty hm_get hm_insert hm_remove hm_retain hm_len hm_wf
  cp_last_seen path_fresh
  by unfold_locales (auto simp: path_fresh_def)

lemma trim_cache_expire:
  "trim_cache now cache = (if PROCESS_CACHE_MAX < hm_len cache then
      (if PROCESS_CACHE_MAX < hm_len (pc.expire now cache) then hm_empty else pc.expire now cache) else cache)"
  by (simp add: trim_cache_def pc.expire_def)

definition path_cache_ok :: "process_lookup_state \<Rightarrow> bool" where
  "path_cache_ok pl \<longleftrightarrow> hm_wf (pl_cache pl) \<and> hm_len (pl_cache pl) \<le> PROCESS_CACHE_MAX"

lemma trim_cache_ok: "hm_wf c \<Longrightarrow> hm_wf (trim_cache now c) \<and> hm_len (trim_cache now c) \<le> PROCESS_CACHE_MAX"
  by (auto simp: trim_cache_expire pc.expire_def hm.wf_retain hm.wf_empty)
    (simp add: hm_empty_def hm_len_def)

lemma hm_len_refresh: "hm_get m k \<noteq> None \<Longrightarrow> hm_len (hm_insert k v m) = hm_len m"
  by (auto simp: hm.len_ins)

inductive lookup_reachable :: "process_lookup_state \<Rightarrow> bool" where
  new: "lookup_reachable \<lparr>pl_cache = hm_empty, pl_sessions = \<lparr>tcp_v4 = hm_empty, tcp_v6 = hm_empty,
     udp_v4 = hm_empty, udp_v6 = hm_empty, tcp_v4_last_refresh = None, tcp_v6_last_refresh = None,
     udp_v4_last_refresh = None, udp_v6_last_refresh = None\<rparr>\<rparr>"
| query: "lookup_reachable pl \<Longrightarrow> lookup_reachable (snd (find_process_path_sync env is_udp src dst pl))"

lemma path_cache_ok_query:
  assumes "path_cache_ok pl"
  shows "path_cache_ok (snd (find_process_path_sync env is_udp src dst pl))"
proof -
  obtain res sc where f: "find_pid env is_udp src dst (pl_sessions pl) = (res, sc)" by force
  have rm: "hm_len (hm_remove pid (pl_cache pl)) \<le> PROCESS_CACHE_MAX" for pid
    using assms hm.len_rm [of pid "pl_cache pl"] by (simp add: path_cache_ok_def)
  show ?thesis
    using assms f rm
    by (cases res)
      (auto simp: find_process_path_sync_def path_cache_ok_def Let_def hm.wf_ins hm.wf_rm hm_len_refresh
        trim_cache_ok split: option.split sum.split)
qed

lemma path_cache_ok_empty: "path_cache_ok \<lparr>pl_cache = hm_empty, pl_sessions = s\<rparr>"
proof -
  have "hm_len (hm_empty :: (u32, cached_process) hash_map) = 0" by (simp add: hm_len_def hm_empty_def)
  then show ?thesis by (simp add: path_cache_ok_def hm.wf_empty)
qed

lemma lookup_reachable_ok: "lookup_reachable pl \<Longrightarrow> path_cache_ok pl"
  by (induction rule: lookup_reachable.induct) (simp_all add: path_cache_ok_query path_cache_ok_empty)

text \<open>C15: The path of a packet's process: the process is one that the system's table names now, or
  named at most half a second ago; the path is what the system says of it now, or said while the
  cached entry has been used at least every 300 seconds; and the cache of paths never holds more
  than 1024 entries.\<close>
theorem process_path_sound:
  assumes "lookup_reachable pl" and "find_process_path_sync env is_udp src dst pl = (Inr path, pl')"
  shows "(\<exists>pid. (system_owner env is_udp src dst = Some (Some pid) \<or>
      (kept_owner is_udp src dst (pl_sessions pl) = Some pid \<and>
       (\<exists>ts. kept_since is_udp src (pl_sessions pl) = Some ts \<and> pe_check env - ts \<le> 500000000))) \<and>
    (query_process_path env pid = Inr path \<or>
      (\<exists>e. hm_get (pl_cache pl) pid = Some e \<and> cp_path e = path \<and> pe_now env - cp_last_seen e \<le> 300 * 1000000000))) \<and>
    hm_len (pl_cache pl') \<le> 1024"
proof -
  obtain res sc where f: "find_pid env is_udp src dst (pl_sessions pl) = (res, sc)" by force
  with assms(2) obtain pid where pid: "res = Some pid"
    by (cases res) (auto simp: find_process_path_sync_def)
  from find_pid_cases [OF f] pid have own: "system_owner env is_udp src dst = Some (Some pid) \<or>
      (kept_owner is_udp src dst (pl_sessions pl) = Some pid \<and>
       (\<exists>ts. kept_since is_udp src (pl_sessions pl) = Some ts \<and> pe_check env - ts \<le> 500000000))"
    by (auto simp: is_stale_def SESSION_CACHE_MAX_AGE_def from_millis_def duration_since_def split: option.splits)
  have path: "query_process_path env pid = Inr path \<or>
      (\<exists>e. hm_get (pl_cache pl) pid = Some e \<and> cp_path e = path \<and> pe_now env - cp_last_seen e \<le> 300 * 1000000000)"
    using assms(2) f pid
    by (auto simp: find_process_path_sync_def Let_def path_fresh_def PROCESS_CACHE_TTL_def from_secs_def
        duration_since_def split: option.splits if_splits sum.splits)
  have "lookup_reachable pl'"
    using lookup_reachable.query [OF assms(1), of env is_udp src dst] assms(2) by simp
  then have "hm_len (pl_cache pl') \<le> 1024"
    using lookup_reachable_ok by (simp add: path_cache_ok_def PROCESS_CACHE_MAX_def)
  with own path show ?thesis by blast
qed

text \<open>C25: A packet is taken for one without a process only if the system's table, read in the same
  call, does not name its owner, or cannot be read.\<close>
theorem process_missing_only_if_unlisted:
  assumes "find_process_path_sync env is_udp src dst pl = (Inl (Msg ''process id not found''), pl')"
  shows "system_owner env is_udp src dst = None \<or> system_owner env is_udp src dst = Some None"
proof -
  obtain res sc where f: "find_pid env is_udp src dst (pl_sessions pl) = (res, sc)" by force
  have "query_process_path env pid \<noteq> Inl (Msg ''process id not found'')" for pid
    by (auto simp: query_process_path_def split: option.splits sum.splits)
  with assms f have "res = None"
    by (cases res) (auto simp: find_process_path_sync_def Let_def split: option.splits if_splits sum.splits)
  with find_pid_cases [OF f] show ?thesis by auto
qed


section \<open>Rows in network order\<close>

text \<open>
  The system writes addresses and ports in network order; a little-endian machine reads them as
  \<open>net_u32\<close> and \<open>net_port\<close>. The upper half of a port field is not defined.
\<close>

fun net_u32 :: "ipv4_addr \<Rightarrow> u32" where
  "net_u32 (Ipv4Addr a b c d) = u32_of_bytes d c b a"

definition net_port :: "u16 \<Rightarrow> u16" where
  "net_port p = u16_from_be_bytes (ucast p) (ucast (drop_bit 8 p))"

lemma u32_bytes_of: "u32_bytes (u32_of_bytes a b c d) = [a, b, c, d]"
  unfolding u32_bytes_def u32_of_bytes_def
  apply (auto intro!: bit_word_eqI simp: bit_simps not_less)
       apply (drule bit_imp_le_length, simp)+
  done

lemma u32_from_be_of: "u32_from_be (u32_of_bytes a b c d) = u32_of_bytes d c b a"
  using u32_bytes_of [of a b c d] by (simp add: u32_from_be_def u32_bytes_def)

lemma ipv4_from_net: "ipv4_from_u32 (u32_from_be (net_u32 a)) = a"
  by (cases a) (simp add: u32_from_be_of ipv4_from_u32_def u32_bytes_of v4_of_octets_def)

lemma u16_from_be_net: "u16_from_be (net_port p) = p"
  by (simp add: u16_from_be_def net_port_def)

definition port_field :: "u16 \<Rightarrow> u16 \<Rightarrow> u32" where
  "port_field garbage p = push_bit 16 (ucast garbage) OR ucast (net_port p)"

lemma port_field_low: "ucast (port_field garbage p) = net_port p"
  unfolding port_field_def by (rule bit_word_eqI) (auto simp: bit_simps not_le)

text \<open>C35: A row of the system's tables is filed under the addresses and ports it is about: network
  order is turned round, and what the system leaves in the upper half of a port field is
  ignored.\<close>
theorem rows_filed_under_their_endpoints:
  "tcp4_key \<lparr>t4_local_addr = net_u32 a, t4_local_port = port_field x p,
     t4_remote_addr = net_u32 b, t4_remote_port = port_field y q, t4_owning_pid = pid\<rparr> = (a, b, p, q) \<and>
   tcp6_key \<lparr>t6_local_addr = v6_octets c, t6_local_port = port_field x p,
     t6_remote_addr = v6_octets d, t6_remote_port = port_field y q, t6_owning_pid = pid\<rparr> = (c, d, p, q) \<and>
   udp4_key \<lparr>u4_local_addr = net_u32 a, u4_local_port = port_field x p, u4_owning_pid = pid\<rparr> = (a, p) \<and>
   udp6_key \<lparr>u6_local_addr = v6_octets c, u6_local_port = port_field x p, u6_owning_pid = pid\<rparr> = (c, p)"
  by (simp add: tcp4_key_def tcp6_key_def udp4_key_def udp6_key_def ipv4_from_net port_field_low u16_from_be_net)

section \<open>Concrete lookups\<close>

definition demo_proc_env :: proc_env where
  "demo_proc_env = \<lparr>
     pe_tcp4 = \<lparr>et_size = 28, et_status = 0, et_rows = [\<lparr>t4_local_addr = net_u32 (Ipv4Addr 10 0 0 2),
        t4_local_port = port_field 7 4000, t4_remote_addr = net_u32 (Ipv4Addr 8 8 8 8),
        t4_remote_port = port_field 9 443, t4_owning_pid = 42\<rparr>]\<rparr>,
     pe_tcp6 = \<lparr>et_size = 0, et_status = 0, et_rows = []\<rparr>,
     pe_udp4 = \<lparr>et_size = 16, et_status = 0, et_rows = []\<rparr>,
     pe_udp6 = \<lparr>et_size = 0, et_status = 0, et_rows = []\<rparr>,
     pe_open = (\<lambda>_. None), pe_image = (\<lambda>_. Inr [102, 111, 120]),
     pe_check = 1, pe_refresh = 2, pe_now = 3\<rparr>"

definition demo_lookup_state :: process_lookup_state where
  "demo_lookup_state = \<lparr>pl_cache = hm_empty, pl_sessions = \<lparr>tcp_v4 = hm_empty, tcp_v6 = hm_empty,
     udp_v4 = hm_empty, udp_v6 = hm_empty, tcp_v4_last_refresh = None, tcp_v6_last_refresh = None,
     udp_v4_last_refresh = None, udp_v6_last_refresh = None\<rparr>\<rparr>"

lemma demo_chars: "char_of (102 :: nat) = CHR ''f''" "char_of (111 :: nat) = CHR ''o''" "char_of (120 :: nat) = CHR ''x''"
  by code_simp+

lemma demo_proc_env_sel:
  "get_tcp_table (pe_tcp4 demo_proc_env) = Inr [\<lparr>t4_local_addr = net_u32 (Ipv4Addr 10 0 0 2),
        t4_local_port = port_field 7 4000, t4_remote_addr = net_u32 (Ipv4Addr 8 8 8 8),
        t4_remote_port = port_field 9 443, t4_owning_pid = 42\<rparr>]"
  "get_udp_table (pe_udp4 demo_proc_env) = Inr []"
  "query_process_path demo_proc_env pid = Inr ''fox''"
  by (simp_all add: demo_proc_env_def get_tcp_table_def get_udp_table_def query_process_path_def
      from_utf16_lossy_def utf8_encode_def demo_chars Let_def)

lemma demo_tcp4_row: "tcp4_key \<lparr>t4_local_addr = net_u32 a, t4_local_port = port_field x p,
     t4_remote_addr = net_u32 b, t4_remote_port = port_field y q, t4_owning_pid = pid\<rparr> = (a, b, p, q)"
  by (simp add: tcp4_key_def ipv4_from_net port_field_low u16_from_be_net)

lemma demo_find_path:
  "\<exists>pl'. find_process_path_sync demo_proc_env False (SockV4 (Ipv4Addr 10 0 0 2) 4000) (SockV4 (Ipv4Addr 8 8 8 8) 443)
     demo_lookup_state = (Inr ''fox'', pl')"
proof -
  have "refresh_tcp_v4_cache demo_proc_env sc = Some (sc\<lparr>tcp_v4 := [((Ipv4Addr 10 0 0 2, Ipv4Addr 8 8 8 8, 4000, 443), 42)],
      tcp_v4_last_refresh := Some (pe_refresh demo_proc_env)\<rparr>)" for sc
    by (simp add: refresh_tcp_v4_cache_def demo_proc_env_sel(1) rebuild_tcp_v4_map_def hm_insert_def hm_empty_def
        demo_tcp4_row del: net_u32.simps)
  then show ?thesis
    by (simp add: find_process_path_sync_def find_pid_def find_pid_tcp_v4_cached_def find_cached_def
        demo_lookup_state_def is_stale_def lookup_tcp_v4_def hm_get_def hm_empty_def demo_proc_env_sel Let_def)
qed

theorem process_path_sound_witness:
  "\<exists>pl' pid. find_process_path_sync demo_proc_env False (SockV4 (Ipv4Addr 10 0 0 2) 4000) (SockV4 (Ipv4Addr 8 8 8 8) 443)
     demo_lookup_state = (Inr ''fox'', pl') \<and>
     system_owner demo_proc_env False (SockV4 (Ipv4Addr 10 0 0 2) 4000) (SockV4 (Ipv4Addr 8 8 8 8) 443) = Some (Some pid) \<and>
     hm_len (pl_cache pl') \<le> 1024"
proof -
  obtain pl' where f: "find_process_path_sync demo_proc_env False (SockV4 (Ipv4Addr 10 0 0 2) 4000)
      (SockV4 (Ipv4Addr 8 8 8 8) 443) demo_lookup_state = (Inr ''fox'', pl')"
    using demo_find_path by blast
  have "lookup_reachable demo_lookup_state" unfolding demo_lookup_state_def by (rule lookup_reachable.new)
  from process_path_sound [OF this f] f show ?thesis
    by (auto simp: demo_lookup_state_def lookup_tcp_v4_def hm.get_empty)
qed

theorem process_missing_only_if_unlisted_witness:
  "system_owner demo_proc_env True (SockV4 (Ipv4Addr 10 0 0 2) 53) (SockV4 (Ipv4Addr 8 8 8 8) 53) \<in> {None, Some None}"
proof -
  have "refresh_udp_v4_cache demo_proc_env sc = Some (sc\<lparr>udp_v4 := [], udp_v4_last_refresh := Some (pe_refresh demo_proc_env)\<rparr>)" for sc
    by (simp add: refresh_udp_v4_cache_def demo_proc_env_sel(2) rebuild_udp_v4_map_def hm_empty_def)
  then obtain pl' where "find_process_path_sync demo_proc_env True (SockV4 (Ipv4Addr 10 0 0 2) 53) (SockV4 (Ipv4Addr 8 8 8 8) 53)
      demo_lookup_state = (Inl (Msg ''process id not found''), pl')"
    by (simp add: find_process_path_sync_def find_pid_def find_pid_udp_v4_cached_def find_cached_def
        demo_lookup_state_def is_stale_def lookup_udp_v4_def hm_get_def v4_unspecified_def Let_def)
  from process_missing_only_if_unlisted [OF this] show ?thesis by simp
qed

end
