(* ===== verification/ProxyTasks.thy ===== *)
theory ProxyTasks
  imports Proxy
begin

text \<open>
  The three service tasks of a transparent proxy (\<open>accept_tcp_connections\<close>,
  \<open>accept_udp_connections\<close>, \<open>udp_worker_loop\<close> of \<open>src/src/proxy/transparent_proxy.rs\<close>) and the
  shutdown they take part in, as a state machine. A task waits in its \<open>select!\<close>, works in a
  branch, or has ended. \<open>notified()\<close> is a new future each time the \<open>select!\<close> is entered, so
  \<open>notify_waiters\<close> reaches exactly the tasks that are waiting at that moment, and a task that
  takes another ready branch drops the notification with the future.
\<close>

section \<open>State\<close>

text \<open>
  \<open>Spawned\<close>: spawned, and not yet in its loop; \<open>Selecting b\<close>: in the \<open>select!\<close>, where \<open>b\<close> says
  whether its \<open>notified()\<close> future has been woken; \<open>Busy\<close>: in the body of a branch.
\<close>

datatype task_pc = Spawned | Selecting bool | Busy | Ended

text \<open>
  \<open>pt_queued\<close> and \<open>pt_handled\<close> are the datagrams the acceptor put into the channel and the
  worker took out of it, in order; \<open>pt_queue\<close> is what is in the channel. \<open>pt_relays\<close> counts the
  relay tasks of accepted connections, which nobody waits for, and \<open>pt_readers\<close> the running
  readers of UDP associations.
\<close>

record 'p proxy_tasks =
  pt_tcp :: task_pc
  pt_udp :: task_pc
  pt_worker :: task_pc
  pt_queue :: "'p list"
  pt_queued :: "'p list"
  pt_handled :: "'p list"
  pt_relays :: nat
  pt_readers :: nat
  pt_stopping :: bool

definition tasks_started :: "'p proxy_tasks" where
  "tasks_started = \<lparr>pt_tcp = Spawned, pt_udp = Spawned, pt_worker = Spawned,
     pt_queue = [], pt_queued = [], pt_handled = [], pt_relays = 0, pt_readers = 0, pt_stopping = False\<rparr>"

section \<open>Steps\<close>

fun wake :: "task_pc \<Rightarrow> task_pc" where
  "wake Spawned = Spawned"
| "wake (Selecting b) = Selecting True"
| "wake Busy = Busy"
| "wake Ended = Ended"

text \<open>The first two lines of \<open>stop\<close>; the rest of it waits until every task has ended.\<close>

definition request_stop :: "'p proxy_tasks \<Rightarrow> 'p proxy_tasks" where
  "request_stop s = s\<lparr>pt_stopping := True, pt_tcp := wake (pt_tcp s), pt_udp := wake (pt_udp s),
     pt_worker := wake (pt_worker s)\<rparr>"

definition stop_returns :: "'p proxy_tasks \<Rightarrow> bool" where
  "stop_returns s \<longleftrightarrow> pt_stopping s \<and> pt_tcp s = Ended \<and> pt_udp s = Ended \<and> pt_worker s = Ended \<and>
     pt_readers s = 0"

datatype tcp_event = TcpEntered | TcpNotified | TcpAccepted | TcpAcceptError | TcpSlept

fun accept_tcp_step :: "tcp_event \<Rightarrow> 'p proxy_tasks \<Rightarrow> 'p proxy_tasks option" where
  "accept_tcp_step TcpEntered s =
     (if pt_tcp s = Spawned then Some (s\<lparr>pt_tcp := Selecting False\<rparr>) else None)"
| "accept_tcp_step TcpNotified s =
     (if pt_tcp s = Selecting True then Some (s\<lparr>pt_tcp := Ended\<rparr>) else None)"
| "accept_tcp_step TcpAccepted s =
     (case pt_tcp s of
        Selecting _ \<Rightarrow> Some (s\<lparr>pt_tcp := Selecting False, pt_relays := pt_relays s + 1\<rparr>)
      | _ \<Rightarrow> None)"
| "accept_tcp_step TcpAcceptError s =
     (case pt_tcp s of Selecting _ \<Rightarrow> Some (s\<lparr>pt_tcp := Busy\<rparr>) | _ \<Rightarrow> None)"
| "accept_tcp_step TcpSlept s =
     (if pt_tcp s = Busy then Some (s\<lparr>pt_tcp := Selecting False\<rparr>) else None)"

datatype 'p udp_event = UdpEntered | UdpNotified | UdpReceived 'p | UdpReceiveError | UdpSlept

text \<open>
  \<open>try_send\<close> fails when the queue is full, and when the worker has ended and dropped its end
  of the channel.
\<close>

fun accept_udp_step :: "'p udp_event \<Rightarrow> 'p proxy_tasks \<Rightarrow> 'p proxy_tasks option" where
  "accept_udp_step UdpEntered s =
     (if pt_udp s = Spawned then Some (s\<lparr>pt_udp := Selecting False\<rparr>) else None)"
| "accept_udp_step UdpNotified s =
     (if pt_udp s = Selecting True then Some (s\<lparr>pt_udp := Ended\<rparr>) else None)"
| "accept_udp_step (UdpReceived packet) s =
     (case pt_udp s of
        Selecting _ \<Rightarrow>
          if pt_worker s = Ended then Some (s\<lparr>pt_udp := Ended\<rparr>)
          else if UDP_QUEUE_SIZE \<le> length (pt_queue s) then Some (s\<lparr>pt_udp := Selecting False\<rparr>)
          else Some (s\<lparr>pt_udp := Selecting False, pt_queue := pt_queue s @ [packet],
                       pt_queued := pt_queued s @ [packet]\<rparr>)
      | _ \<Rightarrow> None)"
| "accept_udp_step UdpReceiveError s =
     (case pt_udp s of Selecting _ \<Rightarrow> Some (s\<lparr>pt_udp := Busy\<rparr>) | _ \<Rightarrow> None)"
| "accept_udp_step UdpSlept s =
     (if pt_udp s = Busy then Some (s\<lparr>pt_udp := Selecting False\<rparr>) else None)"

text \<open>
  \<open>ReaderSpawned\<close> is the end of \<open>handle_udp_packet\<close> on a new flow, which starts a reader.
\<close>

datatype worker_event =
  WorkerEntered | WorkerNotified | CleanupTick | WorkReceived | WorkClosed | ReaderSpawned | WorkDone

fun udp_worker_step :: "worker_event \<Rightarrow> 'p proxy_tasks \<Rightarrow> 'p proxy_tasks option" where
  "udp_worker_step WorkerEntered s =
     (if pt_worker s = Spawned then Some (s\<lparr>pt_worker := Selecting False\<rparr>) else None)"
| "udp_worker_step WorkerNotified s =
     (if pt_worker s = Selecting True then Some (s\<lparr>pt_worker := Ended\<rparr>) else None)"
| "udp_worker_step CleanupTick s =
     (case pt_worker s of Selecting _ \<Rightarrow> Some (s\<lparr>pt_worker := Busy\<rparr>) | _ \<Rightarrow> None)"
| "udp_worker_step WorkReceived s =
     (case (pt_worker s, pt_queue s) of
        (Selecting _, packet # rest) \<Rightarrow>
          Some (s\<lparr>pt_worker := Busy, pt_queue := rest, pt_handled := pt_handled s @ [packet]\<rparr>)
      | _ \<Rightarrow> None)"
| "udp_worker_step WorkClosed s =
     (case (pt_worker s, pt_queue s) of
        (Selecting _, []) \<Rightarrow> if pt_udp s = Ended then Some (s\<lparr>pt_worker := Ended\<rparr>) else None
      | _ \<Rightarrow> None)"
| "udp_worker_step ReaderSpawned s =
     (if pt_worker s = Busy then Some (s\<lparr>pt_worker := Selecting False, pt_readers := pt_readers s + 1\<rparr>) else None)"
| "udp_worker_step WorkDone s =
     (if pt_worker s = Busy then Some (s\<lparr>pt_worker := Selecting False\<rparr>) else None)"

text \<open>
  \<open>stop\<close> of the router calls this \<open>stop\<close> once. A reader looks at the shutdown flag at least every
  500 ms, so it can always end once the flag is set; it also ends on its own when its association
  is gone or broken (theory \<open>Proxy\<close>).
\<close>

inductive tasks_step :: "'p proxy_tasks \<Rightarrow> 'p proxy_tasks \<Rightarrow> bool" where
  stop: "\<not> pt_stopping s \<Longrightarrow> tasks_step s (request_stop s)"
| tcp: "accept_tcp_step e s = Some s' \<Longrightarrow> tasks_step s s'"
| udp: "accept_udp_step f s = Some s' \<Longrightarrow> tasks_step s s'"
| worker: "udp_worker_step g s = Some s' \<Longrightarrow> tasks_step s s'"
| reader: "0 < pt_readers s \<Longrightarrow> tasks_step s (s\<lparr>pt_readers := pt_readers s - 1\<rparr>)"

inductive_cases tasks_stepE: "tasks_step s s'"

abbreviation tasks_run :: "'p proxy_tasks \<Rightarrow> 'p proxy_tasks \<Rightarrow> bool" where
  "tasks_run \<equiv> tasks_step\<^sup>*\<^sup>*"

section \<open>Invariants\<close>

text \<open>A task that has not been woken and has not ended.\<close>

fun undisturbed_task :: "task_pc \<Rightarrow> bool" where
  "undisturbed_task Spawned = True"
| "undisturbed_task (Selecting woken) = (\<not> woken)"
| "undisturbed_task Busy = True"
| "undisturbed_task Ended = False"

definition tasks_inv :: "'p proxy_tasks \<Rightarrow> bool" where
  "tasks_inv s \<longleftrightarrow> length (pt_queue s) \<le> UDP_QUEUE_SIZE \<and> pt_queued s = pt_handled s @ pt_queue s \<and>
     (pt_stopping s \<or> undisturbed_task (pt_tcp s) \<and> undisturbed_task (pt_udp s) \<and> undisturbed_task (pt_worker s))"

lemma wake_Ended [simp]: "wake pc = Ended \<longleftrightarrow> pc = Ended"
  by (cases pc) auto

lemma tasks_inv_tcp: "accept_tcp_step e s = Some s' \<Longrightarrow> tasks_inv s \<Longrightarrow> tasks_inv s'"
  by (cases e; cases "pt_tcp s") (auto simp: tasks_inv_def split: if_splits)

lemma tasks_inv_udp: "accept_udp_step e s = Some s' \<Longrightarrow> tasks_inv s \<Longrightarrow> tasks_inv s'"
  by (cases e; cases "pt_udp s") (auto simp: tasks_inv_def split: if_splits)

lemma tasks_inv_worker: "udp_worker_step e s = Some s' \<Longrightarrow> tasks_inv s \<Longrightarrow> tasks_inv s'"
  by (cases e; cases "pt_worker s"; cases "pt_queue s") (auto simp: tasks_inv_def split: if_splits)

lemma tasks_inv_step: "tasks_step s s' \<Longrightarrow> tasks_inv s \<Longrightarrow> tasks_inv s'"
proof (induction rule: tasks_step.induct)
  case (stop s)
  then show ?case by (simp add: tasks_inv_def request_stop_def)
next
  case (reader s)
  then show ?case by (simp add: tasks_inv_def)
qed (blast intro: tasks_inv_tcp tasks_inv_udp tasks_inv_worker)+

lemma tasks_inv_run: "tasks_run tasks_started s \<Longrightarrow> tasks_inv s"
  by (induction rule: rtranclp_induct) (auto intro: tasks_inv_step, simp add: tasks_inv_def tasks_started_def)

text \<open>C33: At every moment the channel holds at most 1024 datagrams, every datagram accepted into it is
  handled once and in the order of arrival, and no task ends before \<open>stop\<close> is called.\<close>
theorem service_tasks_invariant:
  assumes "tasks_run tasks_started s"
  shows "length (pt_queue s) \<le> 1024 \<and> pt_queued s = pt_handled s @ pt_queue s \<and>
    (\<not> pt_stopping s \<longrightarrow> pt_tcp s \<noteq> Ended \<and> pt_udp s \<noteq> Ended \<and> pt_worker s \<noteq> Ended)"
  using tasks_inv_run [OF assms] by (auto simp: tasks_inv_def UDP_QUEUE_SIZE_def)

lemma tasks_run_step: "tasks_step s s' \<Longrightarrow> tasks_run s' t \<Longrightarrow> tasks_run s t"
  by (rule converse_rtranclp_into_rtranclp)

lemma tasks_run_events:
  "accept_tcp_step e s = Some s' \<Longrightarrow> tasks_run s s'"
  "accept_udp_step f s = Some s' \<Longrightarrow> tasks_run s s'"
  "udp_worker_step g s = Some s' \<Longrightarrow> tasks_run s s'"
  by (auto intro: tasks_step.intros)

definition demo_working :: "nat proxy_tasks" where
  "demo_working = \<lparr>pt_tcp = Spawned, pt_udp = Selecting False, pt_worker = Busy, pt_queue = [],
     pt_queued = [7], pt_handled = [7], pt_relays = 0, pt_readers = 0, pt_stopping = False\<rparr>"

lemma tasks_run_demo: "tasks_run tasks_started demo_working"
proof -
  let ?enter = "\<lambda>s. the (accept_udp_step UdpEntered s)" and ?recv = "\<lambda>s. the (accept_udp_step (UdpReceived 7) s)"
  and ?went = "\<lambda>s. the (udp_worker_step WorkerEntered s)" and ?work = "\<lambda>s. the (udp_worker_step WorkReceived s)"
  let ?s = "tasks_started :: nat proxy_tasks"
  have "tasks_run ?s (?enter ?s)"
    by (rule tasks_run_events(2) [where f = UdpEntered]) (simp add: tasks_started_def)
  also have "tasks_run (?enter ?s) (?recv (?enter ?s))"
    by (rule tasks_run_events(2) [where f = "UdpReceived 7"]) (simp add: tasks_started_def UDP_QUEUE_SIZE_def)
  also have "tasks_run (?recv (?enter ?s)) (?went (?recv (?enter ?s)))"
    by (rule tasks_run_events(3) [where g = WorkerEntered]) (simp add: tasks_started_def UDP_QUEUE_SIZE_def)
  also have "tasks_run (?went (?recv (?enter ?s))) (?work (?went (?recv (?enter ?s))))"
    by (rule tasks_run_events(3) [where g = WorkReceived]) (simp add: tasks_started_def UDP_QUEUE_SIZE_def)
  also have "?work (?went (?recv (?enter ?s))) = demo_working"
    by (simp add: tasks_started_def UDP_QUEUE_SIZE_def demo_working_def)
  finally show ?thesis .
qed

theorem service_tasks_invariant_witness:
  "length (pt_queue demo_working) \<le> 1024 \<and> pt_handled demo_working = [7] \<and>
   pt_queued demo_working = pt_handled demo_working @ pt_queue demo_working \<and> pt_tcp demo_working \<noteq> Ended"
  using service_tasks_invariant [OF tasks_run_demo] by (auto simp: demo_working_def)

section \<open>Shutdown\<close>

text \<open>The task has the notification, or has already ended.\<close>

fun has_wakeup :: "task_pc \<Rightarrow> bool" where
  "has_wakeup Spawned = False"
| "has_wakeup (Selecting woken) = woken"
| "has_wakeup Busy = False"
| "has_wakeup Ended = True"

text \<open>
  What it takes for \<open>stop\<close> to come back: the TCP acceptor has the notification, and so has one of
  the two UDP tasks, since each of them also ends when the other one has dropped its end of the channel.
\<close>

definition wakeup_received :: "'p proxy_tasks \<Rightarrow> bool" where
  "wakeup_received s \<longleftrightarrow> has_wakeup (pt_tcp s) \<and> (has_wakeup (pt_udp s) \<or> has_wakeup (pt_worker s))"

lemma no_late_wakeup_tcp:
  "accept_tcp_step e s = Some s' \<Longrightarrow> wakeup_received s' \<Longrightarrow> pt_stopping s' = pt_stopping s \<and> wakeup_received s"
  by (cases e; cases "pt_tcp s") (auto simp: wakeup_received_def split: if_splits)

lemma no_late_wakeup_udp:
  "accept_udp_step e s = Some s' \<Longrightarrow> wakeup_received s' \<Longrightarrow> pt_stopping s' = pt_stopping s \<and> wakeup_received s"
  by (cases e; cases "pt_udp s") (auto simp: wakeup_received_def split: if_splits)

lemma no_late_wakeup_worker:
  "udp_worker_step e s = Some s' \<Longrightarrow> wakeup_received s' \<Longrightarrow> pt_stopping s' = pt_stopping s \<and> wakeup_received s"
  by (cases e; cases "pt_worker s"; cases "pt_queue s") (auto simp: wakeup_received_def split: if_splits)

lemma stopping_step: "tasks_step s s' \<Longrightarrow> pt_stopping s \<Longrightarrow> pt_stopping s'"
proof (induction rule: tasks_step.induct)
  case (tcp e s s')
  then show ?case by (cases e; cases "pt_tcp s") (auto split: if_splits)
next
  case (udp e s s')
  then show ?case by (cases e; cases "pt_udp s") (auto split: if_splits)
next
  case (worker e s s')
  then show ?case by (cases e; cases "pt_worker s"; cases "pt_queue s") (auto split: if_splits)
qed simp_all

text \<open>After \<open>notify_waiters\<close> no task gets the notification any more.\<close>

lemma no_late_wakeup: "tasks_step s s' \<Longrightarrow> pt_stopping s \<Longrightarrow> wakeup_received s' \<Longrightarrow> wakeup_received s"
proof (induction rule: tasks_step.induct)
  case (reader s)
  then show ?case by (simp add: wakeup_received_def)
qed (blast dest: no_late_wakeup_tcp no_late_wakeup_udp no_late_wakeup_worker)+

lemma no_late_wakeups:
  "tasks_run s s' \<Longrightarrow> pt_stopping s \<Longrightarrow> wakeup_received s' \<Longrightarrow> wakeup_received s"
proof (induction rule: converse_rtranclp_induct)
  case (step s t)
  then show ?case by (blast intro: no_late_wakeup stopping_step)
qed

lemma returned_wakeup: "stop_returns s \<Longrightarrow> wakeup_received s"
  by (simp add: stop_returns_def wakeup_received_def)

lemma already_there:
  "pt_tcp s = pc \<Longrightarrow> s\<lparr>pt_tcp := pc\<rparr> = s"
  "pt_udp s = pc \<Longrightarrow> s\<lparr>pt_udp := pc\<rparr> = s"
  "pt_worker s = pc \<Longrightarrow> s\<lparr>pt_worker := pc\<rparr> = s"
  by auto

lemma tcp_can_end: "has_wakeup (pt_tcp s) \<Longrightarrow> tasks_run s (s\<lparr>pt_tcp := Ended\<rparr>)"
  by (cases "pt_tcp s") (auto intro!: tasks_run_events(1) [where e = TcpNotified] simp: already_there)

lemma udp_can_end: "has_wakeup (pt_udp s) \<Longrightarrow> tasks_run s (s\<lparr>pt_udp := Ended\<rparr>)"
  by (cases "pt_udp s") (auto intro!: tasks_run_events(2) [where f = UdpNotified] simp: already_there)

lemma worker_can_end: "has_wakeup (pt_worker s) \<Longrightarrow> tasks_run s (s\<lparr>pt_worker := Ended\<rparr>)"
  by (cases "pt_worker s") (auto intro!: tasks_run_events(3) [where g = WorkerNotified] simp: already_there)

lemma udp_enters:
  assumes "pt_udp s \<noteq> Ended"
  obtains b where "tasks_run s (s\<lparr>pt_udp := Selecting b\<rparr>)"
proof (cases "pt_udp s")
  case Spawned
  then show ?thesis by (intro that tasks_run_events(2) [where f = UdpEntered]) simp
next
  case (Selecting b)
  then show ?thesis using that [of b] by (simp add: already_there)
next
  case Busy
  then show ?thesis by (intro that tasks_run_events(2) [where f = UdpSlept]) simp
qed (use assms in simp)

lemma worker_enters:
  assumes "pt_worker s \<noteq> Ended"
  obtains b where "tasks_run s (s\<lparr>pt_worker := Selecting b\<rparr>)"
proof (cases "pt_worker s")
  case Spawned
  then show ?thesis by (intro that tasks_run_events(3) [where g = WorkerEntered]) simp
next
  case (Selecting b)
  then show ?thesis using that [of b] by (simp add: already_there)
next
  case Busy
  then show ?thesis by (intro that tasks_run_events(3) [where g = WorkDone]) simp
qed (use assms in simp)

text \<open>With the worker gone, the next datagram ends the acceptor.\<close>

lemma udp_ends_after_worker:
  assumes "pt_worker s = Ended"
  shows "tasks_run s (s\<lparr>pt_udp := Ended\<rparr>)"
proof (cases "pt_udp s = Ended")
  case True
  then have "s\<lparr>pt_udp := Ended\<rparr> = s" by simp
  then show ?thesis by simp
next
  case False
  then obtain b where b: "tasks_run s (s\<lparr>pt_udp := Selecting b\<rparr>)" by (rule udp_enters)
  have "tasks_run (s\<lparr>pt_udp := Selecting b\<rparr>) (s\<lparr>pt_udp := Ended\<rparr>)"
    by (rule tasks_run_events(2) [where f = "UdpReceived undefined"]) (simp add: assms)
  then show ?thesis using b by (rule rtranclp_trans [rotated])
qed

text \<open>With the acceptor gone, the worker handles what is left in the channel and ends.\<close>

lemma worker_ends_after_udp:
  assumes "pt_udp s = Ended"
  shows "\<exists>s'. tasks_run s s' \<and> pt_worker s' = Ended \<and> pt_udp s' = Ended \<and> pt_tcp s' = pt_tcp s \<and>
    pt_stopping s' = pt_stopping s"
  using assms
proof (induction "pt_queue s" arbitrary: s)
  case Nil
  show ?case
  proof (cases "pt_worker s = Ended")
    case False
    then obtain b where b: "tasks_run s (s\<lparr>pt_worker := Selecting b\<rparr>)" by (rule worker_enters)
    have "tasks_run (s\<lparr>pt_worker := Selecting b\<rparr>) (s\<lparr>pt_worker := Ended\<rparr>)"
      by (rule tasks_run_events(3) [where g = WorkClosed]) (simp add: Nil [symmetric])
    with b have "tasks_run s (s\<lparr>pt_worker := Ended\<rparr>)" by (rule rtranclp_trans)
    with Nil(2) show ?thesis by (intro exI [of _ "s\<lparr>pt_worker := Ended\<rparr>"]) simp
  qed (use Nil in blast)
next
  case (Cons p q)
  show ?case
  proof (cases "pt_worker s = Ended")
    case False
    then obtain b where b: "tasks_run s (s\<lparr>pt_worker := Selecting b\<rparr>)" by (rule worker_enters)
    let ?t = "s\<lparr>pt_worker := Busy, pt_queue := q, pt_handled := pt_handled s @ [p]\<rparr>"
    have "tasks_run (s\<lparr>pt_worker := Selecting b\<rparr>) ?t"
      by (rule tasks_run_events(3) [where g = WorkReceived]) (simp add: Cons.hyps(2) [symmetric])
    with b have st: "tasks_run s ?t" by (rule rtranclp_trans)
    have "\<exists>s'. tasks_run ?t s' \<and> pt_worker s' = Ended \<and> pt_udp s' = Ended \<and> pt_tcp s' = pt_tcp ?t \<and>
        pt_stopping s' = pt_stopping ?t"
      by (rule Cons.hyps(1)) (simp_all add: Cons.prems)
    with st show ?thesis by (auto intro: rtranclp_trans)
  qed (use Cons.prems in blast)
qed

lemma readers_can_end: "\<exists>s'. tasks_run s s' \<and> s' = s\<lparr>pt_readers := 0\<rparr>"
proof (induction "pt_readers s" arbitrary: s)
  case 0
  then have "s\<lparr>pt_readers := 0\<rparr> = s" by simp
  then show ?case by simp
next
  case (Suc n)
  let ?t = "s\<lparr>pt_readers := pt_readers s - 1\<rparr>"
  have "tasks_step s ?t" by (rule tasks_step.reader) (simp add: Suc.hyps(2) [symmetric])
  moreover have "tasks_run ?t (?t\<lparr>pt_readers := 0\<rparr>)" using Suc.hyps(1) [of ?t] Suc.hyps(2) by simp
  ultimately show ?case by (simp add: converse_rtranclp_into_rtranclp)
qed

lemma udp_tasks_can_end:
  assumes "has_wakeup (pt_udp s) \<or> has_wakeup (pt_worker s)"
  shows "\<exists>s'. tasks_run s s' \<and> pt_worker s' = Ended \<and> pt_udp s' = Ended \<and> pt_tcp s' = pt_tcp s \<and>
    pt_stopping s' = pt_stopping s"
  using assms
proof
  assume "has_wakeup (pt_udp s)"
  then have "tasks_run s (s\<lparr>pt_udp := Ended\<rparr>)" by (rule udp_can_end)
  then show ?thesis using worker_ends_after_udp [of "s\<lparr>pt_udp := Ended\<rparr>"] by (auto intro: rtranclp_trans)
next
  assume "has_wakeup (pt_worker s)"
  then have "tasks_run s (s\<lparr>pt_worker := Ended\<rparr>)" by (rule worker_can_end)
  also have "tasks_run \<dots> (s\<lparr>pt_worker := Ended, pt_udp := Ended\<rparr>)"
    using udp_ends_after_worker [of "s\<lparr>pt_worker := Ended\<rparr>"] by simp
  finally show ?thesis by (intro exI [of _ "s\<lparr>pt_worker := Ended, pt_udp := Ended\<rparr>"]) simp
qed

text \<open>C12: After \<open>stop\<close> has been called it can still return exactly if its one notification found the TCP
  acceptor waiting and at least one of the two UDP tasks waiting; otherwise no continuation lets it return.\<close>
theorem stop_can_return_iff:
  assumes "tasks_run tasks_started s" and "pt_stopping s"
  shows "(\<exists>s'. tasks_run s s' \<and> stop_returns s') \<longleftrightarrow> wakeup_received s"
proof
  assume "\<exists>s'. tasks_run s s' \<and> stop_returns s'"
  then show "wakeup_received s" using no_late_wakeups assms(2) returned_wakeup by blast
next
  assume w: "wakeup_received s"
  then obtain t where t: "tasks_run s t" "pt_worker t = Ended" "pt_udp t = Ended" "pt_tcp t = pt_tcp s" "pt_stopping t"
    using udp_tasks_can_end [of s] assms(2) by (auto simp: wakeup_received_def)
  then have "tasks_run t (t\<lparr>pt_tcp := Ended\<rparr>)" using w by (auto simp: wakeup_received_def intro: tcp_can_end)
  with t(1) have "tasks_run s (t\<lparr>pt_tcp := Ended\<rparr>)" by (rule rtranclp_trans)
  also have "tasks_run \<dots> (t\<lparr>pt_tcp := Ended, pt_readers := 0\<rparr>)"
    using readers_can_end [of "t\<lparr>pt_tcp := Ended\<rparr>"] by simp
  finally show "\<exists>s'. tasks_run s s' \<and> stop_returns s'"
    using t by (intro exI [of _ "t\<lparr>pt_tcp := Ended, pt_readers := 0\<rparr>"]) (simp add: stop_returns_def)
qed

text \<open>In \<open>demo_working\<close> the TCP acceptor has not reached its \<open>select!\<close> when \<open>stop\<close> is called.\<close>

lemma tasks_run_demo_stop: "tasks_run tasks_started (request_stop demo_working)"
  by (rule rtranclp.rtrancl_into_rtrancl [OF tasks_run_demo tasks_step.stop]) (simp add: demo_working_def)

theorem stop_can_return_iff_witness:
  "\<not> (\<exists>s'. tasks_run (request_stop demo_working) s' \<and> stop_returns s') \<and> pt_stopping (request_stop demo_working)"
  using stop_can_return_iff [OF tasks_run_demo_stop] by (simp add: demo_working_def request_stop_def wakeup_received_def)

end
