(* ===== verification/F64.thy ===== *)
theory F64
  imports Prelude "HOL-Library.Log_Nat"
begin

text \<open>
  The double precision arithmetic that the status bar and the CPU sampler use. Every number
  there is finite, not negative and far from the ends of the exponent range, so a \<open>f64\<close> is the
  rational number it stands for, and an operation is the exact result rounded to 53 significant
  bits, ties to even. The text forms \<open>{:.1}\<close> and \<open>{:.2}\<close> round the exact value to that many
  decimals, ties to even.
\<close>

named_theorems f64_simps \<open>unfolding of the operations on f64\<close>

type_synonym f64 = rat

section \<open>Rounding\<close>

definition round_half_even :: "rat \<Rightarrow> int" where
  "round_half_even x =
     (let f = \<lfloor>x\<rfloor>; d = x - of_int f in
      if 1 / 2 < d \<or> d = 1 / 2 \<and> odd f then f + 1 else f)"

text \<open>
  The exponent of the last place. The two bit lengths fix it up to one, and the comparison
  decides.
\<close>

definition last_place :: "rat \<Rightarrow> int" where
  "last_place v =
     (let (p, q) = quotient_of v; k = bitlen p - bitlen q - 53 in
      if v < 2 ^ 53 * 2 powi k then k else k + 1)"

definition f64_round :: "rat \<Rightarrow> f64" where
  "f64_round v = (if v = 0 then 0 else of_int (round_half_even (v / 2 powi last_place v)) * 2 powi last_place v)"

definition f64_of_nat :: "nat \<Rightarrow> f64" where
  [f64_simps]: "f64_of_nat n = f64_round (of_nat n)"

definition f64_of_u64 :: "u64 \<Rightarrow> f64" where
  [f64_simps]: "f64_of_u64 w = f64_of_nat (unat w)"

definition f64_add :: "f64 \<Rightarrow> f64 \<Rightarrow> f64" where
  [f64_simps]: "f64_add a b = f64_round (a + b)"

definition f64_mul :: "f64 \<Rightarrow> f64 \<Rightarrow> f64" where
  [f64_simps]: "f64_mul a b = f64_round (a * b)"

definition f64_div :: "f64 \<Rightarrow> f64 \<Rightarrow> f64" where
  [f64_simps]: "f64_div a b = f64_round (a / b)"

definition f64_clamp :: "f64 \<Rightarrow> f64 \<Rightarrow> f64 \<Rightarrow> f64" where
  [f64_simps]: "f64_clamp lo hi a = (if a < lo then lo else if hi < a then hi else a)"

text \<open>\<open>f64::round\<close> takes halves away from zero; \<open>as u64\<close> saturates.\<close>

definition f64_round_int :: "f64 \<Rightarrow> f64" where
  [f64_simps]: "f64_round_int a = (if 0 \<le> a then of_int \<lfloor>a + 1 / 2\<rfloor> else of_int \<lceil>a - 1 / 2\<rceil>)"

definition f64_to_u64 :: "f64 \<Rightarrow> u64" where
  [f64_simps]: "f64_to_u64 a = (if 2 ^ 64 \<le> a then 2 ^ 64 - 1 else of_nat (nat \<lfloor>a\<rfloor>))"

text \<open>\<open>Duration::as_secs_f64\<close>.\<close>

definition as_secs_f64 :: "duration \<Rightarrow> f64" where
  [f64_simps]: "as_secs_f64 d =
     f64_add (f64_of_nat (d div from_secs 1)) (f64_div (f64_of_nat (d mod from_secs 1)) (10 ^ 9))"

section \<open>Text\<close>

definition pad_left :: "nat \<Rightarrow> char \<Rightarrow> string \<Rightarrow> string" where
  "pad_left w c s = replicate (w - length s) c @ s"

definition show_fixed :: "nat \<Rightarrow> f64 \<Rightarrow> string" where
  "show_fixed d v =
     (let t = nat (round_half_even (v * 10 ^ d)) in
      show_nat (t div 10 ^ d) @ ''.'' @ pad_left d CHR ''0'' (show_nat (t mod 10 ^ d)))"

section \<open>Accuracy of rounding\<close>

lemma round_half_even_error: "\<bar>of_int (round_half_even x) - x\<bar> \<le> 1 / 2"
proof -
  have "of_int \<lfloor>x\<rfloor> \<le> x" "x < of_int \<lfloor>x\<rfloor> + 1" by linarith+
  then show ?thesis by (auto simp: round_half_even_def Let_def abs_le_iff)
qed

lemma round_half_even_int [simp]: "round_half_even (of_int n) = n"
  by (simp add: round_half_even_def)

lemma bitlen_power_bounds:
  assumes "0 < (n::int)"
  shows "2 powi (bitlen n - 1) \<le> (of_int n :: rat)" and "(of_int n :: rat) < 2 powi bitlen n"
proof -
  have b: "0 < bitlen n" using assms bitlen_nonneg [of n] bitlen_eq_zero_iff [of n] by linarith
  from bitlen_bounds [OF assms]
  have "(of_int (2 ^ nat (bitlen n - 1)) :: rat) \<le> of_int n" "(of_int n :: rat) < of_int (2 ^ nat (bitlen n))"
    by (simp_all only: of_int_le_iff of_int_less_iff)
  then show "2 powi (bitlen n - 1) \<le> (of_int n :: rat)" "(of_int n :: rat) < 2 powi bitlen n"
    using b by (simp_all add: power_int_def)
qed

lemma powi_split: "(2::rat) powi (a + int k) = 2 ^ k * 2 powi a"
  by (simp add: power_int_add)

lemma last_place_bounds:
  assumes "0 < v"
  shows "2 ^ 52 * 2 powi last_place v \<le> v" and "v < 2 ^ 53 * 2 powi last_place v"
proof -
  obtain p q where pq: "quotient_of v = (p, q)" by force
  then have v: "v = of_int p / of_int q" and q: "0 < q"
    by (auto simp: quotient_of_div quotient_of_denom_pos)
  with assms have p: "0 < p" by (simp add: zero_less_divide_iff)
  define k where "k = bitlen p - bitlen q - 53"
  note bp = bitlen_power_bounds [OF p] and bq = bitlen_power_bounds [OF q]
  have "bitlen p - 1 = (k + bitlen q) + int 52" "bitlen p = (k + (bitlen q - 1)) + int 54"
    by (simp_all add: k_def)
  then have e1: "2 powi (bitlen p - 1) = (2 ^ 52 * 2 powi k * 2 powi bitlen q :: rat)"
    and e2: "2 powi bitlen p = (2 ^ 54 * 2 powi k * 2 powi (bitlen q - 1) :: rat)"
    by (simp_all only: powi_split) (simp_all add: power_int_add)
  have "2 ^ 52 * 2 powi k * of_int q \<le> (2 ^ 52 * 2 powi k * 2 powi bitlen q :: rat)"
    using bq(2) by (simp add: mult_left_mono)
  also have "\<dots> \<le> of_int p" using bp(1) e1 by simp
  finally have lo: "2 ^ 52 * 2 powi k \<le> v" using q by (simp add: v pos_le_divide_eq)
  have "of_int p < (2 ^ 54 * 2 powi k * 2 powi (bitlen q - 1) :: rat)" using bp(2) e2 by simp
  also have "\<dots> \<le> 2 ^ 54 * 2 powi k * of_int q" using bq(1) by (simp add: mult_left_mono)
  finally have hi: "v < 2 ^ 54 * 2 powi k" using q by (simp add: v pos_divide_less_eq)
  have lp: "last_place v = (if v < 2 ^ 53 * 2 powi k then k else k + 1)"
    by (simp add: last_place_def pq Let_def k_def)
  show "2 ^ 52 * 2 powi last_place v \<le> v" using lo by (simp add: lp power_int_add)
  show "v < 2 ^ 53 * 2 powi last_place v" using hi by (simp add: lp power_int_add)
qed

text \<open>The relative error of one rounding.\<close>

lemma f64_round_error:
  assumes "0 \<le> v"
  shows "\<bar>f64_round v - v\<bar> \<le> v / 2 ^ 53"
proof (cases "v = 0")
  case False
  with assms have pos: "0 < v" by simp
  let ?u = "2 powi last_place v :: rat"
  have u: "0 < ?u" by simp
  have "f64_round v - v = (of_int (round_half_even (v / ?u)) - v / ?u) * ?u"
    using False u by (simp add: f64_round_def left_diff_distrib)
  then have "\<bar>f64_round v - v\<bar> = \<bar>of_int (round_half_even (v / ?u)) - v / ?u\<bar> * ?u"
    using u by (simp add: abs_mult)
  also have "\<dots> \<le> 1 / 2 * ?u" using round_half_even_error [of "v / ?u"] u by (intro mult_right_mono) auto
  also have "\<dots> \<le> v / 2 ^ 53" using last_place_bounds(1) [OF pos] by simp
  finally show ?thesis .
qed (simp add: f64_round_def)

lemma f64_round_nonneg: "0 \<le> v \<Longrightarrow> 0 \<le> f64_round v"
proof -
  assume v: "0 \<le> v"
  then have "v / 2 ^ 53 \<le> v" by (simp add: field_simps)
  with f64_round_error [OF v] show ?thesis by linarith
qed

text \<open>Fractions with at most 53 significant bits are not changed.\<close>

lemma f64_round_exact:
  assumes "n < 2 ^ 53"
  shows "f64_round (of_nat n / 2 ^ k) = of_nat n / 2 ^ k"
proof (cases "n = 0")
  case False
  let ?v = "of_nat n / 2 ^ k :: rat" and ?e = "last_place (of_nat n / 2 ^ k)"
  have pos: "0 < ?v" using False by simp
  have "of_nat n < (2 ^ 53 :: rat)" using assms by (metis of_nat_less_iff of_nat_numeral of_nat_power)
  then have "2 ^ 52 * 2 powi ?e < (2 ^ 53 / 2 ^ k :: rat)"
    using last_place_bounds(1) [OF pos] by (simp add: field_simps)
  then have "2 powi ?e < (2 powi (1 - int k) :: rat)"
    by (simp add: power_int_diff field_simps)
  then have "?e \<le> - int k" 
    using power_int_increasing [of "1 - int k" ?e "2::rat"] by linarith
  then obtain j where j: "?e = - int k - int j" by (metis diff_add_cancel zle_iff_zadd add.commute minus_diff_eq diff_minus_eq_add add_uminus_conv_diff)
  have q: "?v / 2 powi ?e = of_int (int n * 2 ^ j)"
    by (simp add: j power_int_diff power_int_minus field_simps)
  have "f64_round ?v = of_int (round_half_even (of_int (int n * 2 ^ j))) * 2 powi ?e"
    using False by (simp only: f64_round_def q) simp
  also have "\<dots> = ?v / 2 powi ?e * 2 powi ?e" by (simp only: round_half_even_int q)
  also have "\<dots> = ?v" by simp
  finally show ?thesis .
qed (simp add: f64_round_def)

lemma f64_of_nat_exact: "n < 2 ^ 53 \<Longrightarrow> f64_of_nat n = of_nat n"
  using f64_round_exact [of n 0] by (simp add: f64_of_nat_def)

end
