(* ===== verification/Logging.thy ===== *)
theory Logging
  imports F64
begin

text \<open>
  The logger, \<open>src/src/logging.rs\<close>: the line format, the bounded buffer of recent lines that
  the status screen shows, the log file, and the one-time initialisation. \<open>log\<close> holds the lock
  of the buffer until it has written to the file, so concurrent messages are whole steps.
  The text of the time stamp and of the message are arguments; file system and executable path
  are fields of \<open>log_env\<close>.
\<close>

definition MAX_LOG_LINES :: nat where
  "MAX_LOG_LINES = 50"

datatype log_level = LevelError | LevelWarn | LevelInfo | LevelDebug | LevelTrace

fun level_name :: "log_level \<Rightarrow> string" where
  "level_name LevelError = ''ERROR''"
| "level_name LevelWarn = ''WARN''"
| "level_name LevelInfo = ''INFO''"
| "level_name LevelDebug = ''DEBUG''"
| "level_name LevelTrace = ''TRACE''"

text \<open>\<open>log_file\<close> is the contents of the open file, if it could be opened.\<close>

record tui_logger =
  log_lines :: "string list"
  log_file :: "string option"

text \<open>
  A message, with what the two writes to the file do: \<open>None\<close> writes everything, \<open>Some n\<close> fails
  after \<open>n\<close> bytes. Failures are ignored.
\<close>

record log_message =
  msg_time :: string
  msg_level :: log_level
  msg_args :: string
  msg_write_line :: "nat option"
  msg_write_newline :: "nat option"

definition log_line :: "log_message \<Rightarrow> string" where
  "log_line m = ''['' @ msg_time m @ ''] ['' @ pad_left 5 CHR '' '' (level_name (msg_level m)) @ ''] '' @ msg_args m"

definition file_write_all :: "nat option \<Rightarrow> string \<Rightarrow> string \<Rightarrow> string" where
  "file_write_all outcome text file = file @ (case outcome of None \<Rightarrow> text | Some n \<Rightarrow> take n text)"

definition log_record :: "log_message \<Rightarrow> tui_logger \<Rightarrow> tui_logger" where
  "log_record m l =
     (let line = log_line m;
          pushed = log_lines l @ [line];
          l = l\<lparr>log_lines := (if MAX_LOG_LINES < length pushed then tl pushed else pushed)\<rparr> in
      case log_file l of
        None \<Rightarrow> l
      | Some file \<Rightarrow>
          let file = file_write_all (msg_write_line m) line file;
              file = file_write_all (msg_write_newline m) [CHR 0x0A] file
          in l\<lparr>log_file := Some file\<rparr>)"

section \<open>Initialisation\<close>

record log_env =
  le_current_exe :: "string option"
  le_file_name :: "string \<Rightarrow> string option"
  le_parent :: "string \<Rightarrow> string option"
  le_push :: "string \<Rightarrow> string \<Rightarrow> string"
  le_open_append :: "string \<Rightarrow> string option"

text \<open>The process-wide statics: \<open>LOGGER\<close>, the logger of the \<open>log\<close> crate, and its level.\<close>

record log_statics =
  ls_logger :: "tui_logger option"
  ls_installed :: bool
  ls_max_level :: "log_level option"

definition get_executable_dir :: "log_env \<Rightarrow> string option" where
  "get_executable_dir env =
     Option.bind (le_current_exe env) (\<lambda>exe_path.
       if le_file_name env exe_path \<noteq> None then
         Some (case le_parent env exe_path of Some dir \<Rightarrow> dir | None \<Rightarrow> exe_path)
       else Some exe_path)"

text \<open>\<open>set_logger\<close> succeeds for the first logger of the process only.\<close>

definition logging_init :: "log_env \<Rightarrow> string list \<Rightarrow> log_statics \<Rightarrow> (string + unit) \<times> log_statics" where
  "logging_init env logs s =
     (if ls_logger s \<noteq> None then (Inr (), s)
      else
        let file = Option.bind (get_executable_dir env) (\<lambda>dir. le_open_append env (le_push env dir ''proxifyre.log''));
            s = s\<lparr>ls_logger := Some \<lparr>log_lines = logs, log_file = file\<rparr>\<rparr> in
        if ls_installed s then (Inl ''SetLoggerError'', s)
        else (Inr (), s\<lparr>ls_installed := True, ls_max_level := Some LevelInfo\<rparr>))"

section \<open>The buffer holds the latest lines\<close>

text \<open>The last \<open>n\<close> elements of a list.\<close>

definition latest :: "nat \<Rightarrow> 'a list \<Rightarrow> 'a list" where
  "latest n xs = drop (length xs - n) xs"

lemma latest_snoc:
  assumes "0 < n"
  shows "(if n < length (latest n xs @ [x]) then tl (latest n xs @ [x]) else latest n xs @ [x]) = latest n (xs @ [x])"
proof (cases "n \<le> length xs")
  case True
  with assms have "latest n xs \<noteq> []" "n < length (latest n xs @ [x])" by (simp_all add: latest_def)
  moreover have "tl (latest n xs) = drop (Suc (length xs) - n) xs"
    using True by (simp add: latest_def tl_drop drop_Suc Suc_diff_le)
  ultimately show ?thesis using True assms by (simp add: latest_def)
next
  case False
  with assms show ?thesis by (simp add: latest_def)
qed

lemma rev_latest: "rev (latest n xs) = take n (rev xs)"
  by (simp add: latest_def take_rev)

lemma log_record_lines:
  "log_lines l = latest MAX_LOG_LINES xs \<Longrightarrow> log_lines (log_record m l) = latest MAX_LOG_LINES (xs @ [log_line m])"
  using latest_snoc [of MAX_LOG_LINES xs "log_line m", symmetric]
  by (simp add: log_record_def Let_def MAX_LOG_LINES_def split: option.split)

text \<open>The buffer summarises the messages by their latest lines.\<close>

interpretation log_buffer: history log_record log_lines "\<lambda>ms. latest MAX_LOG_LINES (map log_line ms)"
    "\<lambda>_. True" "\<lambda>_. True"
  by unfold_locales (auto intro: log_record_lines)

definition writes_succeed :: "log_message \<Rightarrow> bool" where
  "writes_succeed m \<longleftrightarrow> msg_write_line m = None \<and> msg_write_newline m = None"

text \<open>The file, behind what was in it, summarises them by all their lines.\<close>

interpretation log_file: history log_record "\<lambda>l. case log_file l of Some contents \<Rightarrow> contents | None \<Rightarrow> []"
    "\<lambda>ms. before @ concat (map (\<lambda>m. log_line m @ [CHR 0x0A]) ms)" "list_all writes_succeed"
    "\<lambda>l. log_file l \<noteq> None" for before
  by unfold_locales (auto simp: log_record_def Let_def file_write_all_def writes_succeed_def split: option.splits)

end
