(* ===== verification/Stats.thy ===== *)
theory Stats
  imports F64
begin

text \<open>
  CPU and memory use of the process, \<open>src/src/windows/stats.rs\<close>. The clock and the answers of
  the operating system are the fields of \<open>stats_env\<close>; times are 100 ns units as \<open>u64\<close>. The sum
  of kernel and user time is written with wrap-around, as a release build computes it.
\<close>

record filetime =
  dwLowDateTime :: u32
  dwHighDateTime :: u32

record stats_env =
  se_now :: instant
  se_process_times :: "(filetime \<times> filetime) option"
  se_parallelism :: "nat option"
  se_working_set :: "u64 option"

record stats_snapshot =
  cpu_percent :: f64
  mem_bytes :: u64

definition stats_snapshot_default :: stats_snapshot where
  "stats_snapshot_default = \<lparr>cpu_percent = 0, mem_bytes = 0\<rparr>"

definition filetime_to_u64 :: "filetime \<Rightarrow> u64" where
  "filetime_to_u64 ft = push_bit 32 (ucast (dwHighDateTime ft)) OR ucast (dwLowDateTime ft)"

definition get_process_time_100ns :: "stats_env \<Rightarrow> u64 option" where
  "get_process_time_100ns env =
     map_option (\<lambda>(kernel, user). filetime_to_u64 kernel + filetime_to_u64 user) (se_process_times env)"

definition get_process_memory_bytes :: "stats_env \<Rightarrow> u64 option" where
  "get_process_memory_bytes env = se_working_set env"

record cpu_sampler =
  last_instant :: instant
  last_process_100ns :: u64

definition cpu_sampler_new :: "instant \<Rightarrow> cpu_sampler" where
  "cpu_sampler_new now = \<lparr>last_instant = now, last_process_100ns = 0\<rparr>"

definition saturating_sub :: "u64 \<Rightarrow> u64 \<Rightarrow> u64" where
  "saturating_sub a b = (if b \<le> a then a - b else 0)"

definition cpu_sample :: "stats_env \<Rightarrow> cpu_sampler \<Rightarrow> f64 \<times> cpu_sampler" where
  "cpu_sample env s =
     (case get_process_time_100ns env of
        None \<Rightarrow> (0, s)
      | Some process_time \<Rightarrow>
          if last_process_100ns s = 0 then
            (0, s\<lparr>last_process_100ns := process_time, last_instant := se_now env\<rparr>)
          else
            let delta_process = saturating_sub process_time (last_process_100ns s);
                delta_wall = duration_since (se_now env) (last_instant s) in
            if delta_wall = 0 then (0, s)
            else
              let wall_100ns = of_nat (delta_wall div 100) :: u64 in
              if wall_100ns = 0 then (0, s)
              else
                let cpu_count = (case se_parallelism env of Some n \<Rightarrow> of_nat n | None \<Rightarrow> 1) :: u64;
                    s = s\<lparr>last_process_100ns := process_time, last_instant := se_now env\<rparr> in
                (f64_div (f64_mul (f64_div (f64_of_u64 delta_process) (f64_of_u64 wall_100ns)) 100)
                   (f64_of_u64 cpu_count), s))"

definition stats_sample :: "stats_env \<Rightarrow> cpu_sampler \<Rightarrow> stats_snapshot \<times> cpu_sampler" where
  "stats_sample env s =
     (let (cpu, s) = cpu_sample env s in
      (\<lparr>cpu_percent = f64_clamp 0 100 cpu,
        mem_bytes = (case get_process_memory_bytes env of Some b \<Rightarrow> b | None \<Rightarrow> 0)\<rparr>, s))"

section \<open>Meaning\<close>

lemma unat_u32_u64: "unat (ucast (w::u32) :: u64) = unat w" and unat_u32_less: "unat (w::u32) < 2 ^ 32"
proof -
  show less: "unat w < 2 ^ 32" using unsigned_less [where 'a = nat, of w] by simp
  then have "unat w < 2 ^ 64" by simp
  then show "unat (ucast w :: u64) = unat w" by (simp add: unsigned_ucast_eq take_bit_nat_eq_self)
qed

lemma unat_filetime: "unat (filetime_to_u64 ft) = unat (dwHighDateTime ft) * 2 ^ 32 + unat (dwLowDateTime ft)"
proof -
  let ?h = "ucast (dwHighDateTime ft) :: u64" and ?l = "ucast (dwLowDateTime ft) :: u64"
  have "push_bit 32 ?h + ?l = push_bit 32 ?h OR ?l"
    by (rule disjunctive_add) (auto simp: bit_simps dest: bit_imp_le_length)
  then have "filetime_to_u64 ft = push_bit 32 ?h + ?l" by (simp add: filetime_to_u64_def)
  moreover have "unat (push_bit 32 ?h) = unat (dwHighDateTime ft) * 2 ^ 32"
    using unat_u32_less [of "dwHighDateTime ft"]
    by (simp only: unsigned_push_bit_eq unat_u32_u64) (simp add: take_bit_eq_mod push_bit_eq_mult)
  ultimately show ?thesis
    using unat_u32_less [of "dwHighDateTime ft"] unat_u32_less [of "dwLowDateTime ft"]
    by (simp only: unat_word_ariths unat_u32_u64) simp
qed

text \<open>A product of three factors close to one.\<close>

lemma relative_error_step:
  fixes x y z e :: rat
  assumes "\<bar>y - x\<bar> \<le> e * x" "0 \<le> x" "\<bar>z - y\<bar> \<le> d * y" "0 \<le> d"
  shows "\<bar>z - x\<bar> \<le> (e + d + e * d) * x"
proof -
  have "y \<le> x + e * x" using assms(1) by linarith
  then have "d * y \<le> d * (x + e * x)" using assms(4) by (rule mult_left_mono)
  then have "\<bar>z - x\<bar> \<le> d * (x + e * x) + e * x" using assms(1,3) by linarith
  then show ?thesis by (simp add: algebra_simps)
qed

lemma relative_error_scale:
  fixes x y e k :: rat
  assumes "\<bar>y - x\<bar> \<le> e * x" "0 \<le> k"
  shows "\<bar>y * k - x * k\<bar> \<le> e * (x * k)"
proof -
  have "\<bar>y * k - x * k\<bar> = \<bar>y - x\<bar> * k"
    using assms(2) by (metis abs_mult abs_of_nonneg left_diff_distrib)
  with mult_right_mono [OF assms] show ?thesis by (simp only: mult.assoc)
qed

lemma f64_round_relative: "0 \<le> v \<Longrightarrow> \<bar>f64_round v - v\<bar> \<le> (1 / 2 ^ 53) * v"
  using f64_round_error [of v] by simp

text \<open>C40: A sampler with a baseline reports the process time spent since then as a percentage of the
  wall time of all processors, up to a relative error of \<open>2 ^ (- 51)\<close>, and takes the reading as its
  new baseline; the readings may be up to 28 years apart.\<close>
theorem cpu_sample_measures:
  assumes "get_process_time_100ns env = Some process_time" and "last_process_100ns s \<noteq> 0"
    and "last_process_100ns s \<le> process_time" and "unat (process_time - last_process_100ns s) < 2 ^ 53"
    and "100 \<le> se_now env - last_instant s" and "(se_now env - last_instant s) div 100 < 2 ^ 53"
    and "se_parallelism env = Some cpus" and "0 < cpus" and "cpus < 2 ^ 53"
    and "exact = of_nat (unat (process_time - last_process_100ns s)) /
                 of_nat ((se_now env - last_instant s) div 100) * 100 / of_nat cpus"
  shows "\<bar>fst (cpu_sample env s) - exact\<bar> \<le> exact / 2 ^ 51 \<and>
    snd (cpu_sample env s) = s\<lparr>last_process_100ns := process_time, last_instant := se_now env\<rparr>"
proof -
  let ?d = "process_time - last_process_100ns s" and ?w = "(se_now env - last_instant s) div 100"
  have w: "0 < ?w" "unat (of_nat ?w :: u64) = ?w" "unat (of_nat cpus :: u64) = cpus"
    using assms(5,6,9) by (simp_all add: unat_of_nat)
  then have w0: "(of_nat ?w :: u64) \<noteq> 0" by (metis less_numeral_extra(3) unat_0)
  let ?a = "f64_div (of_nat (unat ?d)) (of_nat ?w)"
  have run: "cpu_sample env s =
      (f64_div (f64_mul ?a 100) (of_nat cpus), s\<lparr>last_process_100ns := process_time, last_instant := se_now env\<rparr>)"
    using assms(1-9) w w0 by (cases "se_now env \<le> last_instant s")
     (simp_all add: cpu_sample_def Let_def saturating_sub_def duration_since_def f64_of_u64_def f64_of_nat_exact)
  let ?u = "1 / 2 ^ 53 :: rat"
  define x where "x = of_nat (unat ?d) / (of_nat ?w :: rat)"
  have x: "0 \<le> x" unfolding x_def by (rule divide_nonneg_nonneg [OF of_nat_0_le_iff of_nat_0_le_iff])
  have a: "\<bar>?a - x\<bar> \<le> ?u * x" "0 \<le> ?a"
    using f64_round_relative [OF x] f64_round_nonneg [OF x] by (simp_all add: f64_div_def x_def)
  have b: "\<bar>f64_mul ?a 100 - ?a * 100\<bar> \<le> ?u * (?a * 100)" "0 \<le> f64_mul ?a 100"
    using f64_round_relative [of "?a * 100"] f64_round_nonneg [of "?a * 100"] a(2) by (simp_all add: f64_mul_def)
  have "\<bar>?a * 100 - x * 100\<bar> \<le> ?u * (x * 100)" using a(1) by (rule relative_error_scale) simp
  from relative_error_step [OF this _ b(1)] x
  have ab: "\<bar>f64_mul ?a 100 - x * 100\<bar> \<le> (?u + ?u + ?u * ?u) * (x * 100)" by simp
  have ex: "exact = x * 100 / of_nat cpus" by (simp add: assms(10) x_def)
  have q: "\<bar>f64_mul ?a 100 / of_nat cpus - exact\<bar> \<le> (?u + ?u + ?u * ?u) * exact"
    using relative_error_scale [OF ab, of "1 / of_nat cpus"] by (simp add: ex)
  have e0: "0 \<le> exact" using x by (simp add: ex)
  have c: "\<bar>f64_div (f64_mul ?a 100) (of_nat cpus) - f64_mul ?a 100 / of_nat cpus\<bar> \<le> ?u * (f64_mul ?a 100 / of_nat cpus)"
    using f64_round_relative [of "f64_mul ?a 100 / of_nat cpus"] b(2) by (simp add: f64_div_def)
  have "\<bar>f64_div (f64_mul ?a 100) (of_nat cpus) - exact\<bar> \<le>
      ((?u + ?u + ?u * ?u) + ?u + (?u + ?u + ?u * ?u) * ?u) * exact"
    using relative_error_step [OF q e0 c] by simp
  also have "\<dots> \<le> (1 / 2 ^ 51) * exact" using e0 by (intro mult_right_mono) simp_all
  finally show ?thesis by (simp add: run)
qed

text \<open>A quarter of a second of process time in one second of two processors.\<close>

definition demo_stats_env :: stats_env where
  "demo_stats_env = \<lparr>se_now = 1000000000,
     se_process_times = Some (\<lparr>dwLowDateTime = 2000000, dwHighDateTime = 0\<rparr>, \<lparr>dwLowDateTime = 500001, dwHighDateTime = 0\<rparr>),
     se_parallelism = Some 2, se_working_set = None\<rparr>"

theorem cpu_sample_measures_witness:
  "\<bar>fst (cpu_sample demo_stats_env \<lparr>last_instant = 0, last_process_100ns = 1\<rparr>) - 25 / 2\<bar> \<le> 25 / 2 / 2 ^ 51"
proof -
  have "get_process_time_100ns demo_stats_env = Some 2500001"
    by (simp add: get_process_time_100ns_def demo_stats_env_def filetime_to_u64_def)
  from cpu_sample_measures [OF this, of "\<lparr>last_instant = 0, last_process_100ns = 1\<rparr>" 2 "25 / 2"]
  show ?thesis by (simp add: demo_stats_env_def word_le_nat_alt)
qed

text \<open>The sampler keeps its baseline when a reading fails or comes too early, so no time is lost.\<close>

lemma cpu_sample_keeps_baseline:
  assumes "get_process_time_100ns env = None \<or>
    last_process_100ns s \<noteq> 0 \<and> se_now env - last_instant s < 100"
  shows "cpu_sample env s = (0, s)"
  using assms by (auto simp: cpu_sample_def Let_def duration_since_def split: option.split)

lemma stats_sample_range:
  "0 \<le> cpu_percent (fst (stats_sample env s)) \<and> cpu_percent (fst (stats_sample env s)) \<le> 100"
  by (simp add: stats_sample_def f64_clamp_def split: prod.split)

end
