(* ===== verification/Tui.thy ===== *)
theory Tui
  imports Logging Stats Router
begin

text \<open>
  The status screen, \<open>src/src/tui.rs\<close>: the texts it shows, the sliding window of the traffic
  rates, the task that refreshes the process statistics, and the loop of the screen's thread
  with what it leaves of the terminal. Layout, colours and the terminal library are not modelled:
  \<open>draw_logs\<close> and \<open>draw_status_bar\<close> stand for the texts handed to the widgets.
\<close>

section \<open>Texts\<close>

definition format_bytes :: "u64 \<Rightarrow> string" where
  "format_bytes b =
     (if b < 1024 then show_nat (unat b) @ '' B''
      else if b < 1024 * 1024 then show_fixed 1 (f64_div (f64_of_u64 b) 1024) @ '' KB''
      else if b < 1024 * 1024 * 1024 then show_fixed 1 (f64_div (f64_of_u64 b) (f64_mul 1024 1024)) @ '' MB''
      else show_fixed 2 (f64_div (f64_of_u64 b) (f64_mul (f64_mul 1024 1024) 1024)) @ '' GB'')"

definition format_time :: "duration \<Rightarrow> string" where
  "format_time d =
     (let total_secs = d div from_secs 1;
          hours = total_secs div 3600;
          minutes = total_secs mod 3600 div 60;
          seconds = total_secs mod 60;
          two = (\<lambda>n. pad_left 2 CHR ''0'' (show_nat n))
      in two hours @ '':'' @ two minutes @ '':'' @ two seconds)"

definition format_rate :: "f64 \<Rightarrow> string" where
  "format_rate bytes_per_sec =
     (let rounded = f64_to_u64 (max (f64_round_int bytes_per_sec) 0) in format_bytes rounded @ ''/s'')"

section \<open>Traffic rates\<close>

record traffic_sample =
  ts_timestamp :: instant
  ts_sent :: u64
  ts_received :: u64

record traffic_sampler =
  window :: duration
  samples :: "traffic_sample list"

definition traffic_sampler_new :: "duration \<Rightarrow> traffic_sampler" where
  "traffic_sampler_new w = \<lparr>window = w, samples = []\<rparr>"

text \<open>The loop that takes outdated samples from the front.\<close>

fun expire_samples :: "instant \<Rightarrow> duration \<Rightarrow> traffic_sample list \<Rightarrow> traffic_sample list" where
  "expire_samples now w [] = []"
| "expire_samples now w (front # rest) =
     (if w < duration_since now (ts_timestamp front) then expire_samples now w rest else front # rest)"

definition traffic_rates :: "traffic_sample list \<Rightarrow> f64 \<times> f64" where
  "traffic_rates xs =
     (if length xs < 2 then (0, 0)
      else
        let oldest = hd xs;
            newest = last xs;
            span = as_secs_f64 (duration_since (ts_timestamp newest) (ts_timestamp oldest)) in
        if span \<le> 0 then (0, 0)
        else
          let up_delta = f64_of_u64 (saturating_sub (ts_sent newest) (ts_sent oldest));
              down_delta = f64_of_u64 (saturating_sub (ts_received newest) (ts_received oldest))
          in (f64_div up_delta span, f64_div down_delta span))"

definition take_traffic_sample :: "traffic_sample \<Rightarrow> traffic_sampler \<Rightarrow> (f64 \<times> f64) \<times> traffic_sampler" where
  "take_traffic_sample x s =
     (let s = s\<lparr>samples := samples s @ [x]\<rparr>;
          s = s\<lparr>samples := expire_samples (ts_timestamp x) (window s) (samples s)\<rparr>
      in (traffic_rates (samples s), s))"

section \<open>The state of the screen\<close>

record tui_state =
  tui_logs :: tui_logger
  tui_shutdown :: bool
  traffic_sampler :: traffic_sampler
  tui_cpu :: cpu_sampler
  last_stats :: stats_snapshot

definition tui_state_new :: "tui_logger \<Rightarrow> cpu_sampler \<Rightarrow> tui_state" where
  "tui_state_new l cpu = \<lparr>tui_logs = l, tui_shutdown = False,
     traffic_sampler = traffic_sampler_new (from_secs 5), tui_cpu = cpu,
     last_stats = stats_snapshot_default\<rparr>"

definition request_shutdown :: "tui_state \<Rightarrow> tui_state" where
  "request_shutdown t = t\<lparr>tui_shutdown := True\<rparr>"

definition refresh_stats :: "stats_env \<Rightarrow> tui_state \<Rightarrow> tui_state" where
  "refresh_stats env t =
     (let (snapshot, cpu) = stats_sample env (tui_cpu t) in t\<lparr>last_stats := snapshot, tui_cpu := cpu\<rparr>)"

definition get_process_usage :: "tui_state \<Rightarrow> f64 \<times> u64" where
  "get_process_usage t = (cpu_percent (last_stats t), mem_bytes (last_stats t))"

definition get_traffic_rates :: "instant \<Rightarrow> u64 \<Rightarrow> u64 \<Rightarrow> tui_state \<Rightarrow> (f64 \<times> f64) \<times> tui_state" where
  "get_traffic_rates now up down t =
     (let (rates, s) = take_traffic_sample \<lparr>ts_timestamp = now, ts_sent = up, ts_received = down\<rparr>
                         (traffic_sampler t)
      in (rates, t\<lparr>traffic_sampler := s\<rparr>))"

text \<open>One tick of the task that refreshes the statistics; \<open>None\<close> ends it.\<close>

definition stats_tick :: "stats_env \<Rightarrow> tui_state \<Rightarrow> tui_state option" where
  "stats_tick env t = (if tui_shutdown t then None else Some (refresh_stats env t))"

section \<open>Drawing\<close>

definition draw_logs :: "nat \<Rightarrow> tui_state \<Rightarrow> string list" where
  "draw_logs height t = take height (rev (log_lines (tui_logs t)))"

text \<open>The line of the status bar, and the sampler after it was asked for the rates.\<close>

definition draw_status_bar :: "instant \<Rightarrow> 'l router \<Rightarrow> tui_state \<Rightarrow> string \<times> tui_state" where
  "draw_status_bar now r t =
     (let up = get_bytes_sent r;
          down = get_bytes_received r;
          ((up_rate, down_rate), t) = get_traffic_rates now up down t;
          cpu_str = pad_left 5 CHR '' '' (show_fixed 1 (cpu_percent (last_stats t))) @ ''%'';
          cell = (\<lambda>width field. pad_left width CHR '' '' field)
      in ('' TCP: '' @ cell 5 (show_nat (get_tcp_connection_count r)) @
          '' | UDP: '' @ cell 5 (show_nat (get_udp_connection_count r)) @
          '' | UP: '' @ cell 8 (format_bytes up) @
          '' | DOWN: '' @ cell 8 (format_bytes down) @
          '' | UPS: '' @ cell 9 (format_rate up_rate) @
          '' | DNS: '' @ cell 9 (format_rate down_rate) @
          '' | TIME: '' @ cell 8 (format_time (get_running_time now r)) @
          '' | CPU: '' @ cell 6 cpu_str @
          '' | MEM: '' @ cell 8 (format_bytes (mem_bytes (last_stats t))) @ '' '', t))"

section \<open>The loop of the screen's thread\<close>

datatype key_kind = KeyPress | KeyRepeat | KeyRelease
datatype tui_event = KeyEvent char key_kind bool | OtherEvent

text \<open>
  One round: what other tasks did to the shutdown flag before it, and the answers of the terminal
  to \<open>draw\<close>, \<open>poll\<close> and \<open>read\<close> (an error code on the left). The flag of a key says whether
  CONTROL is held.
\<close>

record tui_round =
  tr_shutdown :: bool
  tr_draw :: "nat + unit"
  tr_poll :: "nat + bool"
  tr_read :: "nat + tui_event"

record terminal =
  raw_mode :: bool
  alternate_screen :: bool

record terminal_env =
  te_enable_raw :: "nat + unit"
  te_enter :: "nat + unit"
  te_terminal :: "nat + unit"
  te_clear :: "nat + unit"
  te_leave :: "nat + unit"
  te_disable_raw :: "nat + unit"
  te_show_cursor :: "nat + unit"

definition quits :: "tui_event \<Rightarrow> bool" where
  "quits e = (case e of
       KeyEvent code kind control \<Rightarrow> kind = KeyPress \<and> (code = CHR ''c'' \<and> control \<or> code = CHR ''q'')
     | OtherEvent \<Rightarrow> False)"

text \<open>
  The loop over the rounds the script offers: the outcome and the shutdown flag, or \<open>None\<close> when
  the script ends and the loop is still running.
\<close>

fun tui_loop :: "tui_round list \<Rightarrow> bool \<Rightarrow> ((nat + unit) \<times> bool) option" where
  "tui_loop [] flag = None"
| "tui_loop (r # rs) flag =
     (let flag = flag \<or> tr_shutdown r in
      if flag then Some (Inr (), flag)
      else case tr_draw r of
        Inl e \<Rightarrow> Some (Inl e, flag)
      | Inr _ \<Rightarrow>
        (case tr_poll r of
           Inl e \<Rightarrow> Some (Inl e, flag)
         | Inr False \<Rightarrow> tui_loop rs flag
         | Inr True \<Rightarrow>
           (case tr_read r of
              Inl e \<Rightarrow> Some (Inl e, flag)
            | Inr event \<Rightarrow> if quits event then Some (Inr (), True) else tui_loop rs flag)))"

definition tui_run ::
    "terminal_env \<Rightarrow> tui_round list \<Rightarrow> bool \<Rightarrow> terminal \<Rightarrow> ((nat + unit) \<times> bool \<times> terminal) option" where
  "tui_run env rounds flag t =
     (case te_enable_raw env of
        Inl e \<Rightarrow> Some (Inl e, flag, t)
      | Inr _ \<Rightarrow> let t = t\<lparr>raw_mode := True\<rparr> in
     (case te_enter env of
        Inl e \<Rightarrow> Some (Inl e, flag, t)
      | Inr _ \<Rightarrow> let t = t\<lparr>alternate_screen := True\<rparr> in
     (case te_terminal env of
        Inl e \<Rightarrow> Some (Inl e, flag, t)
      | Inr _ \<Rightarrow>
     (case te_clear env of
        Inl e \<Rightarrow> Some (Inl e, flag, t)
      | Inr _ \<Rightarrow>
     (case tui_loop rounds flag of
        None \<Rightarrow> None
      | Some (Inl e, flag) \<Rightarrow> Some (Inl e, flag, t)
      | Some (Inr _, flag) \<Rightarrow>
     (case te_leave env of
        Inl e \<Rightarrow> Some (Inl e, flag, t)
      | Inr _ \<Rightarrow> let t = t\<lparr>alternate_screen := False\<rparr> in
     (case te_disable_raw env of
        Inl e \<Rightarrow> Some (Inl e, flag, t)
      | Inr _ \<Rightarrow> let t = t\<lparr>raw_mode := False\<rparr> in
     (case te_show_cursor env of
        Inl e \<Rightarrow> Some (Inl e, flag, t)
      | Inr _ \<Rightarrow> Some (Inr (), flag, t)))))))))"

section \<open>What the screen shows\<close>

definition log_and_show :: "log_message list \<Rightarrow> tui_state \<Rightarrow> tui_state" where
  "log_and_show ms t = t\<lparr>tui_logs := fold log_record ms (tui_logs t)\<rparr>"

text \<open>C38: After any messages the screen shows the latest of them, newest first, as many as fit and at
  most 50, and the log file, when its writes succeed, holds every line in order.\<close>
theorem screen_shows_latest:
  assumes "log_lines (tui_logs t) = []"
  shows "draw_logs height (log_and_show ms t) = take (min height 50) (rev (map log_line ms)) \<and>
    (log_file (tui_logs t) = Some contents \<and> list_all writes_succeed ms \<longrightarrow>
     log_file (tui_logs (log_and_show ms t)) = Some (contents @ concat (map (\<lambda>m. log_line m @ [CHR 0x0A]) ms)))"
proof (intro conjI impI)
  have "log_lines (fold log_record ms (tui_logs t)) = latest MAX_LOG_LINES (map log_line ms)"
    by (rule log_buffer.view_run) (use assms in \<open>simp_all add: latest_def\<close>)
  then show "draw_logs height (log_and_show ms t) = take (min height 50) (rev (map log_line ms))"
    by (simp add: draw_logs_def log_and_show_def rev_latest MAX_LOG_LINES_def)
next
  assume f: "log_file (tui_logs t) = Some contents \<and> list_all writes_succeed ms"
  then show "log_file (tui_logs (log_and_show ms t)) = Some (contents @ concat (map (\<lambda>m. log_line m @ [CHR 0x0A]) ms))"
    using log_file.view_run [of ms "tui_logs t" contents] log_file.inv_run [of "tui_logs t" ms]
    by (auto simp: log_and_show_def)
qed

definition demo_message :: log_message where
  "demo_message = \<lparr>msg_time = ''T'', msg_level = LevelWarn, msg_args = ''late'',
     msg_write_line = None, msg_write_newline = None\<rparr>"

definition demo_screen :: tui_state where
  "demo_screen = tui_state_new \<lparr>log_lines = [], log_file = Some []\<rparr> (cpu_sampler_new 0)"

theorem screen_shows_latest_witness:
  "draw_logs 3 (log_and_show [demo_message] demo_screen) = [''[T] [ WARN] late''] \<and>
   log_file (tui_logs (log_and_show [demo_message] demo_screen)) = Some (''[T] [ WARN] late'' @ [CHR 0x0A])"
proof -
  have "log_lines (tui_logs demo_screen) = []" "log_file (tui_logs demo_screen) = Some []"
    by (simp_all add: demo_screen_def tui_state_new_def)
  moreover have "log_line demo_message = ''[T] [ WARN] late''"
    by (simp add: log_line_def demo_message_def pad_left_def)
  moreover have "writes_succeed demo_message" by (simp add: writes_succeed_def demo_message_def)
  ultimately show ?thesis
    using screen_shows_latest [of demo_screen 3 "[demo_message]" "[]"] by simp
qed

section \<open>The traffic window\<close>

definition sample_history :: "traffic_sample list \<Rightarrow> traffic_sampler \<Rightarrow> traffic_sampler" where
  "sample_history xs s = fold (\<lambda>x s. snd (take_traffic_sample x s)) xs s"

definition in_window :: "duration \<Rightarrow> instant \<Rightarrow> traffic_sample \<Rightarrow> bool" where
  "in_window w now x \<longleftrightarrow> now \<le> ts_timestamp x + w"

lemma expire_samples_dropWhile:
  "expire_samples now w xs = dropWhile (\<lambda>x. \<not> in_window w now x) xs"
  by (induction xs) (auto simp: in_window_def duration_since_def)

lemma expire_samples_filter:
  "sorted (map ts_timestamp xs) \<Longrightarrow> expire_samples now w xs = filter (in_window w now) xs"
  by (induction xs) (force simp: expire_samples_dropWhile in_window_def intro!: filter_True [symmetric])+

text \<open>The part of a history that lies in the window of its last sample.\<close>

definition window_of :: "duration \<Rightarrow> traffic_sample list \<Rightarrow> traffic_sample list" where
  "window_of w xs = (if xs = [] then [] else filter (in_window w (ts_timestamp (last xs))) xs)"

lemma take_traffic_sample_window:
  assumes "sorted (map ts_timestamp (xs @ [x]))" and "samples s = window_of (window s) xs"
  shows "samples (snd (take_traffic_sample x s)) = window_of (window s) (xs @ [x])"
proof -
  have sub: "samples s = filter (in_window (window s) (ts_timestamp (last xs))) xs"
    using assms(2) by (simp add: window_of_def split: if_splits)
  then have "sorted (map ts_timestamp (samples s @ [x]))"
    using assms(1) by (auto simp: sorted_append sorted_filter)
  moreover have "in_window (window s) (ts_timestamp x) y \<Longrightarrow> in_window (window s) (ts_timestamp (last xs)) y"
    if "y \<in> set xs" for y
    using that assms(1) last_in_set [of xs] by (fastforce simp: in_window_def sorted_append)
  ultimately show ?thesis
    using sub by (auto simp: take_traffic_sample_def Let_def expire_samples_filter window_of_def intro: filter_cong)
qed

interpretation traffic_history: history "\<lambda>x s. snd (take_traffic_sample x s)" samples "window_of w"
    "\<lambda>xs. sorted (map ts_timestamp xs)" "\<lambda>s. window s = w" for w
  by unfold_locales
    (auto simp: sorted_append take_traffic_sample_window, simp add: take_traffic_sample_def Let_def)

text \<open>C39: Sampled at any times that do not run backwards, the rates shown are the increase of the
  counters since the oldest sample of the last five seconds, divided by the time since then, and no
  sample of that window is lost or kept too long.\<close>
theorem traffic_window_exact:
  assumes "sorted (map ts_timestamp (xs @ [x]))"
  shows "fst (take_traffic_sample x (sample_history xs (traffic_sampler_new (from_secs 5)))) =
      traffic_rates (filter (\<lambda>y. ts_timestamp x - ts_timestamp y \<le> 5000000000) (xs @ [x])) \<and>
    samples (sample_history (xs @ [x]) (traffic_sampler_new (from_secs 5))) =
      filter (\<lambda>y. ts_timestamp x - ts_timestamp y \<le> 5000000000) (xs @ [x])"
proof -
  let ?s = "sample_history xs (traffic_sampler_new (from_secs 5))"
  have "fst (take_traffic_sample x ?s) = traffic_rates (samples (sample_history (xs @ [x]) (traffic_sampler_new (from_secs 5))))"
    by (simp add: sample_history_def take_traffic_sample_def Let_def)
  moreover have "in_window (from_secs 5) (ts_timestamp x) = (\<lambda>y. ts_timestamp x - ts_timestamp y \<le> 5000000000)"
    by (auto simp: in_window_def from_secs_def fun_eq_iff)
  moreover have "samples (sample_history (xs @ [x]) (traffic_sampler_new (from_secs 5))) = window_of (from_secs 5) (xs @ [x])"
    unfolding sample_history_def
    by (rule traffic_history.view_run [OF assms]) (simp_all add: traffic_sampler_new_def window_of_def)
  ultimately show ?thesis by (simp add: window_of_def)
qed

theorem traffic_window_exact_witness:
  "fst (take_traffic_sample \<lparr>ts_timestamp = 7000000000, ts_sent = 30, ts_received = 0\<rparr>
      (sample_history [\<lparr>ts_timestamp = 0, ts_sent = 5, ts_received = 0\<rparr>, \<lparr>ts_timestamp = 3000000000, ts_sent = 10, ts_received = 0\<rparr>]
        (traffic_sampler_new (from_secs 5)))) = (5, 0)"
proof -
  let ?xs = "[\<lparr>ts_timestamp = 0, ts_sent = 5, ts_received = 0\<rparr>, \<lparr>ts_timestamp = 3000000000, ts_sent = 10, ts_received = 0\<rparr>]"
  and ?x = "\<lparr>ts_timestamp = 7000000000, ts_sent = 30, ts_received = 0\<rparr>"
  have ends: "f64_round (of_nat n) = of_nat n" if "n < 100" for n
    using f64_of_nat_exact [of n] that by (simp add: f64_of_nat_def)
  have "as_secs_f64 4000000000 = 4"
    using ends [of 4] ends [of 0] by (simp add: as_secs_f64_def from_secs_def f64_simps f64_round_def [of 0])
  then have "traffic_rates (filter (\<lambda>y. ts_timestamp ?x - ts_timestamp y \<le> 5000000000) (?xs @ [?x])) = (5, 0)"
    using ends [of 20] ends [of 5] by (simp add: traffic_rates_def Let_def duration_since_def saturating_sub_def f64_simps f64_round_def [of 0])
  moreover have "sorted (map ts_timestamp (?xs @ [?x]))" by simp
  ultimately show ?thesis using traffic_window_exact [of ?xs ?x] by simp
qed

section \<open>The texts of amounts\<close>

text \<open>
  An amount below \<open>2 ^ 53\<close> bytes is divided exactly, so its text is the quotient rounded once: it
  is within half a unit of its last decimal.
\<close>

lemma show_fixed_parts:
  assumes "0 \<le> v"
  obtains t where "show_fixed d v = show_nat (t div 10 ^ d) @ ''.'' @ pad_left d CHR ''0'' (show_nat (t mod 10 ^ d))"
    and "\<bar>of_nat t / 10 ^ d - v\<bar> \<le> 1 / (2 * 10 ^ d)"
proof -
  let ?r = "round_half_even (v * 10 ^ d)"
  have err: "\<bar>of_int ?r - v * 10 ^ d\<bar> \<le> 1 / 2" by (rule round_half_even_error)
  have "0 \<le> v * 10 ^ d" using assms by simp
  with err have "- 1 < (of_int ?r :: rat)" by linarith
  then have nonneg: "0 \<le> ?r" by linarith
  have "\<bar>of_nat (nat ?r) / 10 ^ d - v\<bar> = \<bar>of_int ?r - v * 10 ^ d\<bar> / 10 ^ d"
    using nonneg by (simp add: field_simps abs_divide flip: abs_mult)
  also have "\<dots> \<le> 1 / 2 / 10 ^ d" using err by (rule divide_right_mono) simp
  finally show thesis by (intro that [of "nat ?r"]) (simp_all add: show_fixed_def Let_def)
qed

lemma f64_constants [simp]: "f64_mul 1024 1024 = 1048576" "f64_mul 1048576 1024 = 1073741824"
  using f64_of_nat_exact [of 1048576] f64_of_nat_exact [of 1073741824] by (simp_all add: f64_simps)

lemma f64_div_pow2: "unat b < 2 ^ 53 \<Longrightarrow> f64_div (f64_of_u64 b) (2 ^ k) = of_nat (unat b) / 2 ^ k"
  using f64_round_exact [of "unat b" k] by (simp add: f64_of_u64_def f64_of_nat_exact f64_div_def)

lemma format_bytes_kb:
  assumes "1024 \<le> unat b" "unat b < 1024 * 1024"
  obtains t where "format_bytes b = show_nat (t div 10) @ ''.'' @ pad_left 1 CHR ''0'' (show_nat (t mod 10)) @ '' KB''"
    and "\<bar>of_nat t * 1024 / 10 - of_nat (unat b)\<bar> \<le> (1024 / 20 :: rat)"
proof -
  have b: "\<not> b < 1024" "b < 1048576"
    using assms by (simp_all add: word_less_nat_alt)
  obtain t where t: "show_fixed 1 (of_nat (unat b) / 1024) =
      show_nat (t div 10 ^ 1) @ ''.'' @ pad_left 1 CHR ''0'' (show_nat (t mod 10 ^ 1))"
    and e: "\<bar>of_nat t / 10 ^ 1 - (of_nat (unat b) / 1024 :: rat)\<bar> \<le> 1 / (2 * 10 ^ 1)"
    by (rule show_fixed_parts [of "of_nat (unat b) / 1024" 1])
      (rule divide_nonneg_nonneg [OF of_nat_0_le_iff], simp)
  have q: "f64_div (f64_of_u64 b) 1024 = of_nat (unat b) / 1024"
    using f64_div_pow2 [of b 10] assms by simp
  have "format_bytes b = show_fixed 1 (of_nat (unat b) / 1024) @ '' KB''"
    using b unfolding format_bytes_def q by simp
  with t have "format_bytes b = show_nat (t div 10) @ ''.'' @ pad_left 1 CHR ''0'' (show_nat (t mod 10)) @ '' KB''"
    by simp
  moreover have "\<bar>of_nat t * 1024 / 10 - of_nat (unat b)\<bar> \<le> (1024 / 20 :: rat)"
    using e by (simp add: abs_le_iff field_simps)
  ultimately show thesis by (rule that)
qed

text \<open>The last byte count below one MB is shown as 1024.0 KB.\<close>

lemma format_bytes_rounds_up_to_1024: "format_bytes 1048575 = ''1024.0 KB''"
proof -
  have v: "f64_div (f64_of_u64 1048575) 1024 = 1048575 / 1024"
    using f64_div_pow2 [of 1048575 10] by simp
  have "\<lfloor>1048575 / 1024 * 10 :: rat\<rfloor> = 10239" by (simp add: floor_eq_iff)
  then have "round_half_even (1048575 / 1024 * 10) = 10240"
    by (simp add: round_half_even_def Let_def)
  then show ?thesis
    by (simp add: format_bytes_def v show_fixed_def Let_def pad_left_def digit_char_def
        show_nat.simps [of 1024] show_nat.simps [of 102] show_nat.simps [of 10] show_nat.simps [of 1] show_nat.simps [of 0]
        show_nat_small char_of_def bit_0)
qed

section \<open>Leaving the screen\<close>

text \<open>The loop ends with the shutdown flag set unless the terminal fails.\<close>

lemma tui_loop_quits: "tui_loop rounds flag = Some (Inr u, flag') \<Longrightarrow> flag'"
  by (induction rounds flag rule: tui_loop.induct) (auto simp: Let_def split: if_splits sum.splits bool.splits)

lemma tui_loop_shutdown: "tr_shutdown r \<Longrightarrow> tui_loop (r # rs) flag = Some (Inr (), True)"
  by simp

lemma tui_run_restores:
  assumes "tui_run env rounds flag t = Some (Inr u, flag', t')"
  shows "\<not> raw_mode t' \<and> \<not> alternate_screen t' \<and> flag'"
  using assms by (auto simp: tui_run_def Let_def split: sum.splits option.splits dest: tui_loop_quits)

text \<open>
  An error of \<open>draw\<close>, \<open>poll\<close> or \<open>read\<close> leaves the thread with the terminal in raw mode and on the
  alternate screen, and without setting the shutdown flag.
\<close>

lemma tui_error_keeps_raw_mode:
  assumes "te_enable_raw env = Inr ()" "te_enter env = Inr ()" "te_terminal env = Inr ()" "te_clear env = Inr ()"
    and "tui_loop rounds flag = Some (Inl e, flag')"
  shows "tui_run env rounds flag t = Some (Inl e, flag', t\<lparr>raw_mode := True, alternate_screen := True\<rparr>)"
  using assms by (simp add: tui_run_def)

end
