(* ===== verification/Wire.thy ===== *)
theory Wire
  imports Net
begin

text \<open>
  The packet library \<open>smoltcp::wire\<close>, which is not part of the repository, as a parameter of the
  packet code: the record \<open>wire_lib\<close> of the functions the router calls on byte buffers, and the
  locale \<open>wire\<close> of their documented effect, stated on what the accessors show of a buffer (a
  setter changes its own field and no other; writing a payload of the same length back changes
  the payload only; filling a checksum changes nothing that is read). A reader after
  RFC 791, 793, 768, 894 and 8200 instantiates the record and is proved to meet the laws.
\<close>

datatype mac_addr = Mac u8 u8 u8 u8 u8 u8

datatype ether_type = EtIpv4 | EtIpv6 | EtOther

datatype ip_proto = ProtoTcp | ProtoUdp | ProtoOther

record wire_lib =
  eth_checked :: "bytes \<Rightarrow> bool"
  eth_ethertype :: "bytes \<Rightarrow> ether_type"
  eth_src :: "bytes \<Rightarrow> mac_addr"
  eth_dst :: "bytes \<Rightarrow> mac_addr"
  eth_set_src :: "mac_addr \<Rightarrow> bytes \<Rightarrow> bytes"
  eth_set_dst :: "mac_addr \<Rightarrow> bytes \<Rightarrow> bytes"
  eth_payload :: "bytes \<Rightarrow> bytes"
  eth_put_payload :: "bytes \<Rightarrow> bytes \<Rightarrow> bytes"
  ip4_checked :: "bytes \<Rightarrow> bool"
  ip4_header_len :: "bytes \<Rightarrow> nat"
  ip4_src :: "bytes \<Rightarrow> ipv4_addr"
  ip4_dst :: "bytes \<Rightarrow> ipv4_addr"
  ip4_proto :: "bytes \<Rightarrow> ip_proto"
  ip4_set_src :: "ipv4_addr \<Rightarrow> bytes \<Rightarrow> bytes"
  ip4_set_dst :: "ipv4_addr \<Rightarrow> bytes \<Rightarrow> bytes"
  ip4_payload :: "bytes \<Rightarrow> bytes"
  ip4_put_payload :: "bytes \<Rightarrow> bytes \<Rightarrow> bytes"
  ip4_fill_checksum :: "bytes \<Rightarrow> bytes"
  ip6_checked :: "bytes \<Rightarrow> bool"
  ip6_src :: "bytes \<Rightarrow> ipv6_addr"
  ip6_dst :: "bytes \<Rightarrow> ipv6_addr"
  ip6_proto :: "bytes \<Rightarrow> ip_proto"
  ip6_set_src :: "ipv6_addr \<Rightarrow> bytes \<Rightarrow> bytes"
  ip6_set_dst :: "ipv6_addr \<Rightarrow> bytes \<Rightarrow> bytes"
  ip6_payload :: "bytes \<Rightarrow> bytes"
  ip6_put_payload :: "bytes \<Rightarrow> bytes \<Rightarrow> bytes"
  tcp_checked :: "bytes \<Rightarrow> bool"
  tcp_src_port :: "bytes \<Rightarrow> u16"
  tcp_dst_port :: "bytes \<Rightarrow> u16"
  tcp_syn :: "bytes \<Rightarrow> bool"
  tcp_ack :: "bytes \<Rightarrow> bool"
  tcp_rst :: "bytes \<Rightarrow> bool"
  tcp_fin :: "bytes \<Rightarrow> bool"
  tcp_payload :: "bytes \<Rightarrow> bytes"
  tcp_set_src_port :: "u16 \<Rightarrow> bytes \<Rightarrow> bytes"
  tcp_set_dst_port :: "u16 \<Rightarrow> bytes \<Rightarrow> bytes"
  tcp_fill_checksum :: "ip_addr \<Rightarrow> ip_addr \<Rightarrow> bytes \<Rightarrow> bytes"
  udp_checked :: "bytes \<Rightarrow> bool"
  udp_src_port :: "bytes \<Rightarrow> u16"
  udp_dst_port :: "bytes \<Rightarrow> u16"
  udp_payload :: "bytes \<Rightarrow> bytes"
  udp_set_src_port :: "u16 \<Rightarrow> bytes \<Rightarrow> bytes"
  udp_set_dst_port :: "u16 \<Rightarrow> bytes \<Rightarrow> bytes"
  udp_fill_checksum :: "ip_addr \<Rightarrow> ip_addr \<Rightarrow> bytes \<Rightarrow> bytes"

section \<open>What the accessors show of a buffer\<close>

record eth_view =
  ev_type :: ether_type
  ev_src :: mac_addr
  ev_dst :: mac_addr
  ev_payload :: bytes

record 'a ip_view =
  iv_proto :: ip_proto
  iv_src :: 'a
  iv_dst :: 'a
  iv_payload :: bytes

record tcp_view =
  tv_src :: u16
  tv_dst :: u16
  tv_flags :: "bool \<times> bool \<times> bool \<times> bool"
  tv_payload :: bytes

record udp_view =
  uv_src :: u16
  uv_dst :: u16
  uv_payload :: bytes

definition eth_view :: "wire_lib \<Rightarrow> bytes \<Rightarrow> eth_view" where
  "eth_view W b = \<lparr>ev_type = eth_ethertype W b, ev_src = eth_src W b, ev_dst = eth_dst W b,
     ev_payload = eth_payload W b\<rparr>"

definition ip4_view :: "wire_lib \<Rightarrow> bytes \<Rightarrow> ipv4_addr ip_view" where
  "ip4_view W b = \<lparr>iv_proto = ip4_proto W b, iv_src = ip4_src W b, iv_dst = ip4_dst W b,
     iv_payload = ip4_payload W b\<rparr>"

definition ip6_view :: "wire_lib \<Rightarrow> bytes \<Rightarrow> ipv6_addr ip_view" where
  "ip6_view W b = \<lparr>iv_proto = ip6_proto W b, iv_src = ip6_src W b, iv_dst = ip6_dst W b,
     iv_payload = ip6_payload W b\<rparr>"

definition tcp_view :: "wire_lib \<Rightarrow> bytes \<Rightarrow> tcp_view" where
  "tcp_view W b = \<lparr>tv_src = tcp_src_port W b, tv_dst = tcp_dst_port W b,
     tv_flags = (tcp_syn W b, tcp_ack W b, tcp_rst W b, tcp_fin W b), tv_payload = tcp_payload W b\<rparr>"

definition udp_view :: "wire_lib \<Rightarrow> bytes \<Rightarrow> udp_view" where
  "udp_view W b = \<lparr>uv_src = udp_src_port W b, uv_dst = udp_dst_port W b, uv_payload = udp_payload W b\<rparr>"

text \<open>An IPv4 header shorter than its fixed part overlaps its own payload; the laws exclude it.\<close>

definition ip4_ok :: "wire_lib \<Rightarrow> bytes \<Rightarrow> bool" where
  "ip4_ok W b \<longleftrightarrow> ip4_checked W b \<and> 20 \<le> ip4_header_len W b"

section \<open>The documented effects\<close>

text \<open>\<open>f\<close> keeps a buffer valid and of its length, and acts on what is seen of it as \<open>u\<close>.\<close>

definition acts :: "(bytes \<Rightarrow> bool) \<Rightarrow> (bytes \<Rightarrow> 'v) \<Rightarrow> (bytes \<Rightarrow> bytes) \<Rightarrow> ('v \<Rightarrow> 'v) \<Rightarrow> bool" where
  "acts ok view f u \<longleftrightarrow> (\<forall>b. ok b \<longrightarrow> ok (f b) \<and> view (f b) = u (view b) \<and> length (f b) = length b)"

definition puts :: "(bytes \<Rightarrow> bool) \<Rightarrow> (bytes \<Rightarrow> 'v) \<Rightarrow> (bytes \<Rightarrow> bytes) \<Rightarrow> (bytes \<Rightarrow> bytes \<Rightarrow> bytes) \<Rightarrow>
    (bytes \<Rightarrow> 'v \<Rightarrow> 'v) \<Rightarrow> bool" where
  "puts ok view payload put u \<longleftrightarrow> (\<forall>b y. ok b \<longrightarrow> length y = length (payload b) \<longrightarrow>
     ok (put y b) \<and> view (put y b) = u y (view b) \<and> length (put y b) = length b)"

lemma actsD:
  "acts ok view f u \<Longrightarrow> ok b \<Longrightarrow> ok (f b)"
  "acts ok view f u \<Longrightarrow> ok b \<Longrightarrow> view (f b) = u (view b)"
  "acts ok view f u \<Longrightarrow> ok b \<Longrightarrow> length (f b) = length b"
  by (simp_all add: acts_def)

lemma putsD:
  "puts ok view payload put u \<Longrightarrow> ok b \<Longrightarrow> length y = length (payload b) \<Longrightarrow> ok (put y b)"
  "puts ok view payload put u \<Longrightarrow> ok b \<Longrightarrow> length y = length (payload b) \<Longrightarrow> view (put y b) = u y (view b)"
  "puts ok view payload put u \<Longrightarrow> ok b \<Longrightarrow> length y = length (payload b) \<Longrightarrow> length (put y b) = length b"
  by (simp_all add: puts_def)

definition eth_laws :: "wire_lib \<Rightarrow> bool" where
  "eth_laws W \<longleftrightarrow>
     (\<forall>a. acts (eth_checked W) (eth_view W) (eth_set_src W a) (\<lambda>v. v\<lparr>ev_src := a\<rparr>)) \<and>
     (\<forall>a. acts (eth_checked W) (eth_view W) (eth_set_dst W a) (\<lambda>v. v\<lparr>ev_dst := a\<rparr>)) \<and>
     puts (eth_checked W) (eth_view W) (eth_payload W) (eth_put_payload W) (\<lambda>y v. v\<lparr>ev_payload := y\<rparr>)"

definition ip4_laws :: "wire_lib \<Rightarrow> bool" where
  "ip4_laws W \<longleftrightarrow>
     (\<forall>a. acts (ip4_ok W) (ip4_view W) (ip4_set_src W a) (\<lambda>v. v\<lparr>iv_src := a\<rparr>)) \<and>
     (\<forall>a. acts (ip4_ok W) (ip4_view W) (ip4_set_dst W a) (\<lambda>v. v\<lparr>iv_dst := a\<rparr>)) \<and>
     acts (ip4_ok W) (ip4_view W) (ip4_fill_checksum W) (\<lambda>v. v) \<and>
     puts (ip4_ok W) (ip4_view W) (ip4_payload W) (ip4_put_payload W) (\<lambda>y v. v\<lparr>iv_payload := y\<rparr>)"

definition ip6_laws :: "wire_lib \<Rightarrow> bool" where
  "ip6_laws W \<longleftrightarrow>
     (\<forall>a. acts (ip6_checked W) (ip6_view W) (ip6_set_src W a) (\<lambda>v. v\<lparr>iv_src := a\<rparr>)) \<and>
     (\<forall>a. acts (ip6_checked W) (ip6_view W) (ip6_set_dst W a) (\<lambda>v. v\<lparr>iv_dst := a\<rparr>)) \<and>
     puts (ip6_checked W) (ip6_view W) (ip6_payload W) (ip6_put_payload W) (\<lambda>y v. v\<lparr>iv_payload := y\<rparr>)"

definition tcp_laws :: "wire_lib \<Rightarrow> bool" where
  "tcp_laws W \<longleftrightarrow>
     (\<forall>p. acts (tcp_checked W) (tcp_view W) (tcp_set_src_port W p) (\<lambda>v. v\<lparr>tv_src := p\<rparr>)) \<and>
     (\<forall>p. acts (tcp_checked W) (tcp_view W) (tcp_set_dst_port W p) (\<lambda>v. v\<lparr>tv_dst := p\<rparr>)) \<and>
     (\<forall>s d. acts (tcp_checked W) (tcp_view W) (tcp_fill_checksum W s d) (\<lambda>v. v))"

definition udp_laws :: "wire_lib \<Rightarrow> bool" where
  "udp_laws W \<longleftrightarrow>
     (\<forall>p. acts (udp_checked W) (udp_view W) (udp_set_src_port W p) (\<lambda>v. v\<lparr>uv_src := p\<rparr>)) \<and>
     (\<forall>p. acts (udp_checked W) (udp_view W) (udp_set_dst_port W p) (\<lambda>v. v\<lparr>uv_dst := p\<rparr>)) \<and>
     (\<forall>s d. acts (udp_checked W) (udp_view W) (udp_fill_checksum W s d) (\<lambda>v. v))"

definition wire_laws :: "wire_lib \<Rightarrow> bool" where
  "wire_laws W \<longleftrightarrow> eth_laws W \<and> ip4_laws W \<and> ip6_laws W \<and> tcp_laws W \<and> udp_laws W"


locale wire =
  fixes W :: wire_lib
  assumes laws: "wire_laws W"
begin

lemma eth_set_src: "acts (eth_checked W) (eth_view W) (eth_set_src W a) (\<lambda>v. v\<lparr>ev_src := a\<rparr>)"
  and eth_set_dst: "acts (eth_checked W) (eth_view W) (eth_set_dst W a) (\<lambda>v. v\<lparr>ev_dst := a\<rparr>)"
  and eth_put: "puts (eth_checked W) (eth_view W) (eth_payload W) (eth_put_payload W) (\<lambda>y v. v\<lparr>ev_payload := y\<rparr>)"
  using laws by (simp_all add: wire_laws_def eth_laws_def)

lemma ip4_set_src: "acts (ip4_ok W) (ip4_view W) (ip4_set_src W b) (\<lambda>v. v\<lparr>iv_src := b\<rparr>)"
  and ip4_set_dst: "acts (ip4_ok W) (ip4_view W) (ip4_set_dst W b) (\<lambda>v. v\<lparr>iv_dst := b\<rparr>)"
  and ip4_fill: "acts (ip4_ok W) (ip4_view W) (ip4_fill_checksum W) (\<lambda>v. v)"
  and ip4_put: "puts (ip4_ok W) (ip4_view W) (ip4_payload W) (ip4_put_payload W) (\<lambda>y v. v\<lparr>iv_payload := y\<rparr>)"
  using laws by (simp_all add: wire_laws_def ip4_laws_def)

lemma ip6_set_src: "acts (ip6_checked W) (ip6_view W) (ip6_set_src W c) (\<lambda>v. v\<lparr>iv_src := c\<rparr>)"
  and ip6_set_dst: "acts (ip6_checked W) (ip6_view W) (ip6_set_dst W c) (\<lambda>v. v\<lparr>iv_dst := c\<rparr>)"
  and ip6_put: "puts (ip6_checked W) (ip6_view W) (ip6_payload W) (ip6_put_payload W) (\<lambda>y v. v\<lparr>iv_payload := y\<rparr>)"
  using laws by (simp_all add: wire_laws_def ip6_laws_def)

lemma tcp_set_src: "acts (tcp_checked W) (tcp_view W) (tcp_set_src_port W p) (\<lambda>v. v\<lparr>tv_src := p\<rparr>)"
  and tcp_set_dst: "acts (tcp_checked W) (tcp_view W) (tcp_set_dst_port W p) (\<lambda>v. v\<lparr>tv_dst := p\<rparr>)"
  and tcp_fill: "acts (tcp_checked W) (tcp_view W) (tcp_fill_checksum W s d) (\<lambda>v. v)"
  using laws by (simp_all add: wire_laws_def tcp_laws_def)

lemma udp_set_src: "acts (udp_checked W) (udp_view W) (udp_set_src_port W p) (\<lambda>v. v\<lparr>uv_src := p\<rparr>)"
  and udp_set_dst: "acts (udp_checked W) (udp_view W) (udp_set_dst_port W p) (\<lambda>v. v\<lparr>uv_dst := p\<rparr>)"
  and udp_fill: "acts (udp_checked W) (udp_view W) (udp_fill_checksum W s d) (\<lambda>v. v)"
  using laws by (simp_all add: wire_laws_def udp_laws_def)

end

section \<open>A reader after the RFCs\<close>

definition slice :: "nat \<Rightarrow> nat \<Rightarrow> bytes \<Rightarrow> bytes" where
  "slice off n b = take n (drop off b)"

definition put_at :: "nat \<Rightarrow> bytes \<Rightarrow> bytes \<Rightarrow> bytes" where
  "put_at off bs b = take off b @ bs @ drop (off + length bs) b"

definition u16_of :: "bytes \<Rightarrow> u16" where
  "u16_of s = u16_from_be_bytes (s ! 0) (s ! 1)"

definition get_u16 :: "nat \<Rightarrow> bytes \<Rightarrow> u16" where
  "get_u16 off b = u16_of (slice off 2 b)"

lemma length_put_at [simp]: "off + length bs \<le> length b \<Longrightarrow> length (put_at off bs b) = length b"
  by (simp add: put_at_def)

lemma nth_put_at:
  "off + length bs \<le> length b \<Longrightarrow> i < length b \<Longrightarrow>
    put_at off bs b ! i = (if off \<le> i \<and> i < off + length bs then bs ! (i - off) else b ! i)"
  by (auto simp: put_at_def nth_append min_def)

lemma slice_put_same: "off + length bs \<le> length b \<Longrightarrow> length bs = n \<Longrightarrow> slice off n (put_at off bs b) = bs"
  by (simp add: slice_def put_at_def)

lemma slice_nth_eq:
  assumes "\<And>i. off \<le> i \<Longrightarrow> i < off + n \<Longrightarrow> i < length b \<Longrightarrow> b ! i = c ! i" and "length b = length c"
  shows "slice off n b = slice off n c"
  using assms by (auto simp: slice_def intro!: nth_equalityI)

lemma slice_put_other:
  "off + length bs \<le> length b \<Longrightarrow> off + length bs \<le> a \<or> a + n \<le> off \<Longrightarrow> slice a n (put_at off bs b) = slice a n b"
  by (rule slice_nth_eq) (auto simp: nth_put_at)

lemma nth_put_other:
  "off + length bs \<le> length b \<Longrightarrow> i < length b \<Longrightarrow> i < off \<or> off + length bs \<le> i \<Longrightarrow> put_at off bs b ! i = b ! i"
  by (auto simp: nth_put_at)

lemma drop_put_other:
  "off + length bs \<le> length b \<Longrightarrow> off + length bs \<le> k \<Longrightarrow> drop k (put_at off bs b) = drop k b"
  by (simp add: put_at_def)

lemma drop_put_same: "off + length bs = length b \<Longrightarrow> drop off (put_at off bs b) = bs"
  by (simp add: put_at_def)

lemma u16_of_to [simp]: "u16_of (u16_to_be_bytes p) = p"
  by (simp add: u16_of_def u16_to_be_bytes_def)

lemmas put_facts = slice_put_same slice_put_other nth_put_other drop_put_other drop_put_same

fun sum16 :: "bytes \<Rightarrow> nat" where
  "sum16 (a # b # r) = 256 * unat a + unat b + sum16 r"
| "sum16 [a] = 256 * unat a"
| "sum16 [] = 0"

definition checksum16 :: "nat \<Rightarrow> u16" where
  "checksum16 s = NOT (of_nat (if s = 0 then 0 else (s - 1) mod 65535 + 1))"

definition ip_octets :: "ip_addr \<Rightarrow> bytes" where
  "ip_octets i = (case i of V4 a \<Rightarrow> v4_octets a | V6 a \<Rightarrow> v6_octets a)"

definition l4_checksum :: "nat \<Rightarrow> ip_addr \<Rightarrow> ip_addr \<Rightarrow> bytes \<Rightarrow> u16" where
  "l4_checksum proto s d b = checksum16 (sum16 (ip_octets s) + sum16 (ip_octets d) + proto + length b + sum16 b)"

definition proto_of :: "u8 \<Rightarrow> ip_proto" where
  "proto_of n = (if n = 6 then ProtoTcp else if n = 17 then ProtoUdp else ProtoOther)"

definition mac_of :: "bytes \<Rightarrow> mac_addr" where
  "mac_of s = Mac (s ! 0) (s ! 1) (s ! 2) (s ! 3) (s ! 4) (s ! 5)"

definition mac_at :: "nat \<Rightarrow> bytes \<Rightarrow> mac_addr" where
  "mac_at off b = mac_of (slice off 6 b)"

fun mac_bytes :: "mac_addr \<Rightarrow> bytes" where
  "mac_bytes (Mac a b c d e f) = [a, b, c, d, e, f]"

definition ihl :: "bytes \<Rightarrow> nat" where
  "ihl b = 4 * (unat (b ! 0) mod 16)"

definition ip4_total :: "bytes \<Rightarrow> nat" where
  "ip4_total b = unat (get_u16 2 b)"

definition ip6_total :: "bytes \<Rightarrow> nat" where
  "ip6_total b = 40 + unat (get_u16 4 b)"

definition tcp_hlen :: "bytes \<Rightarrow> nat" where
  "tcp_hlen b = 4 * (unat (b ! 12) div 16)"

definition udp_len :: "bytes \<Rightarrow> nat" where
  "udp_len b = unat (get_u16 4 b)"

definition rfc_wire :: wire_lib where
  "rfc_wire = \<lparr>
     eth_checked = (\<lambda>b. 14 \<le> length b),
     eth_ethertype = (\<lambda>b. let t = get_u16 12 b in
        if t = 0x0800 then EtIpv4 else if t = 0x86DD then EtIpv6 else EtOther),
     eth_src = mac_at 6, eth_dst = mac_at 0,
     eth_set_src = (\<lambda>a. put_at 6 (mac_bytes a)), eth_set_dst = (\<lambda>a. put_at 0 (mac_bytes a)),
     eth_payload = drop 14, eth_put_payload = put_at 14,
     ip4_checked = (\<lambda>b. 20 \<le> length b \<and> ihl b \<le> ip4_total b \<and> ip4_total b \<le> length b),
     ip4_header_len = ihl,
     ip4_src = (\<lambda>b. v4_of_octets (slice 12 4 b)), ip4_dst = (\<lambda>b. v4_of_octets (slice 16 4 b)),
     ip4_proto = (\<lambda>b. proto_of (b ! 9)),
     ip4_set_src = (\<lambda>a. put_at 12 (v4_octets a)), ip4_set_dst = (\<lambda>a. put_at 16 (v4_octets a)),
     ip4_payload = (\<lambda>b. slice (ihl b) (ip4_total b - ihl b) b),
     ip4_put_payload = (\<lambda>y b. put_at (ihl b) y b),
     ip4_fill_checksum = (\<lambda>b. put_at 10 (u16_to_be_bytes
        (checksum16 (sum16 (put_at 10 [0, 0] (take (ihl b) b))))) b),
     ip6_checked = (\<lambda>b. 40 \<le> length b \<and> ip6_total b \<le> length b),
     ip6_src = (\<lambda>b. v6_of_octets (slice 8 16 b)), ip6_dst = (\<lambda>b. v6_of_octets (slice 24 16 b)),
     ip6_proto = (\<lambda>b. proto_of (b ! 6)),
     ip6_set_src = (\<lambda>a. put_at 8 (v6_octets a)), ip6_set_dst = (\<lambda>a. put_at 24 (v6_octets a)),
     ip6_payload = (\<lambda>b. slice 40 (ip6_total b - 40) b),
     ip6_put_payload = put_at 40,
     tcp_checked = (\<lambda>b. 20 \<le> length b \<and> 20 \<le> tcp_hlen b \<and> tcp_hlen b \<le> length b),
     tcp_src_port = get_u16 0, tcp_dst_port = get_u16 2,
     tcp_syn = (\<lambda>b. bit (b ! 13) 1), tcp_ack = (\<lambda>b. bit (b ! 13) 4),
     tcp_rst = (\<lambda>b. bit (b ! 13) 2), tcp_fin = (\<lambda>b. bit (b ! 13) 0),
     tcp_payload = (\<lambda>b. drop (tcp_hlen b) b),
     tcp_set_src_port = (\<lambda>p. put_at 0 (u16_to_be_bytes p)),
     tcp_set_dst_port = (\<lambda>p. put_at 2 (u16_to_be_bytes p)),
     tcp_fill_checksum = (\<lambda>s d b. put_at 16 (u16_to_be_bytes (l4_checksum 6 s d (put_at 16 [0, 0] b))) b),
     udp_checked = (\<lambda>b. 8 \<le> length b \<and> 8 \<le> udp_len b \<and> udp_len b \<le> length b),
     udp_src_port = get_u16 0, udp_dst_port = get_u16 2,
     udp_payload = (\<lambda>b. slice 8 (udp_len b - 8) b),
     udp_set_src_port = (\<lambda>p. put_at 0 (u16_to_be_bytes p)),
     udp_set_dst_port = (\<lambda>p. put_at 2 (u16_to_be_bytes p)),
     udp_fill_checksum = (\<lambda>s d b. put_at 6 (u16_to_be_bytes
        (l4_checksum 17 s d (put_at 6 [0, 0] (take (udp_len b) b)))) b)\<rparr>"

lemma rfc_wire_sel:
  "eth_checked rfc_wire b \<longleftrightarrow> 14 \<le> length b"
  "eth_ethertype rfc_wire b = (let t = get_u16 12 b in
     if t = 0x0800 then EtIpv4 else if t = 0x86DD then EtIpv6 else EtOther)"
  "eth_src rfc_wire b = mac_at 6 b" "eth_dst rfc_wire b = mac_at 0 b"
  "eth_set_src rfc_wire a b = put_at 6 (mac_bytes a) b" "eth_set_dst rfc_wire a b = put_at 0 (mac_bytes a) b"
  "eth_payload rfc_wire b = drop 14 b" "eth_put_payload rfc_wire y b = put_at 14 y b"
  by (simp_all add: rfc_wire_def)

lemma length_mac_bytes [simp]: "length (mac_bytes a) = 6"
  by (cases a) simp

lemma mac_of_bytes [simp]: "mac_of (mac_bytes a) = a"
  by (cases a) (simp add: mac_of_def)

lemma rfc_eth_laws: "eth_laws rfc_wire"
  unfolding eth_laws_def acts_def puts_def rfc_wire_sel eth_view_def mac_at_def get_u16_def
  by (auto simp: put_facts)


lemma rfc_ip4_sel:
  "ip4_checked rfc_wire b \<longleftrightarrow> 20 \<le> length b \<and> ihl b \<le> ip4_total b \<and> ip4_total b \<le> length b"
  "ip4_header_len rfc_wire b = ihl b"
  "ip4_src rfc_wire b = v4_of_octets (slice 12 4 b)" "ip4_dst rfc_wire b = v4_of_octets (slice 16 4 b)"
  "ip4_proto rfc_wire b = proto_of (b ! 9)"
  "ip4_set_src rfc_wire a b = put_at 12 (v4_octets a) b" "ip4_set_dst rfc_wire a b = put_at 16 (v4_octets a) b"
  "ip4_payload rfc_wire b = slice (ihl b) (ip4_total b - ihl b) b"
  "ip4_put_payload rfc_wire y b = put_at (ihl b) y b"
  "ip4_fill_checksum rfc_wire b = put_at 10 (u16_to_be_bytes
     (checksum16 (sum16 (put_at 10 [0, 0] (take (ihl b) b))))) b"
  by (simp_all add: rfc_wire_def)

lemma rfc_ip6_sel:
  "ip6_checked rfc_wire b \<longleftrightarrow> 40 \<le> length b \<and> ip6_total b \<le> length b"
  "ip6_src rfc_wire b = v6_of_octets (slice 8 16 b)" "ip6_dst rfc_wire b = v6_of_octets (slice 24 16 b)"
  "ip6_proto rfc_wire b = proto_of (b ! 6)"
  "ip6_set_src rfc_wire c b = put_at 8 (v6_octets c) b" "ip6_set_dst rfc_wire c b = put_at 24 (v6_octets c) b"
  "ip6_payload rfc_wire b = slice 40 (ip6_total b - 40) b" "ip6_put_payload rfc_wire y b = put_at 40 y b"
  by (simp_all add: rfc_wire_def)

lemma rfc_tcp_sel:
  "tcp_checked rfc_wire b \<longleftrightarrow> 20 \<le> length b \<and> 20 \<le> tcp_hlen b \<and> tcp_hlen b \<le> length b"
  "tcp_src_port rfc_wire b = get_u16 0 b" "tcp_dst_port rfc_wire b = get_u16 2 b"
  "tcp_syn rfc_wire b \<longleftrightarrow> bit (b ! 13) 1" "tcp_ack rfc_wire b \<longleftrightarrow> bit (b ! 13) 4"
  "tcp_rst rfc_wire b \<longleftrightarrow> bit (b ! 13) 2" "tcp_fin rfc_wire b \<longleftrightarrow> bit (b ! 13) 0"
  "tcp_payload rfc_wire b = drop (tcp_hlen b) b"
  "tcp_set_src_port rfc_wire p b = put_at 0 (u16_to_be_bytes p) b"
  "tcp_set_dst_port rfc_wire p b = put_at 2 (u16_to_be_bytes p) b"
  "tcp_fill_checksum rfc_wire s d b = put_at 16 (u16_to_be_bytes (l4_checksum 6 s d (put_at 16 [0, 0] b))) b"
  by (simp_all add: rfc_wire_def)

lemma rfc_udp_sel:
  "udp_checked rfc_wire b \<longleftrightarrow> 8 \<le> length b \<and> 8 \<le> udp_len b \<and> udp_len b \<le> length b"
  "udp_src_port rfc_wire b = get_u16 0 b" "udp_dst_port rfc_wire b = get_u16 2 b"
  "udp_payload rfc_wire b = slice 8 (udp_len b - 8) b"
  "udp_set_src_port rfc_wire p b = put_at 0 (u16_to_be_bytes p) b"
  "udp_set_dst_port rfc_wire p b = put_at 2 (u16_to_be_bytes p) b"
  "udp_fill_checksum rfc_wire s d b = put_at 6 (u16_to_be_bytes
     (l4_checksum 17 s d (put_at 6 [0, 0] (take (udp_len b) b)))) b"
  by (simp_all add: rfc_wire_def)

lemma length_slice [simp]: "off + n \<le> length b \<Longrightarrow> length (slice off n b) = n"
  by (simp add: slice_def)

lemma rfc_ip4_laws: "ip4_laws rfc_wire"
proof -
  have keep: "ihl (put_at off y b) = ihl b" "ip4_total (put_at off y b) = ip4_total b"
      "(put_at off y b) ! 9 = b ! 9"
    if "20 \<le> length b" "10 \<le> off" "off + length y \<le> length b" for off y b
    using that by (cases "b = []"; simp add: ihl_def ip4_total_def get_u16_def put_facts)+
  show ?thesis
    unfolding ip4_laws_def acts_def puts_def ip4_ok_def rfc_ip4_sel ip4_view_def
    by (intro conjI allI impI; elim conjE; simp add: keep put_facts)
qed

lemma rfc_ip6_laws: "ip6_laws rfc_wire"
proof -
  have keep: "ip6_total (put_at off y b) = ip6_total b" "(put_at off y b) ! 6 = b ! 6"
    if "40 \<le> length b" "8 \<le> off" "off + length y \<le> length b" for off y b
    using that by (simp_all add: ip6_total_def get_u16_def put_facts)
  show ?thesis
    unfolding ip6_laws_def acts_def puts_def rfc_ip6_sel ip6_view_def
    by (intro conjI allI impI; elim conjE; simp add: keep put_facts)
qed

lemma rfc_tcp_laws: "tcp_laws rfc_wire"
proof -
  have keep: "tcp_hlen (put_at off y b) = tcp_hlen b" "(put_at off y b) ! 13 = b ! 13"
    if "20 \<le> length b" "off + length y \<le> 12 \<or> 14 \<le> off" "off + length y \<le> length b" for off y b
    using that by (auto simp: tcp_hlen_def put_facts)
  show ?thesis
    unfolding tcp_laws_def acts_def rfc_tcp_sel tcp_view_def get_u16_def
    by (intro conjI allI impI; elim conjE; simp add: keep put_facts)
qed

lemma rfc_udp_laws: "udp_laws rfc_wire"
proof -
  have keep: "udp_len (put_at off y b) = udp_len b"
    if "8 \<le> length b" "off + length y \<le> 4 \<or> 6 \<le> off" "off + length y \<le> length b" for off y b
    using that by (auto simp: udp_len_def get_u16_def put_facts)
  show ?thesis
    unfolding udp_laws_def acts_def rfc_udp_sel udp_view_def
    by (intro conjI allI impI; elim conjE; simp add: keep get_u16_def put_facts)
qed

lemma rfc_wire_laws: "wire_laws rfc_wire"
  by (simp add: wire_laws_def rfc_eth_laws rfc_ip4_laws rfc_ip6_laws rfc_tcp_laws rfc_udp_laws)

interpretation rfc: wire rfc_wire
  by unfold_locales (rule rfc_wire_laws)

end
