(* ===== verification/Packet.thy ===== *)
theory Packet
  imports Flow Wire
begin

text \<open>
  The packet code, \<open>src/src/router/packet.rs\<close>: reading the addresses, ports and flags of a frame,
  asking \<open>Flow\<close> for the decision, and rewriting the frame in place. A mutable view of a part of
  the buffer is written as reading that part, changing it, and putting it back. Slicing the
  driver's buffer beyond its end panics; the panic is a value of the result.
\<close>

datatype panic = SliceOutOfRange

datatype proxy_direction = ToProxy | FromProxy

datatype packet_kind = TcpV4 | TcpV6 | UdpV4 | UdpV6

definition kind_is_v6 :: "packet_kind \<Rightarrow> bool" where
  "kind_is_v6 k \<longleftrightarrow> k = TcpV6 \<or> k = UdpV6"

record packet_info =
  pi_kind :: packet_kind
  pi_src_ip :: ip_addr
  pi_dst_ip :: ip_addr
  pi_src_port :: u16
  pi_dst_port :: u16
  pi_syn :: bool
  pi_ack :: bool
  pi_rst :: bool
  pi_fin :: bool

text \<open>\<open>IntermediateBuffer\<close> of the driver: the valid length, the data area and the direction flag.\<close>

record intermediate_buffer =
  ib_length :: u32
  ib_data :: bytes
  ib_on_send :: bool

section \<open>Reading a frame\<close>

definition parse_ipv4 :: "wire_lib \<Rightarrow> bytes \<Rightarrow> packet_info option" where
  "parse_ipv4 W frame =
     (let ipv4 = eth_payload W frame in
      if \<not> ip4_checked W ipv4 then None
      else
        let src_ip = V4 (ip4_src W ipv4); dst_ip = V4 (ip4_dst W ipv4) in
        (case ip4_proto W ipv4 of
           ProtoTcp \<Rightarrow>
             let tcp = ip4_payload W ipv4 in
             if \<not> tcp_checked W tcp then None
             else Some \<lparr>pi_kind = TcpV4, pi_src_ip = src_ip, pi_dst_ip = dst_ip,
                        pi_src_port = tcp_src_port W tcp, pi_dst_port = tcp_dst_port W tcp,
                        pi_syn = tcp_syn W tcp, pi_ack = tcp_ack W tcp,
                        pi_rst = tcp_rst W tcp, pi_fin = tcp_fin W tcp\<rparr>
         | ProtoUdp \<Rightarrow>
             let dst = ip4_dst W ipv4 in
             if v4_is_multicast dst \<or> v4_is_broadcast dst then None
             else
               let udp = ip4_payload W ipv4 in
               if \<not> udp_checked W udp then None
               else Some \<lparr>pi_kind = UdpV4, pi_src_ip = src_ip, pi_dst_ip = dst_ip,
                          pi_src_port = udp_src_port W udp, pi_dst_port = udp_dst_port W udp,
                          pi_syn = False, pi_ack = False, pi_rst = False, pi_fin = False\<rparr>
         | ProtoOther \<Rightarrow> None))"

definition parse_ipv6 :: "wire_lib \<Rightarrow> bytes \<Rightarrow> packet_info option" where
  "parse_ipv6 W frame =
     (let ipv6 = eth_payload W frame in
      if \<not> ip6_checked W ipv6 then None
      else
        let src_ip = V6 (ip6_src W ipv6); dst_ip = V6 (ip6_dst W ipv6) in
        (case ip6_proto W ipv6 of
           ProtoTcp \<Rightarrow>
             let tcp = ip6_payload W ipv6 in
             if \<not> tcp_checked W tcp then None
             else Some \<lparr>pi_kind = TcpV6, pi_src_ip = src_ip, pi_dst_ip = dst_ip,
                        pi_src_port = tcp_src_port W tcp, pi_dst_port = tcp_dst_port W tcp,
                        pi_syn = tcp_syn W tcp, pi_ack = tcp_ack W tcp,
                        pi_rst = tcp_rst W tcp, pi_fin = tcp_fin W tcp\<rparr>
         | ProtoUdp \<Rightarrow>
             if v6_is_multicast (ip6_dst W ipv6) then None
             else
               let udp = ip6_payload W ipv6 in
               if \<not> udp_checked W udp then None
               else Some \<lparr>pi_kind = UdpV6, pi_src_ip = src_ip, pi_dst_ip = dst_ip,
                          pi_src_port = udp_src_port W udp, pi_dst_port = udp_dst_port W udp,
                          pi_syn = False, pi_ack = False, pi_rst = False, pi_fin = False\<rparr>
         | ProtoOther \<Rightarrow> None))"

definition parse_frame :: "wire_lib \<Rightarrow> bytes \<Rightarrow> packet_info option" where
  "parse_frame W frame =
     (if \<not> eth_checked W frame then None
      else
        (case eth_ethertype W frame of
           EtIpv4 \<Rightarrow> parse_ipv4 W frame
         | EtIpv6 \<Rightarrow> parse_ipv6 W frame
         | EtOther \<Rightarrow> None))"

text \<open>\<open>&mut buffer[..length]\<close>.\<close>

definition frame_of :: "intermediate_buffer \<Rightarrow> panic + bytes" where
  "frame_of packet =
     (if length (ib_data packet) < unat (ib_length packet) then Inl SliceOutOfRange
      else Inr (take (unat (ib_length packet)) (ib_data packet)))"

definition parse_packet_info :: "wire_lib \<Rightarrow> intermediate_buffer \<Rightarrow> panic + packet_info option" where
  "parse_packet_info W packet =
     (if unat (ib_length packet) < 14 then Inr None
      else rbind (frame_of packet) (\<lambda>frame. Inr (parse_frame W frame)))"

section \<open>Rewriting a frame\<close>

definition swap_ipv4 :: "wire_lib \<Rightarrow> bytes \<Rightarrow> bytes" where
  "swap_ipv4 W ipv4 =
     (let src = ip4_src W ipv4; dst = ip4_dst W ipv4 in
      ip4_set_dst W src (ip4_set_src W dst ipv4))"

definition swap_ipv6 :: "wire_lib \<Rightarrow> bytes \<Rightarrow> bytes" where
  "swap_ipv6 W ipv6 =
     (let src = ip6_src W ipv6; dst = ip6_dst W ipv6 in
      ip6_set_dst W src (ip6_set_src W dst ipv6))"

definition swap_mac :: "wire_lib \<Rightarrow> bytes \<Rightarrow> bytes" where
  "swap_mac W frame =
     (let src = eth_src W frame; dst = eth_dst W frame in
      eth_set_dst W src (eth_set_src W dst frame))"

fun direction_of :: "port_rewrite \<Rightarrow> proxy_direction" where
  "direction_of (RewriteToProxy port) = ToProxy"
| "direction_of (RewriteFromProxy port) = FromProxy"

fun tcp_rewrite_port :: "wire_lib \<Rightarrow> port_rewrite \<Rightarrow> bytes \<Rightarrow> bytes" where
  "tcp_rewrite_port W (RewriteToProxy port) tcp = tcp_set_dst_port W port tcp"
| "tcp_rewrite_port W (RewriteFromProxy port) tcp = tcp_set_src_port W port tcp"

fun udp_rewrite_port :: "wire_lib \<Rightarrow> port_rewrite \<Rightarrow> bytes \<Rightarrow> bytes" where
  "udp_rewrite_port W (RewriteToProxy port) udp = udp_set_dst_port W port udp"
| "udp_rewrite_port W (RewriteFromProxy port) udp = udp_set_src_port W port udp"

definition apply_tcp_v4 :: "wire_lib \<Rightarrow> port_rewrite \<Rightarrow> bytes \<Rightarrow> (proxy_direction \<times> bytes) option" where
  "apply_tcp_v4 W rewrite frame =
     (let ipv4 = eth_payload W frame in
      if \<not> ip4_checked W ipv4 then None
      else
        let tcp = ip4_payload W ipv4 in
        if \<not> tcp_checked W tcp then None
        else
          let ipv4 = ip4_put_payload W (tcp_rewrite_port W rewrite tcp) ipv4;
              ipv4 = swap_ipv4 W ipv4;
              src = ip4_src W ipv4; dst = ip4_dst W ipv4;
              tcp = ip4_payload W ipv4;
              ipv4 = (if tcp_checked W tcp
                      then ip4_put_payload W (tcp_fill_checksum W (V4 src) (V4 dst) tcp) ipv4 else ipv4);
              ipv4 = ip4_fill_checksum W ipv4
          in Some (direction_of rewrite, swap_mac W (eth_put_payload W ipv4 frame)))"

definition apply_tcp_v6 :: "wire_lib \<Rightarrow> port_rewrite \<Rightarrow> bytes \<Rightarrow> (proxy_direction \<times> bytes) option" where
  "apply_tcp_v6 W rewrite frame =
     (let ipv6 = eth_payload W frame in
      if \<not> ip6_checked W ipv6 then None
      else
        let tcp = ip6_payload W ipv6 in
        if \<not> tcp_checked W tcp then None
        else
          let ipv6 = ip6_put_payload W (tcp_rewrite_port W rewrite tcp) ipv6;
              ipv6 = swap_ipv6 W ipv6;
              src = ip6_src W ipv6; dst = ip6_dst W ipv6;
              tcp = ip6_payload W ipv6;
              ipv6 = (if tcp_checked W tcp
                      then ip6_put_payload W (tcp_fill_checksum W (V6 src) (V6 dst) tcp) ipv6 else ipv6)
          in Some (direction_of rewrite, swap_mac W (eth_put_payload W ipv6 frame)))"

definition apply_udp_v4 :: "wire_lib \<Rightarrow> port_rewrite \<Rightarrow> bytes \<Rightarrow> (proxy_direction \<times> bytes) option" where
  "apply_udp_v4 W rewrite frame =
     (let ipv4 = eth_payload W frame in
      if \<not> ip4_checked W ipv4 then None
      else
        let udp = ip4_payload W ipv4 in
        if \<not> udp_checked W udp then None
        else
          let ipv4 = ip4_put_payload W (udp_rewrite_port W rewrite udp) ipv4;
              ipv4 = swap_ipv4 W ipv4;
              src = ip4_src W ipv4; dst = ip4_dst W ipv4;
              udp = ip4_payload W ipv4;
              ipv4 = (if udp_checked W udp
                      then ip4_put_payload W (udp_fill_checksum W (V4 src) (V4 dst) udp) ipv4 else ipv4);
              ipv4 = ip4_fill_checksum W ipv4
          in Some (direction_of rewrite, swap_mac W (eth_put_payload W ipv4 frame)))"

definition apply_udp_v6 :: "wire_lib \<Rightarrow> port_rewrite \<Rightarrow> bytes \<Rightarrow> (proxy_direction \<times> bytes) option" where
  "apply_udp_v6 W rewrite frame =
     (let ipv6 = eth_payload W frame in
      if \<not> ip6_checked W ipv6 then None
      else
        let udp = ip6_payload W ipv6 in
        if \<not> udp_checked W udp then None
        else
          let ipv6 = ip6_put_payload W (udp_rewrite_port W rewrite udp) ipv6;
              ipv6 = swap_ipv6 W ipv6;
              src = ip6_src W ipv6; dst = ip6_dst W ipv6;
              udp = ip6_payload W ipv6;
              ipv6 = (if udp_checked W udp
                      then ip6_put_payload W (udp_fill_checksum W (V6 src) (V6 dst) udp) ipv6 else ipv6)
          in Some (direction_of rewrite, swap_mac W (eth_put_payload W ipv6 frame)))"

fun apply_kind :: "wire_lib \<Rightarrow> packet_kind \<Rightarrow> port_rewrite \<Rightarrow> bytes \<Rightarrow> (proxy_direction \<times> bytes) option" where
  "apply_kind W TcpV4 = apply_tcp_v4 W"
| "apply_kind W TcpV6 = apply_tcp_v6 W"
| "apply_kind W UdpV4 = apply_udp_v4 W"
| "apply_kind W UdpV6 = apply_udp_v6 W"

definition apply_rewrite ::
    "wire_lib \<Rightarrow> intermediate_buffer \<Rightarrow> packet_info \<Rightarrow> port_rewrite option \<Rightarrow>
     panic + proxy_direction option \<times> intermediate_buffer" where
  "apply_rewrite W packet info rewrite =
     (case rewrite of
        None \<Rightarrow> Inr (None, packet)
      | Some rewrite \<Rightarrow>
          if unat (ib_length packet) < 14 then Inr (None, packet)
          else rbind (frame_of packet) (\<lambda>frame.
            if \<not> eth_checked W frame then Inr (None, packet)
            else
              (case apply_kind W (pi_kind info) rewrite frame of
                 None \<Rightarrow> Inr (None, packet)
               | Some (direction, frame) \<Rightarrow>
                   Inr (Some direction,
                        packet\<lparr>ib_data := frame @ drop (unat (ib_length packet)) (ib_data packet)\<rparr>))))"

section \<open>One packet\<close>

definition process_packet ::
    "wire_lib \<Rightarrow> 'l flow_env \<Rightarrow> intermediate_buffer \<Rightarrow> 'l router \<Rightarrow>
     panic + proxy_direction option \<times> intermediate_buffer \<times> 'l router" where
  "process_packet W env packet r =
     rbind (parse_packet_info W packet) (\<lambda>parsed.
       case parsed of
         None \<Rightarrow> Inr (None, packet, r)
       | Some info \<Rightarrow>
           let src = socket_addr_new (pi_src_ip info) (pi_src_port info);
               dst = socket_addr_new (pi_dst_ip info) (pi_dst_port info);
               (rewrite, r) =
                 (if pi_kind info = TcpV4 \<or> pi_kind info = TcpV6 then
                    process_tcp_payload env src dst (pi_src_ip info) (pi_dst_ip info)
                      (pi_src_port info) (pi_dst_port info) (kind_is_v6 (pi_kind info))
                      (pi_syn info) (pi_ack info) (pi_rst info) (pi_fin info) r
                  else
                    process_udp_payload env src dst (pi_src_ip info) (pi_dst_ip info)
                      (pi_src_port info) (pi_dst_port info) (kind_is_v6 (pi_kind info)) r)
           in rbind (apply_rewrite W packet info rewrite) (\<lambda>(direction, packet). Inr (direction, packet, r)))"

end
