(* ===== verification/FlowSpec.thy ===== *)
theory FlowSpec
  imports Flow
begin

text \<open>
  What the per-packet decisions of \<open>Flow\<close> achieve. The router lives through configuration and
  life-cycle steps (\<open>Router\<close>), packets and cleanups in any order (\<open>live_step\<close>); its tables keep
  their invariant. A redirected flow is followed from its first packet, through the callback by
  which the proxy asks for the original destination (the contract \<open>peer_query\<close>, interpreted in
  \<open>Mappings\<close>), to the packets the proxy sends back.
\<close>

section \<open>Frames\<close>

lemma get_proxy_port_frame [simp]:
  "get_proxy_port_tcp order (r\<lparr>process_lookup := l\<rparr>) path v6 = get_proxy_port_tcp order r path v6"
  "get_proxy_port_udp order (r\<lparr>process_lookup := l\<rparr>) path v6 = get_proxy_port_udp order r path v6"
  "is_tcp_proxy_port (r\<lparr>process_lookup := l\<rparr>) p = is_tcp_proxy_port r p"
  "is_udp_proxy_port (r\<lparr>process_lookup := l\<rparr>) p = is_udp_proxy_port r p"
  by (simp_all add: get_proxy_port_tcp_def get_proxy_port_udp_def is_tcp_proxy_port_def is_udp_proxy_port_def)

text \<open>The branches of the TCP decision, one fact each.\<close>

lemma tcp_syn_redirected:
  assumes "syn" and "\<not> ack"
    and "fe_find_process_path env False src dst (fe_now env) (process_lookup r) = (Inr path, l)"
    and "get_proxy_port_tcp (fe_name_order env) r path v6 = port" and "port \<noteq> 0"
  shows "process_tcp_payload env src dst s d p q v6 syn ack rst fin r =
    (Some (RewriteToProxy port),
     r\<lparr>process_lookup := l, tcp_connections := hm_or_insert (d, s, p)
        \<lparr>tm_dst_ip = d, tm_dst_port = q, tm_proxy_port = port\<rparr> (tcp_connections r)\<rparr>)"
  using assms by (simp add: process_tcp_payload_def Let_def)

lemma tcp_known_flow:
  assumes "\<not> (syn \<and> \<not> ack)" and "hm_get (tcp_connections r) (d, s, p) = Some e"
  shows "process_tcp_payload env src dst s d p q v6 syn ack rst fin r =
    (Some (RewriteToProxy (tm_proxy_port e)),
     if rst \<or> fin then r\<lparr>tcp_connections := hm_remove (d, s, p) (tcp_connections r)\<rparr> else r)"
  using assms by (auto simp: process_tcp_payload_def)

lemma tcp_from_proxy:
  assumes "\<not> (syn \<and> \<not> ack)" and "hm_get (tcp_connections r) (d, s, p) = None"
    and "is_tcp_proxy_port r p"
  shows "process_tcp_payload env src dst s d p q v6 syn ack rst fin r =
    (case hm_get (tcp_connections r) (d, s, q) of
       Some e \<Rightarrow> (Some (RewriteFromProxy (tm_dst_port e)),
                  if rst \<or> fin then r\<lparr>tcp_connections := hm_remove (d, s, q) (tcp_connections r)\<rparr> else r)
     | None \<Rightarrow> (None, r))"
  using assms by (auto simp: process_tcp_payload_def Let_def split: option.split)

lemma tcp_unrelated:
  assumes "\<not> (syn \<and> \<not> ack)" and "hm_get (tcp_connections r) (d, s, p) = None"
    and "\<not> is_tcp_proxy_port r p"
  shows "process_tcp_payload env src dst s d p q v6 syn ack rst fin r = (None, r)"
  using assms by (auto simp: process_tcp_payload_def)

text \<open>The branches of the UDP decision.\<close>

lemma udp_known_flow:
  assumes "hm_get (by_flow (udp_endpoints r)) (UdpFlowKey d s p) = Some e"
  shows "process_udp_payload env src dst s d p q v6 r =
    (if um_dst_port e = q
     then (Some (RewriteToProxy (um_proxy_port e)),
           r\<lparr>udp_endpoints := (udp_endpoints r)\<lparr>by_flow :=
              hm_insert (UdpFlowKey d s p) (e\<lparr>um_last_active := fe_now env\<rparr>) (by_flow (udp_endpoints r))\<rparr>\<rparr>)
     else (None, r))"
  using assms by (simp add: process_udp_payload_def Let_def)

lemma udp_redirected:
  assumes "hm_get (by_flow (udp_endpoints r)) (UdpFlowKey d s p) = None"
    and "fe_find_process_path env True src dst (fe_now env) (process_lookup r) = (Inr path, l)"
    and "get_proxy_port_udp (fe_name_order env) r path v6 = port" and "port \<noteq> 0"
  shows "process_udp_payload env src dst s d p q v6 r =
    (Some (RewriteToProxy port),
     r\<lparr>process_lookup := l, udp_endpoints := mappings_insert (UdpFlowKey d s p)
        \<lparr>um_dst_ip = d, um_dst_port = q, um_proxy_port = port, um_last_active = fe_now env\<rparr>
        (udp_endpoints r)\<rparr>)"
  using assms by (simp add: process_udp_payload_def Let_def)

text \<open>A lookup that fails, or a process that no proxy is configured for.\<close>

definition not_proxied :: "bool \<Rightarrow> 'l flow_env \<Rightarrow> socket_addr \<Rightarrow> socket_addr \<Rightarrow> bool \<Rightarrow> 'l router \<Rightarrow> bool" where
  "not_proxied udp env src dst v6 r \<longleftrightarrow>
     (case fst (fe_find_process_path env udp src dst (fe_now env) (process_lookup r)) of
        Inl _ \<Rightarrow> True
      | Inr path \<Rightarrow>
          (if udp then get_proxy_port_udp (fe_name_order env) r path v6
           else get_proxy_port_tcp (fe_name_order env) r path v6) = 0)"

lemma udp_not_redirected:
  assumes "hm_get (by_flow (udp_endpoints r)) (UdpFlowKey d s p) = None"
    and "not_proxied True env src dst v6 r"
  shows "process_udp_payload env src dst s d p q v6 r =
    (let r' = r\<lparr>process_lookup := snd (fe_find_process_path env True src dst (fe_now env) (process_lookup r))\<rparr> in
     if is_udp_proxy_port r p then
       (case hm_get (by_flow (udp_endpoints r)) (UdpFlowKey d s q) of
          Some e \<Rightarrow> (Some (RewriteFromProxy (um_dst_port e)), r')
        | None \<Rightarrow> (None, r'))
     else (None, r'))"
proof -
  obtain res l where f: "fe_find_process_path env True src dst (fe_now env) (process_lookup r) = (res, l)"
    by force
  show ?thesis
    using assms f
    by (cases res) (simp_all add: process_udp_payload_def not_proxied_def Let_def)
qed

lemma tcp_syn_not_redirected:
  assumes "syn" and "\<not> ack" and "not_proxied False env src dst v6 r"
  shows "process_tcp_payload env src dst s d p q v6 syn ack rst fin r =
    (let r' = r\<lparr>process_lookup := snd (fe_find_process_path env False src dst (fe_now env) (process_lookup r))\<rparr> in
     if is_tcp_proxy_port r p then
       (case hm_get (tcp_connections r) (d, s, q) of
          Some e \<Rightarrow> (Some (RewriteFromProxy (tm_dst_port e)),
             if rst \<or> fin then r'\<lparr>tcp_connections := hm_remove (d, s, q) (tcp_connections r)\<rparr> else r')
        | None \<Rightarrow> (None, r'))
     else (None, r'))"
proof -
  obtain res l where f: "fe_find_process_path env False src dst (fe_now env) (process_lookup r) = (res, l)"
    by force
  show ?thesis
    using assms f
    by (cases res) (simp_all add: process_tcp_payload_def not_proxied_def Let_def split: option.split)
qed

section \<open>The tables in every state the router can reach\<close>

lemma tables_frame_ops:
  "tcp_connections (snd (apply_static_filters env r)) = tcp_connections r"
  "udp_endpoints (snd (apply_static_filters env r)) = udp_endpoints r"
  "tcp_connections (snd (reset_static_filters env r)) = tcp_connections r"
  "udp_endpoints (snd (reset_static_filters env r)) = udp_endpoints r"
  by (simp_all add: apply_static_filters_def reset_static_filters_def Let_def split: sum.split)

definition same_tables :: "'l router \<Rightarrow> 'l router \<Rightarrow> bool" where
  "same_tables r r' \<longleftrightarrow> tcp_connections r' = tcp_connections r \<and> udp_endpoints r' = udp_endpoints r"

lemma same_tables_add: "same_tables r (snd (add_socks5_proxy net env ep r))"
proof (cases "dialer_new net ep")
  case (Inr d)
  let ?r = "r\<lparr>static_filters := static_filters r @ proxy_filters (proxy_addr d),
              proxies := proxies r @ [transparent_proxy_new 0 d]\<rparr>"
  obtain res r' where a: "apply_static_filters env ?r = (res, r')" by force
  then have "same_tables r r'" using tables_frame_ops(1,2) [of env ?r] by (simp add: same_tables_def)
  with Inr a show ?thesis by (cases res) (simp_all add: add_socks5_proxy_def Let_def)
qed (simp add: add_socks5_proxy_def same_tables_def)

lemma same_tables_start: "same_tables r (snd (router_start env os r))"
proof -
  obtain res r' where a: "apply_static_filters env (r\<lparr>is_active := True\<rparr>) = (res, r')" by force
  then have "same_tables r r'"
    using tables_frame_ops(1,2) [of env "r\<lparr>is_active := True\<rparr>"] by (simp add: same_tables_def)
  moreover obtain res2 ps where "start_proxies os 0 (proxies r') = (res2, ps)" by force
  ultimately show ?thesis
    using a by (cases res; cases res2)
      (simp_all add: router_start_def same_tables_def Let_def register_interface_change_notifications_def
        split: sum.split)
qed

lemma same_tables_step: "router_step r r' \<Longrightarrow> same_tables r r'"
  by (induction rule: router_step.induct)
    (simp_all add: same_tables_add same_tables_start,
     auto simp: same_tables_def associate_process_name_to_proxy_def router_stop_def router_close_def
      cancel_interface_change_notifications_def reset_static_filters_def Let_def
      ip_interface_changed_callback_def refresh_adapter_name_def split: sum.splits)

inductive live_step :: "'l router \<Rightarrow> 'l router \<Rightarrow> bool" where
  router: "router_step r r' \<Longrightarrow> live_step r r'"
| tcp: "live_step r (snd (process_tcp_payload env src dst s d p q v6 syn ack rst fin r))"
| udp: "live_step r (snd (process_udp_payload env src dst s d p q v6 r))"
| cleanup: "iteration_order (uf.expire now (by_flow (udp_endpoints r))) order \<Longrightarrow>
    live_step r (cleanup_stale_udp_endpoints now order r)"
| counters: "live_step r (r\<lparr>bytes_sent := a, bytes_received := b\<rparr>)"
| restarted: "live_step r (r\<lparr>restart := False\<rparr>)"

inductive live :: "'l router \<Rightarrow> bool" where
  new: "router_new env l now = Inr r \<Longrightarrow> live r"
| step: "live r \<Longrightarrow> live_step r r' \<Longrightarrow> live r'"

lemma tables_ok_new: "router_new env l now = Inr r \<Longrightarrow> tables_ok r"
  by (auto simp: router_new_def rbind_Inr_iff tables_ok_def hm.wf_empty hm.get_empty index_ok_new)
    (simp add: mappings_new_def hm.get_empty)

lemma tables_ok_same: "same_tables r r' \<Longrightarrow> tables_ok r \<Longrightarrow> tables_ok r'"
  by (simp add: same_tables_def tables_ok_def)

lemma tables_ok_tcp:
  assumes "tables_ok r"
  shows "tables_ok (snd (process_tcp_payload env src dst s d p q v6 syn ack rst fin r))"
proof (cases "syn \<and> \<not> ack")
  case True
  show ?thesis
  proof (cases "not_proxied False env src dst v6 r")
    case False
    then obtain path l where
      f: "fe_find_process_path env False src dst (fe_now env) (process_lookup r) = (Inr path, l)"
      and "get_proxy_port_tcp (fe_name_order env) r path v6 \<noteq> 0"
      by (cases "fe_find_process_path env False src dst (fe_now env) (process_lookup r)")
        (auto simp: not_proxied_def split: sum.splits)
    with True assms show ?thesis
      using tables_ok_tcp_insert [of "r\<lparr>process_lookup := l\<rparr>"]
      by (simp add: tcp_syn_redirected [OF _ _ f refl] tcp_entry_ok_def)
  next
    case nope: True
    show ?thesis
      using True assms tables_ok_tcp_remove [of "r\<lparr>process_lookup := l\<rparr>" for l]
      by (simp add: tcp_syn_not_redirected [OF _ _ nope] Let_def split: option.split)
  qed
next
  case False
  note no_syn = this
  show ?thesis
  proof (cases "hm_get (tcp_connections r) (d, s, p)")
    case (Some e)
    show ?thesis
      unfolding tcp_known_flow [OF no_syn Some] using assms by (simp add: tables_ok_tcp_remove)
  next
    case None
    show ?thesis
    proof (cases "is_tcp_proxy_port r p")
      case True
      show ?thesis
        unfolding tcp_from_proxy [OF no_syn None True]
        using assms by (simp add: tables_ok_tcp_remove split: option.split)
    next
      case False
      show ?thesis unfolding tcp_unrelated [OF no_syn None False] using assms by simp
    qed
  qed
qed

lemma tables_ok_udp:
  assumes "tables_ok r"
  shows "tables_ok (snd (process_udp_payload env src dst s d p q v6 r))"
proof (cases "hm_get (by_flow (udp_endpoints r)) (UdpFlowKey d s p)")
  case (Some e)
  have "udp_entry_ok (UdpFlowKey d s p) (e\<lparr>um_last_active := fe_now env\<rparr>)"
    using assms Some by (auto simp: tables_ok_def udp_entry_ok_def)
  with assms Some show ?thesis
    by (auto simp: udp_known_flow [OF Some] tables_ok_def hm.get_ins index_ok_refresh)
next
  case None
  show ?thesis
  proof (cases "not_proxied True env src dst v6 r")
    case True
    with assms show ?thesis by (simp add: udp_not_redirected [OF None True] Let_def split: option.split)
  next
    case False
    then obtain path l where
      f: "fe_find_process_path env True src dst (fe_now env) (process_lookup r) = (Inr path, l)"
      and "get_proxy_port_udp (fe_name_order env) r path v6 \<noteq> 0"
      by (cases "fe_find_process_path env True src dst (fe_now env) (process_lookup r)")
        (auto simp: not_proxied_def split: sum.splits)
    with assms show ?thesis
      using tables_ok_udp_insert [of "r\<lparr>process_lookup := l\<rparr>"]
      by (simp add: udp_redirected [OF None f refl] udp_entry_ok_def)
  qed
qed

lemma tables_ok_cleanup:
  assumes "tables_ok r" and "iteration_order (uf.expire now (by_flow (udp_endpoints r))) order"
  shows "tables_ok (cleanup_stale_udp_endpoints now order r)"
proof -
  have "index_ok (udp_endpoints (cleanup_stale_udp_endpoints now order r))"
    using assms index_ok_retain by (simp add: tables_ok_def cleanup_stale_udp_endpoints_def uf.expire_def)
  moreover have "hm_wf (by_flow (udp_endpoints r))" using assms(1) by (simp add: tables_ok_def index_ok_def)
  ultimately show ?thesis
    using assms(1) by (simp add: tables_ok_def by_flow_cleanup uf.get_expire)
      (simp add: cleanup_stale_udp_endpoints_def)
qed

lemma tables_ok_counters:
  "tables_ok r \<Longrightarrow> tables_ok (r\<lparr>bytes_sent := a, bytes_received := b\<rparr>)"
  "tables_ok r \<Longrightarrow> tables_ok (r\<lparr>restart := False\<rparr>)"
  by (simp_all add: tables_ok_def)

lemma tables_ok_step: "live_step r r' \<Longrightarrow> tables_ok r \<Longrightarrow> tables_ok r'"
  by (induction rule: live_step.induct)
    (auto intro: tables_ok_same same_tables_step tables_ok_tcp tables_ok_udp tables_ok_cleanup tables_ok_counters)

lemma live_tables_ok: "live r \<Longrightarrow> tables_ok r"
  by (induction rule: live.induct) (auto intro: tables_ok_new tables_ok_step)


lemmas tables_ok_facts = tables_ok_def tcp_entry_ok_def udp_entry_ok_def

lemma tables_ok_tcp_ip: "tables_ok r \<Longrightarrow> hm_get (tcp_connections r) (d, s, p) = Some e \<Longrightarrow> tm_dst_ip e = d"
  by (auto simp: tables_ok_facts)

section \<open>Inputs for the witnesses\<close>

definition demo_lookup :: "unit find_process_path" where
  "demo_lookup is_udp src dst now l = (Inr ''C:/fox.exe'', l)"

definition demo_flow_env :: "instant \<Rightarrow> unit flow_env" where
  "demo_flow_env t = \<lparr>fe_find_process_path = demo_lookup, fe_name_order = [''fox''], fe_now = t\<rparr>"

definition demo_proxy :: transparent_proxy where
  "demo_proxy = (transparent_proxy_new 0 demo_plain_dialer)
     \<lparr>tcp_port_v4 := 50000, tcp_port_v6 := 50000, udp_port_v4 := 50001, udp_port_v6 := 50001\<rparr>"

definition demo_live :: "unit router" where
  "demo_live = demo_router\<lparr>proxies := [demo_proxy], name_to_proxy := hm_insert ''fox'' 0 hm_empty\<rparr>"

definition demo_client_ip :: ip_addr where
  "demo_client_ip = V4 (Ipv4Addr 10 0 0 2)"

definition demo_server_ip :: ip_addr where
  "demo_server_ip = V4 (Ipv4Addr 8 8 8 8)"

lemma demo_proxy_sel [simp]:
  "tcp_port_v4 demo_proxy = 50000" "tcp_port_v6 demo_proxy = 50000"
  "udp_port_v4 demo_proxy = 50001" "udp_port_v6 demo_proxy = 50001"
  by (simp_all add: demo_proxy_def)

lemma demo_live_sel [simp]:
  "tcp_connections demo_live = hm_empty" "udp_endpoints demo_live = mappings_new"
  "proxies demo_live = [demo_proxy]" "name_to_proxy demo_live = hm_insert ''fox'' 0 hm_empty"
  "process_lookup demo_live = ()"
  by (simp_all add: demo_live_def demo_router_def)

lemma demo_flow_env_sel [simp]:
  "fe_find_process_path (demo_flow_env t) u src dst now l = (Inr ''C:/fox.exe'', l)"
  "fe_name_order (demo_flow_env t) = [''fox'']" "fe_now (demo_flow_env t) = t"
  by (simp_all add: demo_flow_env_def demo_lookup_def)

lemma demo_match: "first_match [''fox''] (hm_insert ''fox'' 0 hm_empty) [demo_proxy] ''C:/fox.exe'' = Some demo_proxy"
  by (simp add: hm.get_ins str_contains_def)

lemma demo_ports [simp]:
  "get_proxy_port_tcp [''fox''] demo_live ''C:/fox.exe'' v6 = 50000"
  "get_proxy_port_udp [''fox''] demo_live ''C:/fox.exe'' v6 = 50001"
  by (simp_all add: get_proxy_port_tcp_def get_proxy_port_udp_def demo_match del: first_match.simps)

section \<open>Which proxy a process uses\<close>

text \<open>If exactly one configured proxy has a name occurring in the process path, every
  iteration order of the name map selects that proxy, for both protocols and address families.\<close>
theorem proxy_choice_deterministic:
  assumes "iteration_order (name_to_proxy r) order"
    and "name_applies r path n p" and "\<And>n' p'. name_applies r path n' p' \<Longrightarrow> p' = p"
  shows "get_proxy_port_tcp order r path v6 = (if v6 then tcp_port_v6 p else tcp_port_v4 p) \<and>
    get_proxy_port_udp order r path v6 = (if v6 then udp_port_v6 p else udp_port_v4 p)"
  using first_match_unique [OF assms] by (simp add: get_proxy_port_tcp_def get_proxy_port_udp_def)

lemma demo_name_applies: "name_applies demo_live ''C:/fox.exe'' n p \<longleftrightarrow> n = ''fox'' \<and> p = demo_proxy"
  by (auto simp: name_applies_def hm.get_ins hm.get_empty str_contains_def split: if_splits)

theorem proxy_choice_deterministic_witness:
  "get_proxy_port_tcp [''fox''] demo_live ''C:/fox.exe'' False = 50000"
proof -
  have "iteration_order (name_to_proxy demo_live) [''fox'']"
    by (simp add: iteration_order_def hm_keys_def hm_insert_def hm_empty_def)
  from proxy_choice_deterministic [OF this, of "''C:/fox.exe''" "''fox''" demo_proxy False]
  show ?thesis by (simp add: demo_name_applies)
qed

text \<open>
  With two names that both occur in the path the choice is the map's iteration order: the same
  process goes through either proxy.
\<close>

theorem proxy_choice_ambiguous:
  "\<exists>(r :: unit router) path order order'.
    iteration_order (name_to_proxy r) order \<and> iteration_order (name_to_proxy r) order' \<and>
    get_proxy_port_tcp order r path False \<noteq> get_proxy_port_tcp order' r path False"
proof -
  let ?r = "demo_live\<lparr>proxies := [demo_proxy, demo_proxy\<lparr>tcp_port_v4 := 50002\<rparr>],
                      name_to_proxy := [(''fox'', 0), (''exe'', 1)]\<rparr>"
  show ?thesis
  proof (intro exI conjI)
    show "iteration_order (name_to_proxy ?r) [''fox'', ''exe'']"
      by (auto simp: iteration_order_def hm_keys_def)
    show "iteration_order (name_to_proxy ?r) [''exe'', ''fox'']"
      by (auto simp: iteration_order_def hm_keys_def)
    show "get_proxy_port_tcp [''fox'', ''exe''] ?r ''fox.exe'' False \<noteq>
        get_proxy_port_tcp [''exe'', ''fox''] ?r ''fox.exe'' False"
      by (simp add: get_proxy_port_tcp_def hm_get_def str_contains_def)
  qed
qed

section \<open>Traffic that is not proxied\<close>

text \<open>C32: A packet that belongs to no redirected flow, comes from no proxy port and from no
  configured process passes unchanged, and changes nothing but the state of the process lookup.\<close>
theorem unrelated_traffic_untouched:
  assumes "not_proxied False env src dst v6 r" and "hm_get (tcp_connections r) (d, s, p) = None"
    and "\<not> is_tcp_proxy_port r p"
    and "not_proxied True env usrc udst v6 r"
    and "hm_get (by_flow (udp_endpoints r)) (UdpFlowKey d' s' p') = None"
    and "\<not> is_udp_proxy_port r p'"
  shows "(\<exists>l. process_tcp_payload env src dst s d p q v6 syn ack rst fin r = (None, r\<lparr>process_lookup := l\<rparr>)) \<and>
    (\<exists>l. process_udp_payload env usrc udst s' d' p' q' v6 r = (None, r\<lparr>process_lookup := l\<rparr>))"
proof
  show "\<exists>l. process_tcp_payload env src dst s d p q v6 syn ack rst fin r = (None, r\<lparr>process_lookup := l\<rparr>)"
  proof (cases "syn \<and> \<not> ack")
    case True
    with assms(1,3) show ?thesis by (auto simp: tcp_syn_not_redirected Let_def)
  next
    case False
    have "r = r\<lparr>process_lookup := process_lookup r\<rparr>" by simp
    with tcp_unrelated [OF False assms(2,3)] show ?thesis by metis
  qed
  show "\<exists>l. process_udp_payload env usrc udst s' d' p' q' v6 r = (None, r\<lparr>process_lookup := l\<rparr>)"
    using udp_not_redirected [OF assms(5,4)] assms(6) by (auto simp: Let_def)
qed

theorem unrelated_traffic_untouched_witness:
  "\<exists>l. process_tcp_payload (demo_flow_env 0) demo_client demo_client demo_client_ip demo_server_ip 4000 443
     False True False False False (demo_live\<lparr>name_to_proxy := hm_empty\<rparr>) =
     (None, demo_live\<lparr>name_to_proxy := hm_empty, process_lookup := l\<rparr>)"
  using unrelated_traffic_untouched [of "demo_flow_env 0" demo_client demo_client False
      "demo_live\<lparr>name_to_proxy := hm_empty\<rparr>" demo_server_ip demo_client_ip 4000
      demo_client demo_client demo_server_ip demo_client_ip 4000]
  by (simp add: not_proxied_def get_proxy_port_tcp_def get_proxy_port_udp_def hm.get_empty
      is_tcp_proxy_port_def is_udp_proxy_port_def mappings_new_def)

section \<open>A TCP connection through the proxy\<close>

text \<open>C31: The tables keep their meaning through any interleaving of configuration, packets and
  cleanups: an entry carries the address its key is filed under and a proxy port that is not
  zero, and the peer index names a flow exactly when it is the only one of its peer.\<close>
theorem tables_invariant:
  assumes "live r"
  shows "(hm_get (tcp_connections r) (d, s, p) = Some e \<longrightarrow> tm_dst_ip e = d \<and> tm_proxy_port e \<noteq> 0) \<and>
    (hm_get (by_flow (udp_endpoints r)) k = Some f \<longrightarrow> um_dst_ip f = fk_dst_ip k \<and> um_proxy_port f \<noteq> 0) \<and>
    (hm_get (by_peer (udp_endpoints r)) ik = Some (Some k) \<longleftrightarrow>
      {x \<in> flows (udp_endpoints r). index_key x = ik} = {k})"
  using live_tables_ok [OF assms] index_ok_unique [of "udp_endpoints r" ik k]
  by (auto simp: tables_ok_facts)

definition demo_syn :: "unit router" where
  "demo_syn = snd (process_tcp_payload (demo_flow_env 0) demo_client demo_client demo_client_ip demo_server_ip
     4000 443 False True False False False demo_live)"

lemma demo_syn_eq:
  "process_tcp_payload (demo_flow_env 0) demo_client demo_client demo_client_ip demo_server_ip
     4000 443 False True False False False demo_live =
   (Some (RewriteToProxy 50000), demo_live\<lparr>tcp_connections := hm_or_insert (demo_server_ip, demo_client_ip, 4000)
      \<lparr>tm_dst_ip = demo_server_ip, tm_dst_port = 443, tm_proxy_port = 50000\<rparr> hm_empty\<rparr>)"
  by (simp add: tcp_syn_redirected [where path = "''C:/fox.exe''" and l = "()" and port = 50000])

text \<open>A running router: configured, given a process name, started.\<close>

lemma demo_running:
  obtains r p where "live (r :: unit router)" "proxies r = [p]"
    "tcp_port_v4 p = 50000" "tcp_port_v6 p = 50000" "udp_port_v4 p = 50001" "udp_port_v6 p = 50001"
    "name_to_proxy r = hm_insert ''fox'' 0 hm_empty"
    "tcp_connections r = hm_empty" "udp_endpoints r = mappings_new" "adapter_name r = ''eth1''"
    "\<not> shutdown r" "\<not> restart r"
proof -
  let ?n = "snd (associate_process_name_to_proxy ''fox'' 0 demo_configured)"
  let ?r = "snd (router_start demo_driver (\<lambda>_. demo_os) ?n)"
  have "live demo_router" by (rule live.new [OF router_new_demo])
  then have "live demo_configured"
    unfolding demo_configured_def by (rule live.step) (rule live_step.router [OF router_step.add])
  then have "live ?n" by (rule live.step) (rule live_step.router [OF router_step.assoc])
  then have live: "live ?r" by (rule live.step) (rule live_step.router [OF router_step.start])
  obtain res p where s: "proxy_start demo_os (transparent_proxy_new 0 demo_plain_dialer) = (res, p)" by force
  then have p: "res = Inr ()" "tcp_port_v4 p = 50000" "tcp_port_v6 p = 50000" "udp_port_v4 p = 50001"
      "udp_port_v6 p = 50001"
    by (auto simp: proxy_start_def demo_os_def bind_dual_stack_tcp_def bind_dual_stack_udp_def
        bind_dual_stack_socket_def transparent_proxy_new_def)
  have "proxies ?r = [p] \<and> name_to_proxy ?r = hm_insert ''fox'' 0 hm_empty \<and>
      tcp_connections ?r = hm_empty \<and> udp_endpoints ?r = mappings_new \<and> adapter_name ?r = ''eth1'' \<and>
      \<not> shutdown ?r \<and> \<not> restart ?r"
    using s p(1)
    by (simp add: demo_configured_def add_socks5_proxy_def dialer_new_demo Let_def apply_static_filters_def
        MAX_STATIC_FILTERS_def demo_driver_def demo_router_def router_start_def
        associate_process_name_to_proxy_def register_interface_change_notifications_def)
  with live p(2-5) show thesis by (intro that) auto
qed

lemma demo_running_ports:
  assumes "proxies r = [p]" and "name_to_proxy r = hm_insert ''fox'' 0 hm_empty"
  shows "get_proxy_port_tcp [''fox''] r ''C:/fox.exe'' v6 = (if v6 then tcp_port_v6 p else tcp_port_v4 p)"
    and "get_proxy_port_udp [''fox''] r ''C:/fox.exe'' v6 = (if v6 then udp_port_v6 p else udp_port_v4 p)"
  using assms
  by (simp_all add: get_proxy_port_tcp_def get_proxy_port_udp_def hm.get_ins str_contains_def)

theorem tables_invariant_witness:
  "\<exists>r e. live (r :: unit router) \<and> hm_get (tcp_connections r) (demo_server_ip, demo_client_ip, 4000) = Some e \<and>
    tm_dst_ip e = demo_server_ip \<and> tm_proxy_port e \<noteq> 0"
proof -
  obtain r p where live: "live (r :: unit router)" and px: "proxies r = [p]" and port: "tcp_port_v4 p = 50000"
    and names: "name_to_proxy r = hm_insert ''fox'' 0 hm_empty" and empty: "tcp_connections r = hm_empty"
    by (rule demo_running)
  let ?r' = "snd (process_tcp_payload (demo_flow_env 0) demo_client demo_client demo_client_ip demo_server_ip
       4000 443 False True False False False r)"
  have "live ?r'" by (rule live.step [OF live live_step.tcp])
  moreover have "hm_get (tcp_connections ?r') (demo_server_ip, demo_client_ip, 4000) =
      Some \<lparr>tm_dst_ip = demo_server_ip, tm_dst_port = 443, tm_proxy_port = 50000\<rparr>"
    using px names port empty
    by (simp add: tcp_syn_redirected [where path = "''C:/fox.exe''" and l = "()" and port = 50000]
        demo_running_ports hm_or_insert_get hm.get_empty)
  ultimately show ?thesis
    using tables_invariant [of ?r' demo_server_ip demo_client_ip 4000] by blast
qed

text \<open>
  Steps that do not close the flow \<open>key\<close>: no packet of it, in either direction, carries RST
  or FIN.
\<close>

inductive undisturbed :: "tcp_key \<Rightarrow> 'l router \<Rightarrow> 'l router \<Rightarrow> bool" for key where
  router: "router_step r r' \<Longrightarrow> undisturbed key r r'"
| tcp: "(rst \<or> fin \<Longrightarrow> key \<noteq> (d, s, p) \<and> key \<noteq> (d, s, q)) \<Longrightarrow>
    undisturbed key r (snd (process_tcp_payload env src dst s d p q v6 syn ack rst fin r))"
| udp: "undisturbed key r (snd (process_udp_payload env src dst s d p q v6 r))"
| cleanup: "undisturbed key r (cleanup_stale_udp_endpoints now order r)"
| counters: "undisturbed key r (r\<lparr>bytes_sent := a, bytes_received := b\<rparr>)"
| restarted: "undisturbed key r (r\<lparr>restart := False\<rparr>)"

lemma tcp_connections_udp: "tcp_connections (snd (process_udp_payload env src dst s d p q v6 r)) = tcp_connections r"
proof (cases "hm_get (by_flow (udp_endpoints r)) (UdpFlowKey d s p)")
  case (Some e)
  then show ?thesis by (simp add: udp_known_flow)
next
  case None
  obtain res l where "fe_find_process_path env True src dst (fe_now env) (process_lookup r) = (res, l)" by force
  with None show ?thesis
    by (cases res) (simp_all add: process_udp_payload_def Let_def split: option.split)
qed

text \<open>A packet leaves an entry as it is, or removes it on RST or FIN of that flow.\<close>

lemma tcp_entry_kept:
  assumes "hm_get (tcp_connections r) key = Some e" and "rst \<or> fin \<Longrightarrow> key \<noteq> (d, s, p) \<and> key \<noteq> (d, s, q)"
  shows "hm_get (tcp_connections (snd (process_tcp_payload env src dst s d p q v6 syn ack rst fin r))) key = Some e"
proof (cases "syn \<and> \<not> ack")
  case True
  obtain res l where f: "fe_find_process_path env False src dst (fe_now env) (process_lookup r) = (res, l)" by force
  show ?thesis
  proof (cases "not_proxied False env src dst v6 r")
    case nope: True
    show ?thesis
      using True assms
      by (simp add: tcp_syn_not_redirected [OF _ _ nope] Let_def hm.get_rm split: option.split)
  next
    case False
    then obtain path where "res = Inr path" "get_proxy_port_tcp (fe_name_order env) r path v6 \<noteq> 0"
      using f by (cases res) (auto simp: not_proxied_def)
    with True f assms(1) show ?thesis
      by (auto simp: tcp_syn_redirected [OF _ _ _ refl] hm_or_insert_get)
  qed
next
  case no_syn: False
  show ?thesis
  proof (cases "hm_get (tcp_connections r) (d, s, p)")
    case (Some e')
    with assms show ?thesis by (simp add: tcp_known_flow [OF no_syn Some] hm.get_rm)
  next
    case None
    with assms show ?thesis
      by (cases "is_tcp_proxy_port r p")
        (simp_all add: tcp_from_proxy [OF no_syn] tcp_unrelated [OF no_syn] hm.get_rm split: option.split)
  qed
qed

lemma undisturbed_entry:
  "undisturbed key r r' \<Longrightarrow> hm_get (tcp_connections r) key = Some e \<Longrightarrow> hm_get (tcp_connections r') key = Some e"
proof (induction rule: undisturbed.induct)
  case (router r r')
  with same_tables_step [OF router(1)] show ?case by (simp add: same_tables_def)
next
  case (tcp rst fin d s p q r env src dst v6 syn ack)
  show ?case by (rule tcp_entry_kept [OF tcp(2)]) (use tcp(1) in blast)
qed (simp_all add: tcp_connections_udp cleanup_stale_udp_endpoints_def)

lemma undisturbed_entries:
  "(undisturbed key)\<^sup>*\<^sup>* r r' \<Longrightarrow> hm_get (tcp_connections r) key = Some e \<Longrightarrow> hm_get (tcp_connections r') key = Some e"
  by (induction rule: rtranclp_induct) (auto intro: undisturbed_entry)


text \<open>A new connection of a configured process is sent to its proxy's port, and the proxy, asking
  for the peer it sees, relays to the address and port the client wanted.\<close>
theorem tcp_connection_proxied:
  assumes "syn" and "\<not> ack"
    and "fe_find_process_path env False src dst (fe_now env) (process_lookup r) = (Inr path, l)"
    and "get_proxy_port_tcp (fe_name_order env) r path v6 = port" and "port \<noteq> 0"
    and "hm_get (tcp_connections r) (d, s, p) = None"
    and "wire_ip d" and "sa_ip (normalize_mapped_ipv6 local) = s"
    and "connect_tcp net dialer (socket_addr_new d q) = Inr str"
  shows "\<exists>r'. process_tcp_payload env src dst s d p q v6 syn ack rst fin r = (Some (RewriteToProxy port), r') \<and>
    handle_tcp_connection net (query_tcp (tcp_connections r')) dialer (Inr (dual_stack_view d p)) (Inr local)
      = Relaying (socket_addr_new d q) str \<and>
    (\<forall>k. k \<noteq> (d, s, p) \<longrightarrow> hm_get (tcp_connections r') k = hm_get (tcp_connections r) k)"
proof (intro exI conjI)
  let ?r' = "r\<lparr>process_lookup := l, tcp_connections := hm_or_insert (d, s, p)
        \<lparr>tm_dst_ip = d, tm_dst_port = q, tm_proxy_port = port\<rparr> (tcp_connections r)\<rparr>"
  show "process_tcp_payload env src dst s d p q v6 syn ack rst fin r = (Some (RewriteToProxy port), ?r')"
    using assms(1-5) by (rule tcp_syn_redirected)
  have "tcp_knows (tcp_connections ?r') d s p (d, q)"
    using assms(6) by (auto simp: tcp_knows_def hm_or_insert_get)
  moreover have "seen_as s local" using assms(8) by (simp add: seen_as_def)
  ultimately show "handle_tcp_connection net (query_tcp (tcp_connections ?r')) dialer
      (Inr (dual_stack_view d p)) (Inr local) = Relaying (socket_addr_new d q) str"
    using assms(7,9) by (intro tq.connection_relayed)
  show "\<forall>k. k \<noteq> (d, s, p) \<longrightarrow> hm_get (tcp_connections ?r') k = hm_get (tcp_connections r) k"
    by (simp add: hm_or_insert_get)
qed

lemma tcp_syn_entry:
  assumes "process_tcp_payload env src dst s d p q v6 True False rst fin r = (Some (RewriteToProxy port), r1)"
    and "hm_get (tcp_connections r) (d, s, p) = None" and "\<not> is_tcp_proxy_port r p"
  shows "hm_get (tcp_connections r1) (d, s, p) = Some \<lparr>tm_dst_ip = d, tm_dst_port = q, tm_proxy_port = port\<rparr>"
proof (cases "not_proxied False env src dst v6 r")
  case True
  with assms(1,3) show ?thesis by (simp add: tcp_syn_not_redirected Let_def)
next
  case False
  then obtain path l where
    f: "fe_find_process_path env False src dst (fe_now env) (process_lookup r) = (Inr path, l)"
    and "get_proxy_port_tcp (fe_name_order env) r path v6 \<noteq> 0"
    by (cases "fe_find_process_path env False src dst (fe_now env) (process_lookup r)")
      (auto simp: not_proxied_def split: sum.splits)
  with assms(1,2) show ?thesis
    by (auto simp: tcp_syn_redirected [OF _ _ f refl] hm_or_insert_get)
qed

text \<open>C6: Once a connection is redirected, every later packet of it goes to the same proxy port, the
  proxy keeps being told the same destination, and every packet the proxy sends back leaves with
  the port the client had connected to, whatever else the router does meanwhile, until a packet
  of the connection carries RST or FIN.\<close>
theorem tcp_session_stable:
  assumes "process_tcp_payload env src dst s d p q v6 True False rst0 fin0 r = (Some (RewriteToProxy port), r1)"
    and "hm_get (tcp_connections r) (d, s, p) = None" and "\<not> is_tcp_proxy_port r p"
    and "(undisturbed (d, s, p))\<^sup>*\<^sup>* r1 r2"
    and "\<not> (syn \<and> \<not> ack)" and "wire_ip d" and "sa_ip (normalize_mapped_ipv6 local) = s"
    and "is_tcp_proxy_port r2 port" and "hm_get (tcp_connections r2) (d, s, port) = None"
  shows "fst (process_tcp_payload env' src' dst' s d p q' v6 syn ack rst fin r2) = Some (RewriteToProxy port) \<and>
    query_tcp (tcp_connections r2) (dual_stack_view d p) local = Inr (d, q) \<and>
    fst (process_tcp_payload env' src' dst' s d port p v6 syn ack rst fin r2) = Some (RewriteFromProxy q)"
proof -
  let ?e = "\<lparr>tm_dst_ip = d, tm_dst_port = q, tm_proxy_port = port\<rparr>"
  from undisturbed_entries [OF assms(4) tcp_syn_entry [OF assms(1-3)]]
  have e: "hm_get (tcp_connections r2) (d, s, p) = Some ?e" .
  have "query_tcp (tcp_connections r2) (dual_stack_view d p) local = Inr (d, q)"
    using assms(6,7) e by (intro tq.query_known) (auto simp: tcp_knows_def seen_as_def)
  then show ?thesis
    using e by (simp add: tcp_known_flow [OF assms(5) e] tcp_from_proxy [OF assms(5,9,8)])
qed

lemma demo_fresh [simp]: "hm_get (hm_empty :: tcp_table) k = None"
  by (simp add: hm.get_empty)

lemma demo_proxy_port [simp]:
  "is_tcp_proxy_port demo_live port \<longleftrightarrow> port = 50000" "is_udp_proxy_port demo_live port \<longleftrightarrow> port = 50001"
  by (auto simp: is_tcp_proxy_port_def is_udp_proxy_port_def)

lemma demo_wire [simp]: "wire_ip demo_client_ip" "wire_ip demo_server_ip"
  by (simp_all add: demo_client_ip_def demo_server_ip_def)

theorem tcp_session_stable_witness:
  "\<exists>r1. process_tcp_payload (demo_flow_env 0) demo_client demo_client demo_client_ip demo_server_ip
      4000 443 False True False False False demo_live = (Some (RewriteToProxy 50000), r1) \<and>
    fst (process_tcp_payload (demo_flow_env 9) demo_client demo_client demo_client_ip demo_server_ip
      50000 4000 False False True False False r1) = Some (RewriteFromProxy 443)"
  using tcp_session_stable [OF demo_syn_eq _ _ rtranclp.rtrancl_refl, where syn = False and ack = True
      and local = "dual_stack_view demo_client_ip 50000" and env' = "demo_flow_env 9"
      and src' = demo_client and dst' = demo_client and rst = False and fin = False]
  by (simp add: demo_syn_eq normalize_dual_stack_view is_tcp_proxy_port_def hm_or_insert_get)

theorem tcp_connection_proxied_witness:
  "\<exists>r' str. process_tcp_payload (demo_flow_env 0) demo_client demo_client demo_client_ip
      (V4 (Ipv4Addr 93 184 216 34)) 4000 443 False True False False False demo_live = (Some (RewriteToProxy 50000), r') \<and>
    handle_tcp_connection demo_env (query_tcp (tcp_connections r')) demo_dialer
      (Inr (dual_stack_view (V4 (Ipv4Addr 93 184 216 34)) 4000))
      (Inr (dual_stack_view demo_client_ip 50000)) = Relaying (SockV4 (Ipv4Addr 93 184 216 34) 443) str"
proof -
  have "connect_tcp demo_env demo_dialer (socket_addr_new (V4 (Ipv4Addr 93 184 216 34)) 443) =
      Inr \<lparr>rx = [104, 105], rx_end = OsError 0,
        tx = greeting (auth demo_dialer) @ auth_bytes \<lparr>username = ''u'', password = ''p''\<rparr> @
        request_bytes Connect (SockV4 (Ipv4Addr 93 184 216 34) 443), wr_plan = []\<rparr>"
    by (simp only: socket_addr_new_def ip_addr.case connect_tcp_demo)
  from tcp_connection_proxied [OF _ _ _ _ _ _ _ _ this, where syn = True and ack = False
      and env = "demo_flow_env 0" and r = demo_live and src = demo_client and dst = demo_client
      and path = "''C:/fox.exe''" and l = "()" and ?v6.0 = False and port = 50000 and p = 4000
      and s = demo_client_ip and local = "dual_stack_view demo_client_ip 50000" and rst = False and fin = False]
  show ?thesis by (auto simp: socket_addr_new_def normalize_dual_stack_view simp del: dual_stack_view.simps)
qed

section \<open>Where the TCP table falls short\<close>

text \<open>
  A second SYN that meets an old entry keeps that entry: the packet is redirected, but the proxy
  is told the port of the earlier connection.
\<close>

theorem stale_mapping_wrong_destination:
  assumes "syn" and "\<not> ack"
    and "fe_find_process_path env False src dst (fe_now env) (process_lookup r) = (Inr path, l)"
    and "get_proxy_port_tcp (fe_name_order env) r path v6 = port" and "port \<noteq> 0"
    and "hm_get (tcp_connections r) (d, s, p) = Some e" and "tm_dst_port e \<noteq> q" and "tm_dst_ip e = d"
    and "wire_ip d" and "sa_ip (normalize_mapped_ipv6 local) = s"
  shows "\<exists>r'. process_tcp_payload env src dst s d p q v6 syn ack rst fin r = (Some (RewriteToProxy port), r') \<and>
    query_tcp (tcp_connections r') (dual_stack_view d p) local = Inr (d, tm_dst_port e) \<and> tm_dst_port e \<noteq> q"
proof (intro exI conjI)
  let ?r' = "r\<lparr>process_lookup := l, tcp_connections := hm_or_insert (d, s, p)
        \<lparr>tm_dst_ip = d, tm_dst_port = q, tm_proxy_port = port\<rparr> (tcp_connections r)\<rparr>"
  show "process_tcp_payload env src dst s d p q v6 syn ack rst fin r = (Some (RewriteToProxy port), ?r')"
    using assms(1-5) by (rule tcp_syn_redirected)
  show "query_tcp (tcp_connections ?r') (dual_stack_view d p) local = Inr (d, tm_dst_port e)"
    using assms(6,8-10)
    by (intro tq.query_known) (auto simp: tcp_knows_def seen_as_def hm_or_insert_get)
qed (rule assms(7))

text \<open>
  The first FIN removes the entry, in whichever direction it travels; the client's next packet,
  the acknowledgement of the other side's FIN at the latest, is no longer redirected and goes
  out to the real destination.
\<close>

theorem fin_ends_redirection:
  assumes "\<not> (syn \<and> \<not> ack)" and "fin" and "hm_get (tcp_connections r) (d, s, p) = Some e"
    and "\<not> is_tcp_proxy_port r p" and "\<not> (syn' \<and> \<not> ack')"
  shows "fst (process_tcp_payload env' src' dst' s d p q v6 syn' ack' rst' fin'
    (snd (process_tcp_payload env src dst s d p q v6 syn ack rst fin r))) = None"
proof -
  let ?r = "r\<lparr>tcp_connections := hm_remove (d, s, p) (tcp_connections r)\<rparr>"
  have "snd (process_tcp_payload env src dst s d p q v6 syn ack rst fin r) = ?r"
    using assms(2) by (simp add: tcp_known_flow [OF assms(1,3)])
  moreover have "\<not> is_tcp_proxy_port ?r p" using assms(4) by (simp add: is_tcp_proxy_port_def)
  moreover have "hm_get (tcp_connections ?r) (d, s, p) = None" by (simp add: hm.get_rm)
  ultimately show ?thesis by (simp add: tcp_unrelated [OF assms(5)])
qed

section \<open>A UDP flow through the proxy\<close>

lemma udp_peer_unique:
  assumes "flows m' = insert (UdpFlowKey d s p) (flows m)"
    and "\<And>s'. UdpFlowKey d s' p \<in> flows m \<Longrightarrow> s' = s"
  shows "{x \<in> flows m'. index_key x = UdpIndexKey d p} = {UdpFlowKey d s p}"
proof -
  have "x = UdpFlowKey d s p" if "x \<in> flows m" "index_key x = UdpIndexKey d p" for x
    using that assms(2) by (cases x) (auto simp: index_key_def)
  then show ?thesis unfolding assms(1) by (auto simp: index_key_def)
qed

lemma udp_first_datagram:
  assumes "live r" and "hm_get (by_flow (udp_endpoints r)) (UdpFlowKey d s p) = None"
    and "fe_find_process_path env True src dst (fe_now env) (process_lookup r) = (Inr path, l)"
    and "get_proxy_port_udp (fe_name_order env) r path v6 = port" and "port \<noteq> 0" and "wire_ip d"
    and "\<And>s'. UdpFlowKey d s' p \<in> flows (udp_endpoints r) \<Longrightarrow> s' = s"
  obtains r' where "process_udp_payload env src dst s d p q v6 r = (Some (RewriteToProxy port), r')"
    and "hm_get (by_flow (udp_endpoints r')) (UdpFlowKey d s p) =
      Some \<lparr>um_dst_ip = d, um_dst_port = q, um_proxy_port = port, um_last_active = fe_now env\<rparr>"
    and "query_udp (udp_endpoints r') (dual_stack_view d p) (SockV6 v6_unspecified lp 0 0) = Inr (d, q)"
proof -
  let ?k = "UdpFlowKey d s p"
  let ?e = "\<lparr>um_dst_ip = d, um_dst_port = q, um_proxy_port = port, um_last_active = fe_now env\<rparr>"
  let ?r' = "r\<lparr>process_lookup := l, udp_endpoints := mappings_insert ?k ?e (udp_endpoints r)\<rparr>"
  have get: "hm_get (by_flow (udp_endpoints ?r')) ?k = Some ?e" by (simp add: hm.get_ins)
  have ok: "index_ok (udp_endpoints ?r')"
    using live_tables_ok [OF assms(1)] by (simp add: tables_ok_def index_ok_insert)
  have "{x \<in> flows (udp_endpoints ?r'). index_key x = UdpIndexKey d p} = {?k}"
    using assms(7) by (intro udp_peer_unique [of _ d s p "udp_endpoints r"]) (auto simp: flows_insert)
  with index_ok_unique [OF ok] have "hm_get (by_peer (udp_endpoints ?r')) (UdpIndexKey d p) = Some (Some ?k)"
    by blast
  then have "query_udp (udp_endpoints ?r') (dual_stack_view d p) (SockV6 v6_unspecified lp 0 0) = Inr (d, q)"
    using get assms(6)
    by (intro uq.query_known) (auto simp: checked_knows_def seen_unspecified_def)
  with get show thesis by (intro that [of ?r'] udp_redirected [OF assms(2-5)])
qed

text \<open>C4: The first datagram of a configured process is sent to its proxy's UDP port; if no other
  address of this machine talks to the same remote address from the same port, the proxy is told
  the destination although its socket does not say which local address was used; and what the
  proxy sends back leaves with the port the client had sent to.\<close>
theorem udp_flow_proxied:
  assumes "live r" and "hm_get (by_flow (udp_endpoints r)) (UdpFlowKey d s p) = None"
    and "fe_find_process_path env True src dst (fe_now env) (process_lookup r) = (Inr path, l)"
    and "get_proxy_port_udp (fe_name_order env) r path v6 = port" and "port \<noteq> 0" and "wire_ip d"
    and "\<And>s'. UdpFlowKey d s' p \<in> flows (udp_endpoints r) \<Longrightarrow> s' = s"
    and "process_udp_payload env src dst s d p q v6 r = (res, r')"
    and "not_proxied True env' src' dst' v6 r'" and "is_udp_proxy_port r' port"
    and "hm_get (by_flow (udp_endpoints r')) (UdpFlowKey d s port) = None"
  shows "res = Some (RewriteToProxy port) \<and>
    query_udp (udp_endpoints r') (dual_stack_view d p) (SockV6 v6_unspecified lp 0 0) = Inr (d, q) \<and>
    fst (process_udp_payload env' src' dst' s d port p v6 r') = Some (RewriteFromProxy q)"
proof -
  obtain t where "process_udp_payload env src dst s d p q v6 r = (Some (RewriteToProxy port), t)"
    and get: "hm_get (by_flow (udp_endpoints t)) (UdpFlowKey d s p) =
      Some \<lparr>um_dst_ip = d, um_dst_port = q, um_proxy_port = port, um_last_active = fe_now env\<rparr>"
    and query: "query_udp (udp_endpoints t) (dual_stack_view d p) (SockV6 v6_unspecified lp 0 0) = Inr (d, q)"
    using assms(7) by (rule udp_first_datagram [OF assms(1-6)])
  with assms(8) have "t = r'" "res = Some (RewriteToProxy port)" by simp_all
  with get query show ?thesis
    using udp_not_redirected [OF assms(11,9)] assms(10) by (simp add: Let_def)
qed


definition demo_self :: "unit flow_env" where
  "demo_self = \<lparr>fe_find_process_path = (\<lambda>_ _ _ _ l. (Inr ''C:/proxifyre.exe'', l)),
     fe_name_order = [''fox''], fe_now = 5\<rparr>"

lemma unit_lookup: "(r :: unit router)\<lparr>process_lookup := u\<rparr> = r"
  by (cases r) simp

theorem udp_flow_proxied_witness:
  "\<exists>(r :: unit router) res r'. live r \<and>
    process_udp_payload (demo_flow_env 0) demo_client demo_client demo_client_ip demo_server_ip 4000 53 False r = (res, r') \<and>
    res = Some (RewriteToProxy 50001) \<and>
    query_udp (udp_endpoints r') (dual_stack_view demo_server_ip 4000) (SockV6 v6_unspecified 50001 0 0)
      = Inr (demo_server_ip, 53) \<and>
    fst (process_udp_payload demo_self demo_client demo_client demo_client_ip demo_server_ip 50001 4000 False r')
      = Some (RewriteFromProxy 53)"
proof -
  obtain r p where r: "live (r :: unit router)" "proxies r = [p]" "udp_port_v4 p = 50001"
    "name_to_proxy r = hm_insert ''fox'' 0 hm_empty" "udp_endpoints r = mappings_new"
    by (rule demo_running)
  have fresh: "hm_get (by_flow (udp_endpoints r)) k = None" for k
    by (simp add: r(5) mappings_new_def hm.get_empty)
  have port: "get_proxy_port_udp (fe_name_order (demo_flow_env 0)) r ''C:/fox.exe'' False = 50001"
    using r by (simp add: demo_running_ports)
  have path: "fe_find_process_path (demo_flow_env 0) True demo_client demo_client (fe_now (demo_flow_env 0))
      (process_lookup r) = (Inr ''C:/fox.exe'', process_lookup r)" by simp
  obtain res r' where u: "process_udp_payload (demo_flow_env 0) demo_client demo_client demo_client_ip
      demo_server_ip 4000 53 False r = (res, r')" by force
  then have r': "r' = r\<lparr>udp_endpoints := mappings_insert (UdpFlowKey demo_server_ip demo_client_ip 4000)
      \<lparr>um_dst_ip = demo_server_ip, um_dst_port = 53, um_proxy_port = 50001, um_last_active = 0\<rparr> mappings_new\<rparr>"
    by (simp add: udp_redirected [OF fresh path port] r(5) unit_lookup)
  have "not_proxied True demo_self demo_client demo_client False r'"
    using r by (simp add: r' not_proxied_def demo_self_def get_proxy_port_udp_def hm.get_ins str_contains_def)
  moreover have "is_udp_proxy_port r' 50001" using r by (simp add: r' is_udp_proxy_port_def)
  moreover have "hm_get (by_flow (udp_endpoints r')) (UdpFlowKey demo_server_ip demo_client_ip 50001) = None"
    by (simp add: r' hm.get_ins mappings_new_def hm.get_empty)
  moreover have "UdpFlowKey demo_server_ip s' 4000 \<in> flows (udp_endpoints r) \<Longrightarrow> s' = demo_client_ip" for s'
    using fresh by (simp add: flows_def)
  ultimately show ?thesis
    using udp_flow_proxied [OF r(1) fresh path port _ _ _ u, of demo_self demo_client demo_client 50001] r(1) u
    by auto
qed

section \<open>Idle flows\<close>

text \<open>C19: A cleanup drops exactly the flows that were idle for a minute or more, in any iteration
  order, and the peer index stays exact: a peer whose other flow has expired is unambiguous
  again. No other table changes.\<close>
theorem udp_cleanup_exact:
  assumes "live r" and "iteration_order (uf.expire now (by_flow (udp_endpoints r))) order"
    and "cleanup_stale_udp_endpoints now order r = r'"
  shows "(hm_get (by_flow (udp_endpoints r')) k = Some e \<longleftrightarrow>
      hm_get (by_flow (udp_endpoints r)) k = Some e \<and> now - um_last_active e < 60 * 1000000000) \<and>
    (hm_get (by_peer (udp_endpoints r')) ik = Some (Some k) \<longleftrightarrow>
      {x. index_key x = ik \<and> (\<exists>e. hm_get (by_flow (udp_endpoints r)) x = Some e \<and>
         now - um_last_active e < 60 * 1000000000)} = {k}) \<and>
    tcp_connections r' = tcp_connections r"
proof -
  have wf: "hm_wf (by_flow (udp_endpoints r))"
    using live_tables_ok [OF assms(1)] by (simp add: tables_ok_def index_ok_def)
  have get: "hm_get (by_flow (udp_endpoints r')) k = Some e \<longleftrightarrow>
      hm_get (by_flow (udp_endpoints r)) k = Some e \<and> now - um_last_active e < 60 * 1000000000" for k e
    using uf.get_expire [OF wf, of now k e]
    unfolding assms(3) [symmetric] by_flow_cleanup
    by (simp add: udp_flow_fresh_def UDP_TIMEOUT_SECS_def from_secs_def duration_since_def)
  have "live r'" unfolding assms(3) [symmetric] by (rule live.step [OF assms(1) live_step.cleanup [OF assms(2)]])
  then have "index_ok (udp_endpoints r')" using live_tables_ok [of r'] by (simp add: tables_ok_def)
  moreover have "{x \<in> flows (udp_endpoints r'). index_key x = ik} =
      {x. index_key x = ik \<and> (\<exists>e. hm_get (by_flow (udp_endpoints r)) x = Some e \<and>
         now - um_last_active e < 60 * 1000000000)}"
    by (auto simp: flows_def get)
  ultimately show ?thesis
    using get index_ok_unique assms(3) by (auto simp: cleanup_stale_udp_endpoints_def)
qed

lemma demo_idle_flow:
  obtains r where "live (r :: unit router)"
    "by_flow (udp_endpoints r) = [(UdpFlowKey demo_server_ip demo_client_ip 4000,
      \<lparr>um_dst_ip = demo_server_ip, um_dst_port = 53, um_proxy_port = 50001, um_last_active = 7\<rparr>)]"
proof -
  obtain r p where r: "live (r :: unit router)" "proxies r = [p]" "udp_port_v4 p = 50001"
    "name_to_proxy r = hm_insert ''fox'' 0 hm_empty" "udp_endpoints r = mappings_new"
    by (rule demo_running)
  have fresh: "hm_get (by_flow (udp_endpoints r)) k = None" for k
    by (simp add: r(5) mappings_new_def hm.get_empty)
  have port: "get_proxy_port_udp (fe_name_order (demo_flow_env 7)) r ''C:/fox.exe'' False = 50001"
    using r by (simp add: demo_running_ports)
  have path: "fe_find_process_path (demo_flow_env 7) True demo_client demo_client (fe_now (demo_flow_env 7))
      (process_lookup r) = (Inr ''C:/fox.exe'', process_lookup r)" by simp
  let ?r = "snd (process_udp_payload (demo_flow_env 7) demo_client demo_client demo_client_ip
      demo_server_ip 4000 53 False r)"
  have "live ?r" by (rule live.step [OF r(1) live_step.udp])
  moreover have "by_flow (udp_endpoints ?r) = [(UdpFlowKey demo_server_ip demo_client_ip 4000,
      \<lparr>um_dst_ip = demo_server_ip, um_dst_port = 53, um_proxy_port = 50001, um_last_active = 7\<rparr>)]"
    by (simp add: udp_redirected [OF fresh path port] r(5) mappings_new_def hm_insert_def hm_empty_def)
  ultimately show thesis by (rule that)
qed

theorem udp_cleanup_exact_witness:
  "\<exists>r. live (r :: unit router) \<and> hm_get (by_flow (udp_endpoints r)) (UdpFlowKey demo_server_ip demo_client_ip 4000) \<noteq> None \<and>
    hm_get (by_flow (udp_endpoints (cleanup_stale_udp_endpoints 60000000007 [] r)))
      (UdpFlowKey demo_server_ip demo_client_ip 4000) = None"
proof -
  obtain r where live: "live (r :: unit router)" and f: "by_flow (udp_endpoints r) =
      [(UdpFlowKey demo_server_ip demo_client_ip 4000,
        \<lparr>um_dst_ip = demo_server_ip, um_dst_port = 53, um_proxy_port = 50001, um_last_active = 7\<rparr>)]"
    by (rule demo_idle_flow)
  let ?k = "UdpFlowKey demo_server_ip demo_client_ip 4000"
  have "iteration_order (uf.expire 60000000007 (by_flow (udp_endpoints r))) []"
    by (simp add: f uf.expire_def hm_retain_def iteration_order_def hm_keys_def udp_flow_fresh_def
        UDP_TIMEOUT_SECS_def from_secs_def duration_since_def)
  from udp_cleanup_exact [OF live this refl, of ?k]
  have "hm_get (by_flow (udp_endpoints (cleanup_stale_udp_endpoints 60000000007 [] r))) ?k = Some e \<Longrightarrow>
      hm_get (by_flow (udp_endpoints r)) ?k = Some e \<and> 60000000007 - um_last_active e < 60 * 1000000000" for e
    by blast
  then have "hm_get (by_flow (udp_endpoints (cleanup_stale_udp_endpoints 60000000007 [] r))) ?k = None"
    by (cases "hm_get (by_flow (udp_endpoints (cleanup_stale_udp_endpoints 60000000007 [] r))) ?k")
      (auto simp: f hm_get_def)
  with live f show ?thesis by (auto simp: hm_get_def)
qed

end
