(* ===== verification/PacketSpec.thy ===== *)
theory PacketSpec
  imports Packet FlowSpec
begin

text \<open>
  What rewriting does to a frame. The four rewriting functions have one shape, the locale
  \<open>rewriting\<close>: set a port, swap the addresses, refill the checksums; its effect is proved once
  and every \<open>wire\<close> library gives four instances of it. The properties then follow a packet
  through the router: what is left alone, what a redirected packet looks like, and a TCP
  exchange from the client's SYN to the proxy's answer.
\<close>

section \<open>Rewriting below the Ethernet header\<close>

locale rewriting =
  fixes ok :: "bytes \<Rightarrow> bool"
    and iview :: "bytes \<Rightarrow> 'a ip_view"
    and set_src :: "'a \<Rightarrow> bytes \<Rightarrow> bytes"
    and set_dst :: "'a \<Rightarrow> bytes \<Rightarrow> bytes"
    and payload :: "bytes \<Rightarrow> bytes"
    and put :: "bytes \<Rightarrow> bytes \<Rightarrow> bytes"
    and finish :: "bytes \<Rightarrow> bytes"
    and ok4 :: "bytes \<Rightarrow> bool"
    and view4 :: "bytes \<Rightarrow> 'v"
    and set_port :: "port_rewrite \<Rightarrow> bytes \<Rightarrow> bytes"
    and upd :: "port_rewrite \<Rightarrow> 'v \<Rightarrow> 'v"
    and fill :: "'a \<Rightarrow> 'a \<Rightarrow> bytes \<Rightarrow> bytes"
  assumes set_src: "acts ok iview (set_src a) (\<lambda>v. v\<lparr>iv_src := a\<rparr>)"
    and set_dst: "acts ok iview (set_dst a) (\<lambda>v. v\<lparr>iv_dst := a\<rparr>)"
    and finish: "acts ok iview finish (\<lambda>v. v)"
    and put: "puts ok iview payload put (\<lambda>y v. v\<lparr>iv_payload := y\<rparr>)"
    and set_port: "acts ok4 view4 (set_port rw) (upd rw)"
    and fill: "acts ok4 view4 (fill s d) (\<lambda>v. v)"
    and payload: "payload b = iv_payload (iview b)"
begin

definition swapped :: "bytes \<Rightarrow> bytes" where
  "swapped b = set_dst (iv_src (iview b)) (set_src (iv_dst (iview b)) b)"

definition rewritten :: "port_rewrite \<Rightarrow> bytes \<Rightarrow> bytes" where
  "rewritten rw b =
     (let b1 = swapped (put (set_port rw (payload b)) b);
          l4 = payload b1
      in finish (if ok4 l4 then put (fill (iv_src (iview b1)) (iv_dst (iview b1)) l4) b1 else b1))"

lemma swapped:
  assumes "ok b"
  shows "ok (swapped b)" and "length (swapped b) = length b"
    and "iview (swapped b) = (iview b)\<lparr>iv_src := iv_dst (iview b), iv_dst := iv_src (iview b)\<rparr>"
  using assms by (simp_all add: swapped_def actsD [OF set_src] actsD [OF set_dst])

lemma rewritten:
  assumes "ok b" and "ok4 (payload b)"
  shows "ok (rewritten rw b) \<and> length (rewritten rw b) = length b \<and>
    (\<exists>l4. ok4 l4 \<and> view4 l4 = upd rw (view4 (payload b)) \<and>
      iview (rewritten rw b) =
        (iview b)\<lparr>iv_src := iv_dst (iview b), iv_dst := iv_src (iview b), iv_payload := l4\<rparr>)"
proof -
  let ?l = "set_port rw (payload b)"
  let ?b0 = "put ?l b"
  let ?b1 = "swapped ?b0"
  let ?l2 = "fill (iv_src (iview ?b1)) (iv_dst (iview ?b1)) ?l"
  let ?b2 = "put ?l2 ?b1"
  note l = actsD [OF set_port assms(2), of rw]
  note b0 = putsD [OF put assms(1) l(3)]
  note b1 = swapped [OF b0(1)]
  have pay: "payload ?b1 = ?l" by (simp add: payload [of ?b1] b1(3) b0(2))
  note l2 = actsD [OF fill l(1), of "iv_src (iview ?b1)" "iv_dst (iview ?b1)"]
  have len: "length ?l2 = length (payload ?b1)" using l2(3) pay by simp
  note b2 = putsD [OF put b1(1) len]
  have "rewritten rw b = finish ?b2" by (simp add: rewritten_def Let_def pay l(1))
  moreover have "iview ?b2 = (iview b)\<lparr>iv_src := iv_dst (iview b), iv_dst := iv_src (iview b), iv_payload := ?l2\<rparr>"
    using b2(2) b1(3) b0(2) by simp
  ultimately show ?thesis
    using actsD [OF finish b2(1)] b2(3) b1(2) b0(3) l2(1,2) l(2) by auto
qed

end

fun tcp_port_effect :: "port_rewrite \<Rightarrow> tcp_view \<Rightarrow> tcp_view" where
  "tcp_port_effect (RewriteToProxy p) v = v\<lparr>tv_dst := p\<rparr>"
| "tcp_port_effect (RewriteFromProxy p) v = v\<lparr>tv_src := p\<rparr>"

fun udp_port_effect :: "port_rewrite \<Rightarrow> udp_view \<Rightarrow> udp_view" where
  "udp_port_effect (RewriteToProxy p) v = v\<lparr>uv_dst := p\<rparr>"
| "udp_port_effect (RewriteFromProxy p) v = v\<lparr>uv_src := p\<rparr>"

context wire begin

lemma tcp_set: "acts (tcp_checked W) (tcp_view W) (tcp_rewrite_port W rw) (tcp_port_effect rw)"
  using tcp_set_src tcp_set_dst by (cases rw) (simp_all add: acts_def)

lemma udp_set: "acts (udp_checked W) (udp_view W) (udp_rewrite_port W rw) (udp_port_effect rw)"
  using udp_set_src udp_set_dst by (cases rw) (simp_all add: acts_def)

end

sublocale wire \<subseteq> tcp4: rewriting "ip4_ok W" "ip4_view W" "ip4_set_src W" "ip4_set_dst W" "ip4_payload W"
  "ip4_put_payload W" "ip4_fill_checksum W" "tcp_checked W" "tcp_view W" "tcp_rewrite_port W" tcp_port_effect
  "\<lambda>s d. tcp_fill_checksum W (V4 s) (V4 d)"
  by unfold_locales (simp_all add: ip4_set_src ip4_set_dst ip4_fill ip4_put tcp_set tcp_fill ip4_view_def)

sublocale wire \<subseteq> udp4: rewriting "ip4_ok W" "ip4_view W" "ip4_set_src W" "ip4_set_dst W" "ip4_payload W"
  "ip4_put_payload W" "ip4_fill_checksum W" "udp_checked W" "udp_view W" "udp_rewrite_port W" udp_port_effect
  "\<lambda>s d. udp_fill_checksum W (V4 s) (V4 d)"
  by unfold_locales (simp_all add: ip4_set_src ip4_set_dst ip4_fill ip4_put udp_set udp_fill ip4_view_def)

sublocale wire \<subseteq> tcp6: rewriting "ip6_checked W" "ip6_view W" "ip6_set_src W" "ip6_set_dst W" "ip6_payload W"
  "ip6_put_payload W" "\<lambda>b. b" "tcp_checked W" "tcp_view W" "tcp_rewrite_port W" tcp_port_effect
  "\<lambda>s d. tcp_fill_checksum W (V6 s) (V6 d)"
  by unfold_locales (simp_all add: ip6_set_src ip6_set_dst ip6_put tcp_set tcp_fill ip6_view_def acts_def [of _ _ "\<lambda>b. b"])

sublocale wire \<subseteq> udp6: rewriting "ip6_checked W" "ip6_view W" "ip6_set_src W" "ip6_set_dst W" "ip6_payload W"
  "ip6_put_payload W" "\<lambda>b. b" "udp_checked W" "udp_view W" "udp_rewrite_port W" udp_port_effect
  "\<lambda>s d. udp_fill_checksum W (V6 s) (V6 d)"
  by unfold_locales (simp_all add: ip6_set_src ip6_set_dst ip6_put udp_set udp_fill ip6_view_def acts_def [of _ _ "\<lambda>b. b"])


section \<open>Rewriting a whole frame\<close>

definition app_data :: "wire_lib \<Rightarrow> bytes \<Rightarrow> bytes" where
  "app_data W frame =
     (let ip = eth_payload W frame in
      case eth_ethertype W frame of
        EtIpv4 \<Rightarrow> (case ip4_proto W ip of
            ProtoTcp \<Rightarrow> tcp_payload W (ip4_payload W ip)
          | ProtoUdp \<Rightarrow> udp_payload W (ip4_payload W ip) | ProtoOther \<Rightarrow> [])
      | EtIpv6 \<Rightarrow> (case ip6_proto W ip of
            ProtoTcp \<Rightarrow> tcp_payload W (ip6_payload W ip)
          | ProtoUdp \<Rightarrow> udp_payload W (ip6_payload W ip) | ProtoOther \<Rightarrow> [])
      | EtOther \<Rightarrow> [])"

definition header_ok :: "wire_lib \<Rightarrow> bytes \<Rightarrow> bool" where
  "header_ok W frame \<longleftrightarrow> (eth_ethertype W frame = EtIpv4 \<longrightarrow> 20 \<le> ip4_header_len W (eth_payload W frame))"

text \<open>The sender of a datagram is not a group address; otherwise the swapped packet is one.\<close>

definition unicast_source :: "packet_info \<Rightarrow> bool" where
  "unicast_source i \<longleftrightarrow>
     (case pi_src_ip i of
        V4 a \<Rightarrow> pi_kind i = UdpV4 \<longrightarrow> \<not> v4_is_multicast a \<and> \<not> v4_is_broadcast a
      | V6 a \<Rightarrow> pi_kind i = UdpV6 \<longrightarrow> \<not> v6_is_multicast a)"

fun info_effect :: "port_rewrite \<Rightarrow> packet_info \<Rightarrow> packet_info" where
  "info_effect (RewriteToProxy p) i =
     i\<lparr>pi_src_ip := pi_dst_ip i, pi_dst_ip := pi_src_ip i, pi_dst_port := p\<rparr>"
| "info_effect (RewriteFromProxy p) i =
     i\<lparr>pi_src_ip := pi_dst_ip i, pi_dst_ip := pi_src_ip i, pi_src_port := p\<rparr>"

text \<open>A frame that carries the packet \<open>i\<close> with the data \<open>d\<close> between two stations.\<close>

definition carries :: "wire_lib \<Rightarrow> bytes \<Rightarrow> packet_info \<Rightarrow> mac_addr \<Rightarrow> mac_addr \<Rightarrow> bytes \<Rightarrow> bool" where
  "carries W f i s d data \<longleftrightarrow> parse_frame W f = Some i \<and> header_ok W f \<and>
     eth_src W f = s \<and> eth_dst W f = d \<and> app_data W f = data"

definition tcp_info :: "wire_lib \<Rightarrow> packet_kind \<Rightarrow> ip_addr \<Rightarrow> ip_addr \<Rightarrow> bytes \<Rightarrow> packet_info" where
  "tcp_info W k s d tcp = \<lparr>pi_kind = k, pi_src_ip = s, pi_dst_ip = d,
     pi_src_port = tcp_src_port W tcp, pi_dst_port = tcp_dst_port W tcp, pi_syn = tcp_syn W tcp,
     pi_ack = tcp_ack W tcp, pi_rst = tcp_rst W tcp, pi_fin = tcp_fin W tcp\<rparr>"

definition udp_info :: "wire_lib \<Rightarrow> packet_kind \<Rightarrow> ip_addr \<Rightarrow> ip_addr \<Rightarrow> bytes \<Rightarrow> packet_info" where
  "udp_info W k s d udp = \<lparr>pi_kind = k, pi_src_ip = s, pi_dst_ip = d,
     pi_src_port = udp_src_port W udp, pi_dst_port = udp_dst_port W udp, pi_syn = False,
     pi_ack = False, pi_rst = False, pi_fin = False\<rparr>"

lemma tcp_info_effect:
  assumes "tcp_view W l' = tcp_port_effect rw (tcp_view W l)"
  shows "tcp_info W k d s l' = info_effect rw (tcp_info W k s d l)" and "tcp_payload W l' = tcp_payload W l"
  using assms by (cases rw; simp add: tcp_view_def tcp_info_def)+

lemma udp_info_effect:
  assumes "udp_view W l' = udp_port_effect rw (udp_view W l)"
  shows "udp_info W k d s l' = info_effect rw (udp_info W k s d l)" and "udp_payload W l' = udp_payload W l"
  using assms by (cases rw; simp add: udp_view_def udp_info_def)+

lemma info_fields [simp]:
  "pi_kind (tcp_info W k s d l) = k" "pi_kind (udp_info W k s d l) = k"
  "pi_src_ip (udp_info W k s d l) = s" "pi_dst_ip (udp_info W k s d l) = d"
  by (simp_all add: tcp_info_def udp_info_def)

context wire begin

lemma swap_put:
  assumes "eth_checked W f" and "length y = length (eth_payload W f)"
  shows "eth_checked W (swap_mac W (eth_put_payload W y f))"
    and "eth_ethertype W (swap_mac W (eth_put_payload W y f)) = eth_ethertype W f"
    and "eth_src W (swap_mac W (eth_put_payload W y f)) = eth_dst W f"
    and "eth_dst W (swap_mac W (eth_put_payload W y f)) = eth_src W f"
    and "eth_payload W (swap_mac W (eth_put_payload W y f)) = y"
    and "length (swap_mac W (eth_put_payload W y f)) = length f"
proof -
  let ?g = "eth_put_payload W y f"
  note g = putsD [OF eth_put assms]
  note h = actsD [OF eth_set_src g(1), of "eth_dst W ?g"]
  note k = actsD [OF eth_set_dst h(1), of "eth_src W ?g"]
  have swap: "swap_mac W ?g = eth_set_dst W (eth_src W ?g) (eth_set_src W (eth_dst W ?g) ?g)"
    by (simp add: swap_mac_def Let_def)
  have view: "eth_view W (swap_mac W ?g) =
      (eth_view W f)\<lparr>ev_src := eth_dst W f, ev_dst := eth_src W f, ev_payload := y\<rparr>"
    using g(2) by (simp add: swap h k) (simp add: eth_view_def)
  show "eth_checked W (swap_mac W ?g)" "length (swap_mac W ?g) = length f"
    by (simp_all add: swap h k g)
  show "eth_ethertype W (swap_mac W ?g) = eth_ethertype W f" "eth_src W (swap_mac W ?g) = eth_dst W f"
    "eth_dst W (swap_mac W ?g) = eth_src W f" "eth_payload W (swap_mac W ?g) = y"
    using view by (simp_all add: eth_view_def)
qed

lemma apply_tcp_v4:
  "ip4_ok W (eth_payload W f) \<Longrightarrow> tcp_checked W (ip4_payload W (eth_payload W f)) \<Longrightarrow>
   apply_tcp_v4 W rw f = Some (direction_of rw, swap_mac W (eth_put_payload W (tcp4.rewritten rw (eth_payload W f)) f))"
  by (simp add: apply_tcp_v4_def tcp4.rewritten_def tcp4.swapped_def swap_ipv4_def ip4_ok_def ip4_view_def Let_def)

lemma apply_udp_v4:
  "ip4_ok W (eth_payload W f) \<Longrightarrow> udp_checked W (ip4_payload W (eth_payload W f)) \<Longrightarrow>
   apply_udp_v4 W rw f = Some (direction_of rw, swap_mac W (eth_put_payload W (udp4.rewritten rw (eth_payload W f)) f))"
  by (simp add: apply_udp_v4_def udp4.rewritten_def udp4.swapped_def swap_ipv4_def ip4_ok_def ip4_view_def Let_def)

lemma apply_tcp_v6:
  "ip6_checked W (eth_payload W f) \<Longrightarrow> tcp_checked W (ip6_payload W (eth_payload W f)) \<Longrightarrow>
   apply_tcp_v6 W rw f = Some (direction_of rw, swap_mac W (eth_put_payload W (tcp6.rewritten rw (eth_payload W f)) f))"
  by (simp add: apply_tcp_v6_def tcp6.rewritten_def tcp6.swapped_def swap_ipv6_def ip6_view_def Let_def)

lemma apply_udp_v6:
  "ip6_checked W (eth_payload W f) \<Longrightarrow> udp_checked W (ip6_payload W (eth_payload W f)) \<Longrightarrow>
   apply_udp_v6 W rw f = Some (direction_of rw, swap_mac W (eth_put_payload W (udp6.rewritten rw (eth_payload W f)) f))"
  by (simp add: apply_udp_v6_def udp6.rewritten_def udp6.swapped_def swap_ipv6_def ip6_view_def Let_def)

text \<open>The goal of the four cases below.\<close>

definition rewritten_ok :: "bytes \<Rightarrow> packet_info \<Rightarrow> mac_addr \<Rightarrow> mac_addr \<Rightarrow> bytes \<Rightarrow> port_rewrite \<Rightarrow> bool" where
  "rewritten_ok f i s d data rw \<longleftrightarrow>
     (\<exists>f'. apply_kind W (pi_kind i) rw f = Some (direction_of rw, f') \<and> length f' = length f \<and>
       carries W f' (info_effect rw i) d s data)"

lemma carries_tcp4:
  "eth_ethertype W f = EtIpv4 \<Longrightarrow> ip4_proto W (eth_payload W f) = ProtoTcp \<Longrightarrow>
   carries W f i s d data \<longleftrightarrow> eth_checked W f \<and> ip4_ok W (eth_payload W f) \<and>
     tcp_checked W (ip4_payload W (eth_payload W f)) \<and>
     i = tcp_info W TcpV4 (V4 (ip4_src W (eth_payload W f))) (V4 (ip4_dst W (eth_payload W f)))
           (ip4_payload W (eth_payload W f)) \<and>
     s = eth_src W f \<and> d = eth_dst W f \<and> data = tcp_payload W (ip4_payload W (eth_payload W f))"
  by (auto simp: carries_def parse_frame_def parse_ipv4_def tcp_info_def header_ok_def ip4_ok_def app_data_def Let_def)

lemma carries_udp4:
  "eth_ethertype W f = EtIpv4 \<Longrightarrow> ip4_proto W (eth_payload W f) = ProtoUdp \<Longrightarrow>
   carries W f i s d data \<longleftrightarrow> eth_checked W f \<and> ip4_ok W (eth_payload W f) \<and>
     udp_checked W (ip4_payload W (eth_payload W f)) \<and>
     \<not> v4_is_multicast (ip4_dst W (eth_payload W f)) \<and> \<not> v4_is_broadcast (ip4_dst W (eth_payload W f)) \<and>
     i = udp_info W UdpV4 (V4 (ip4_src W (eth_payload W f))) (V4 (ip4_dst W (eth_payload W f)))
           (ip4_payload W (eth_payload W f)) \<and>
     s = eth_src W f \<and> d = eth_dst W f \<and> data = udp_payload W (ip4_payload W (eth_payload W f))"
  by (auto simp: carries_def parse_frame_def parse_ipv4_def udp_info_def header_ok_def ip4_ok_def app_data_def Let_def)

lemma carries_tcp6:
  "eth_ethertype W f = EtIpv6 \<Longrightarrow> ip6_proto W (eth_payload W f) = ProtoTcp \<Longrightarrow>
   carries W f i s d data \<longleftrightarrow> eth_checked W f \<and> ip6_checked W (eth_payload W f) \<and>
     tcp_checked W (ip6_payload W (eth_payload W f)) \<and>
     i = tcp_info W TcpV6 (V6 (ip6_src W (eth_payload W f))) (V6 (ip6_dst W (eth_payload W f)))
           (ip6_payload W (eth_payload W f)) \<and>
     s = eth_src W f \<and> d = eth_dst W f \<and> data = tcp_payload W (ip6_payload W (eth_payload W f))"
  by (auto simp: carries_def parse_frame_def parse_ipv6_def tcp_info_def header_ok_def app_data_def Let_def)

lemma carries_udp6:
  "eth_ethertype W f = EtIpv6 \<Longrightarrow> ip6_proto W (eth_payload W f) = ProtoUdp \<Longrightarrow>
   carries W f i s d data \<longleftrightarrow> eth_checked W f \<and> ip6_checked W (eth_payload W f) \<and>
     udp_checked W (ip6_payload W (eth_payload W f)) \<and> \<not> v6_is_multicast (ip6_dst W (eth_payload W f)) \<and>
     i = udp_info W UdpV6 (V6 (ip6_src W (eth_payload W f))) (V6 (ip6_dst W (eth_payload W f)))
           (ip6_payload W (eth_payload W f)) \<and>
     s = eth_src W f \<and> d = eth_dst W f \<and> data = udp_payload W (ip6_payload W (eth_payload W f))"
  by (auto simp: carries_def parse_frame_def parse_ipv6_def udp_info_def header_ok_def app_data_def Let_def)

lemma rewrite_tcp_v4:
  assumes "carries W f i s d data" and "eth_ethertype W f = EtIpv4" and "ip4_proto W (eth_payload W f) = ProtoTcp"
  shows "rewritten_ok f i s d data rw"
proof -
  let ?ip = "eth_payload W f"
  let ?f' = "swap_mac W (eth_put_payload W (tcp4.rewritten rw ?ip) f)"
  note c = assms(1) [unfolded carries_tcp4 [OF assms(2,3)]]
  from tcp4.rewritten [of ?ip rw] c obtain ip l4 where ip: "tcp4.rewritten rw ?ip = ip"
    and r: "ip4_ok W ip" "length ip = length ?ip"
    and l4: "tcp_checked W l4" "tcp_view W l4 = tcp_port_effect rw (tcp_view W (ip4_payload W ?ip))"
    and v: "ip4_view W ip = (ip4_view W ?ip)
      \<lparr>iv_src := iv_dst (ip4_view W ?ip), iv_dst := iv_src (ip4_view W ?ip), iv_payload := l4\<rparr>"
    by blast
  from c have "eth_checked W f" by simp
  note f' = swap_put [OF this r(2)]
  have v': "ip4_src W ip = ip4_dst W ?ip" "ip4_dst W ip = ip4_src W ?ip" "ip4_payload W ip = l4"
    "ip4_proto W ip = ProtoTcp"
    using v assms(3) by (simp_all add: ip4_view_def)
  have "carries W ?f' (info_effect rw i) d s data"
    unfolding ip using c r l4 assms(2)
    by (subst carries_tcp4) (simp_all add: f' v' tcp_info_effect [OF l4(2)])
  then show ?thesis
    using c apply_tcp_v4 [of f rw] f'(6) by (auto simp: rewritten_ok_def ip)
qed

lemma rewrite_udp_v4:
  assumes "carries W f i s d data" and "eth_ethertype W f = EtIpv4" and "ip4_proto W (eth_payload W f) = ProtoUdp"
    and "unicast_source i"
  shows "rewritten_ok f i s d data rw"
proof -
  let ?ip = "eth_payload W f"
  let ?f' = "swap_mac W (eth_put_payload W (udp4.rewritten rw ?ip) f)"
  note c = assms(1) [unfolded carries_udp4 [OF assms(2,3)]]
  from udp4.rewritten [of ?ip rw] c obtain ip l4 where ip: "udp4.rewritten rw ?ip = ip"
    and r: "ip4_ok W ip" "length ip = length ?ip"
    and l4: "udp_checked W l4" "udp_view W l4 = udp_port_effect rw (udp_view W (ip4_payload W ?ip))"
    and v: "ip4_view W ip = (ip4_view W ?ip)
      \<lparr>iv_src := iv_dst (ip4_view W ?ip), iv_dst := iv_src (ip4_view W ?ip), iv_payload := l4\<rparr>"
    by blast
  from c have "eth_checked W f" by simp
  note f' = swap_put [OF this r(2)]
  have v': "ip4_src W ip = ip4_dst W ?ip" "ip4_dst W ip = ip4_src W ?ip" "ip4_payload W ip = l4"
    "ip4_proto W ip = ProtoUdp"
    using v assms(3) by (simp_all add: ip4_view_def)
  have "carries W ?f' (info_effect rw i) d s data"
    unfolding ip using c r l4 assms(2,4)
    by (subst carries_udp4) (simp_all add: f' v' udp_info_effect [OF l4(2)] unicast_source_def)
  then show ?thesis
    using c apply_udp_v4 [of f rw] f'(6) by (auto simp: rewritten_ok_def ip)
qed

lemma rewrite_tcp_v6:
  assumes "carries W f i s d data" and "eth_ethertype W f = EtIpv6" and "ip6_proto W (eth_payload W f) = ProtoTcp"
  shows "rewritten_ok f i s d data rw"
proof -
  let ?ip = "eth_payload W f"
  let ?f' = "swap_mac W (eth_put_payload W (tcp6.rewritten rw ?ip) f)"
  note c = assms(1) [unfolded carries_tcp6 [OF assms(2,3)]]
  from tcp6.rewritten [of ?ip rw] c obtain ip l4 where ip: "tcp6.rewritten rw ?ip = ip"
    and r: "ip6_checked W ip" "length ip = length ?ip"
    and l4: "tcp_checked W l4" "tcp_view W l4 = tcp_port_effect rw (tcp_view W (ip6_payload W ?ip))"
    and v: "ip6_view W ip = (ip6_view W ?ip)
      \<lparr>iv_src := iv_dst (ip6_view W ?ip), iv_dst := iv_src (ip6_view W ?ip), iv_payload := l4\<rparr>"
    by blast
  from c have "eth_checked W f" by simp
  note f' = swap_put [OF this r(2)]
  have v': "ip6_src W ip = ip6_dst W ?ip" "ip6_dst W ip = ip6_src W ?ip" "ip6_payload W ip = l4"
    "ip6_proto W ip = ProtoTcp"
    using v assms(3) by (simp_all add: ip6_view_def)
  have "carries W ?f' (info_effect rw i) d s data"
    unfolding ip using c r l4 assms(2)
    by (subst carries_tcp6) (simp_all add: f' v' tcp_info_effect [OF l4(2)])
  then show ?thesis
    using c apply_tcp_v6 [of f rw] f'(6) by (auto simp: rewritten_ok_def ip)
qed

lemma rewrite_udp_v6:
  assumes "carries W f i s d data" and "eth_ethertype W f = EtIpv6" and "ip6_proto W (eth_payload W f) = ProtoUdp"
    and "unicast_source i"
  shows "rewritten_ok f i s d data rw"
proof -
  let ?ip = "eth_payload W f"
  let ?f' = "swap_mac W (eth_put_payload W (udp6.rewritten rw ?ip) f)"
  note c = assms(1) [unfolded carries_udp6 [OF assms(2,3)]]
  from udp6.rewritten [of ?ip rw] c obtain ip l4 where ip: "udp6.rewritten rw ?ip = ip"
    and r: "ip6_checked W ip" "length ip = length ?ip"
    and l4: "udp_checked W l4" "udp_view W l4 = udp_port_effect rw (udp_view W (ip6_payload W ?ip))"
    and v: "ip6_view W ip = (ip6_view W ?ip)
      \<lparr>iv_src := iv_dst (ip6_view W ?ip), iv_dst := iv_src (ip6_view W ?ip), iv_payload := l4\<rparr>"
    by blast
  from c have "eth_checked W f" by simp
  note f' = swap_put [OF this r(2)]
  have v': "ip6_src W ip = ip6_dst W ?ip" "ip6_dst W ip = ip6_src W ?ip" "ip6_payload W ip = l4"
    "ip6_proto W ip = ProtoUdp"
    using v assms(3) by (simp_all add: ip6_view_def)
  have "carries W ?f' (info_effect rw i) d s data"
    unfolding ip using c r l4 assms(2,4)
    by (subst carries_udp6) (simp_all add: f' v' udp_info_effect [OF l4(2)] unicast_source_def)
  then show ?thesis
    using c apply_udp_v6 [of f rw] f'(6) by (auto simp: rewritten_ok_def ip)
qed

lemma rewrite_frame:
  assumes "carries W f i s d data" and "unicast_source i"
  shows "rewritten_ok f i s d data rw"
proof (cases "eth_ethertype W f")
  case EtIpv4
  then show ?thesis
    using assms rewrite_tcp_v4 [OF assms(1) EtIpv4] rewrite_udp_v4 [OF assms(1) EtIpv4]
    by (cases "ip4_proto W (eth_payload W f)")
      (auto simp: carries_def parse_frame_def parse_ipv4_def Let_def split: if_splits)
next
  case EtIpv6
  then show ?thesis
    using assms rewrite_tcp_v6 [OF assms(1) EtIpv6] rewrite_udp_v6 [OF assms(1) EtIpv6]
    by (cases "ip6_proto W (eth_payload W f)")
      (auto simp: carries_def parse_frame_def parse_ipv6_def Let_def split: if_splits)
next
  case EtOther
  with assms(1) show ?thesis by (simp add: carries_def parse_frame_def split: if_splits)
qed

end


section \<open>One packet through the router\<close>

definition packet_carries ::
    "wire_lib \<Rightarrow> intermediate_buffer \<Rightarrow> packet_info \<Rightarrow> mac_addr \<Rightarrow> mac_addr \<Rightarrow> bytes \<Rightarrow> bool" where
  "packet_carries W packet i s d data \<longleftrightarrow>
     14 \<le> unat (ib_length packet) \<and> unat (ib_length packet) \<le> length (ib_data packet) \<and>
     carries W (take (unat (ib_length packet)) (ib_data packet)) i s d data"

definition decision :: "'l flow_env \<Rightarrow> packet_info \<Rightarrow> 'l router \<Rightarrow> port_rewrite option \<times> 'l router" where
  "decision env i r =
     (let src = socket_addr_new (pi_src_ip i) (pi_src_port i);
          dst = socket_addr_new (pi_dst_ip i) (pi_dst_port i) in
      if pi_kind i = TcpV4 \<or> pi_kind i = TcpV6 then
        process_tcp_payload env src dst (pi_src_ip i) (pi_dst_ip i) (pi_src_port i) (pi_dst_port i)
          (kind_is_v6 (pi_kind i)) (pi_syn i) (pi_ack i) (pi_rst i) (pi_fin i) r
      else
        process_udp_payload env src dst (pi_src_ip i) (pi_dst_ip i) (pi_src_port i) (pi_dst_port i)
          (kind_is_v6 (pi_kind i)) r)"

lemma process_packet_decision:
  "process_packet W env packet r =
     rbind (parse_packet_info W packet) (\<lambda>parsed.
       case parsed of None \<Rightarrow> Inr (None, packet, r)
       | Some i \<Rightarrow> let (rewrite, r) = decision env i r in
           rbind (apply_rewrite W packet i rewrite) (\<lambda>(direction, packet). Inr (direction, packet, r)))"
  unfolding process_packet_def decision_def Let_def by (rule refl)



lemma take_frame_tail: "length f = n \<Longrightarrow> take n (f @ drop n xs) = f \<and> drop n (f @ drop n xs) = drop n xs"
  by simp

lemma process_packet_carried:
  assumes "wire_laws W" and "packet_carries W packet i s d data" and "unicast_source i"
    and "decision env i r = (Some rw, r')"
  shows "\<exists>packet'. process_packet W env packet r = Inr (Some (direction_of rw), packet', r') \<and>
    packet_carries W packet' (info_effect rw i) d s data \<and>
    ib_length packet' = ib_length packet \<and> ib_on_send packet' = ib_on_send packet \<and>
    drop (unat (ib_length packet)) (ib_data packet') = drop (unat (ib_length packet)) (ib_data packet)"
proof -
  let ?n = "unat (ib_length packet)"
  let ?f = "take ?n (ib_data packet)"
  from assms(2) have n: "14 \<le> ?n" "?n \<le> length (ib_data packet)" and c: "carries W ?f i s d data"
    by (simp_all add: packet_carries_def)
  from wire.rewrite_frame [OF wire.intro [OF assms(1)] c assms(3), of rw]
  obtain f' where f': "apply_kind W (pi_kind i) rw ?f = Some (direction_of rw, f')" "length f' = ?n"
      "carries W f' (info_effect rw i) d s data"
    using n(2) by (auto simp: wire.rewritten_ok_def [OF wire.intro [OF assms(1)]])
  let ?p = "packet\<lparr>ib_data := f' @ drop ?n (ib_data packet)\<rparr>"
  have "eth_checked W ?f" "parse_frame W ?f = Some i"
    using c by (auto simp: carries_def parse_frame_def split: if_splits)
  then have "process_packet W env packet r = Inr (Some (direction_of rw), ?p, r')"
    using n f'(1) assms(4)
    by (simp add: process_packet_decision parse_packet_info_def frame_of_def apply_rewrite_def)
  moreover have "packet_carries W ?p (info_effect rw i) d s data"
    using n f'(2,3) by (simp add: packet_carries_def)
  ultimately show ?thesis using f'(2) by auto
qed




text \<open>C8: A redirected packet keeps its data, protocol and flags, and its stations and its addresses
  change places; one port is replaced as decided and the other kept; the buffer's length, its
  direction flag and what lies behind the frame do not change.\<close>
theorem packet_rewritten:
  assumes "wire_laws W" and "packet_carries W packet i s d data" and "unicast_source i"
    and "process_packet W env packet r = Inr (Some dir, packet', r')"
  shows "\<exists>rw. decision env i r = (Some rw, r') \<and> dir = direction_of rw \<and>
    packet_carries W packet' (info_effect rw i) d s data \<and>
    ib_length packet' = ib_length packet \<and> ib_on_send packet' = ib_on_send packet \<and>
    drop (unat (ib_length packet)) (ib_data packet') = drop (unat (ib_length packet)) (ib_data packet)"
proof -
  have p: "parse_packet_info W packet = Inr (Some i)"
    using assms(2) by (simp add: packet_carries_def carries_def parse_packet_info_def frame_of_def)
  obtain rwo q where d: "decision env i r = (rwo, q)" by force
  show ?thesis
  proof (cases rwo)
    case None
    with p d assms(4) show ?thesis by (simp add: process_packet_decision apply_rewrite_def)
  next
    case (Some rw)
    with process_packet_carried [OF assms(1-3), of env r rw q] d assms(4) show ?thesis by auto
  qed
qed

lemma decision_tcp:
  "pi_kind i = TcpV4 \<or> pi_kind i = TcpV6 \<Longrightarrow>
   decision env i r = process_tcp_payload env (socket_addr_new (pi_src_ip i) (pi_src_port i))
     (socket_addr_new (pi_dst_ip i) (pi_dst_port i)) (pi_src_ip i) (pi_dst_ip i) (pi_src_port i) (pi_dst_port i)
     (kind_is_v6 (pi_kind i)) (pi_syn i) (pi_ack i) (pi_rst i) (pi_fin i) r"
  by (simp add: decision_def Let_def)

lemma tcp_unicast_source: "pi_kind i = TcpV4 \<or> pi_kind i = TcpV6 \<Longrightarrow> unicast_source i"
  by (auto simp: unicast_source_def split: ip_addr.split)

text \<open>C1: A TCP exchange on the wire. The client's SYN is turned round to the proxy's port, coming
  from the server's address; whatever the router does until the connection closes, the proxy's
  packets to that address are turned round too and reach the client from the server's address
  and port, with their data.\<close>
theorem tcp_exchange:
  assumes "wire_laws W" and "packet_carries W packet i s d data" and "pi_kind i = TcpV4 \<or> pi_kind i = TcpV6"
    and "pi_syn i" and "\<not> pi_ack i"
    and "fe_find_process_path env False (socket_addr_new (pi_src_ip i) (pi_src_port i))
      (socket_addr_new (pi_dst_ip i) (pi_dst_port i)) (fe_now env) (process_lookup r) = (Inr path, l)"
    and "get_proxy_port_tcp (fe_name_order env) r path (kind_is_v6 (pi_kind i)) = port" and "port \<noteq> 0"
    and "hm_get (tcp_connections r) (pi_dst_ip i, pi_src_ip i, pi_src_port i) = None"
    and "\<not> is_tcp_proxy_port r (pi_src_port i)"
    and "process_packet W env packet r = Inr (out, packet1, r1)"
    and "(undisturbed (pi_dst_ip i, pi_src_ip i, pi_src_port i))\<^sup>*\<^sup>* r1 r2"
    and "packet_carries W reply j s' d' data'" and "pi_kind j = pi_kind i" and "\<not> (pi_syn j \<and> \<not> pi_ack j)"
    and "pi_src_ip j = pi_src_ip i" and "pi_src_port j = port"
    and "pi_dst_ip j = pi_dst_ip i" and "pi_dst_port j = pi_src_port i"
    and "is_tcp_proxy_port r2 port"
    and "hm_get (tcp_connections r2) (pi_dst_ip i, pi_src_ip i, port) = None"
  shows "out = Some ToProxy \<and>
    packet_carries W packet1 (i\<lparr>pi_src_ip := pi_dst_ip i, pi_dst_ip := pi_src_ip i, pi_dst_port := port\<rparr>) d s data \<and>
    (\<exists>reply1 r3. process_packet W env' reply r2 = Inr (Some FromProxy, reply1, r3) \<and>
      packet_carries W reply1
        (j\<lparr>pi_src_ip := pi_dst_ip i, pi_dst_ip := pi_src_ip i, pi_src_port := pi_dst_port i\<rparr>) d' s' data')"
proof -
  let ?e = "\<lparr>tm_dst_ip = pi_dst_ip i, tm_dst_port = pi_dst_port i, tm_proxy_port = port\<rparr>"
  let ?k = "(pi_dst_ip i, pi_src_ip i, pi_src_port i)"
  obtain q where dec: "decision env i r = (Some (RewriteToProxy port), q)"
    using tcp_syn_redirected [OF assms(4-8)] by (simp add: decision_tcp [OF assms(3)])
  from process_packet_carried [OF assms(1,2) tcp_unicast_source [OF assms(3)] dec] assms(11)
  have out: "out = Some ToProxy" "r1 = q"
    and p1: "packet_carries W packet1 (info_effect (RewriteToProxy port) i) d s data"
    by auto
  have syn: "process_tcp_payload env (socket_addr_new (pi_src_ip i) (pi_src_port i))
      (socket_addr_new (pi_dst_ip i) (pi_dst_port i)) (pi_src_ip i) (pi_dst_ip i) (pi_src_port i) (pi_dst_port i)
      (kind_is_v6 (pi_kind i)) True False (pi_rst i) (pi_fin i) r = (Some (RewriteToProxy port), r1)"
    using dec assms(4,5) out(2) by (simp add: decision_tcp [OF assms(3)])
  from undisturbed_entries [OF assms(12) tcp_syn_entry [OF syn assms(9,10)]]
  have e: "hm_get (tcp_connections r2) ?k = Some ?e" .
  have kind: "pi_kind j = TcpV4 \<or> pi_kind j = TcpV6" using assms(3,14) by simp
  obtain q2 where dec2: "decision env' j r2 = (Some (RewriteFromProxy (pi_dst_port i)), q2)"
    using tcp_from_proxy [OF assms(15), of r2 "pi_dst_ip i" "pi_src_ip i" port] assms(16-21) e
    by (auto simp: decision_tcp [OF kind])
  from process_packet_carried [OF assms(1,13) tcp_unicast_source [OF kind] dec2]
  obtain reply1 where "process_packet W env' reply r2 = Inr (Some FromProxy, reply1, q2)"
    and "packet_carries W reply1 (info_effect (RewriteFromProxy (pi_dst_port i)) j) d' s' data'"
    by auto
  then show ?thesis using out(1) p1 assms(16,18) by auto
qed


section \<open>A concrete exchange\<close>

definition demo_mac :: "u8 \<Rightarrow> mac_addr" where
  "demo_mac n = Mac 2 0 0 0 0 n"

definition demo_tcp_frame :: "u8 \<Rightarrow> u8 \<Rightarrow> u8 \<Rightarrow> u8 \<Rightarrow> u8 \<Rightarrow> bytes" where
  "demo_tcp_frame sp1 sp0 dp1 dp0 flags =
     [2, 0, 0, 0, 0, 9,  2, 0, 0, 0, 0, 1,  8, 0] @
     [0x45, 0, 0, 42,  0, 0, 0, 0,  64, 6, 0, 0,  10, 0, 0, 2,  8, 8, 8, 8] @
     [sp1, sp0, dp1, dp0,  0, 0, 0, 1,  0, 0, 0, 0,  0x50, flags, 1, 0,  0, 0, 0, 0] @
     [104, 105]"

definition demo_packet :: "bytes \<Rightarrow> intermediate_buffer" where
  "demo_packet frame = \<lparr>ib_length = 56, ib_data = frame @ [0, 0], ib_on_send = True\<rparr>"

definition demo_info :: "u16 \<Rightarrow> u16 \<Rightarrow> bool \<Rightarrow> bool \<Rightarrow> packet_info" where
  "demo_info sp dp syn ack = \<lparr>pi_kind = TcpV4, pi_src_ip = demo_client_ip, pi_dst_ip = demo_server_ip,
     pi_src_port = sp, pi_dst_port = dp, pi_syn = syn, pi_ack = ack, pi_rst = False, pi_fin = False\<rparr>"

lemma demo_frame_carries:
  "packet_carries rfc_wire (demo_packet (demo_tcp_frame a b c d flags))
     (tcp_info rfc_wire TcpV4 demo_client_ip demo_server_ip
       ([a, b, c, d,  0, 0, 0, 1,  0, 0, 0, 0,  0x50, flags, 1, 0,  0, 0, 0, 0, 104, 105]))
     (demo_mac 1) (demo_mac 9) [104, 105]"
proof -
  let ?l4 = "[a, b, c, d,  0, 0, 0, 1,  0, 0, 0, 0,  0x50, flags, 1, 0,  0, 0, 0, 0, 104, 105]"
  let ?ip = "[0x45, 0, 0, 42,  0, 0, 0, 0,  64, 6, 0, 0,  10, 0, 0, 2,  8, 8, 8, 8] @ ?l4"
  let ?f = "demo_tcp_frame a b c d flags"
  have len: "length ?f = 56" by (simp add: demo_tcp_frame_def)
  have pay: "eth_payload rfc_wire ?f = ?ip" by (simp add: rfc_wire_sel demo_tcp_frame_def)
  have ty: "eth_ethertype rfc_wire ?f = EtIpv4"
    by (simp add: rfc_wire_sel demo_tcp_frame_def get_u16_def u16_of_def slice_def u16_from_be_bytes_def Let_def)
  have mac: "eth_src rfc_wire ?f = demo_mac 1" "eth_dst rfc_wire ?f = demo_mac 9"
    by (simp_all add: rfc_wire_sel demo_tcp_frame_def mac_at_def mac_of_def slice_def demo_mac_def)
  have hdr: "ihl ?ip = 20" "ip4_total ?ip = 42"
    by (simp_all add: ihl_def ip4_total_def get_u16_def u16_of_def slice_def u16_from_be_bytes_def)
  have ip: "ip4_ok rfc_wire ?ip" "ip4_proto rfc_wire ?ip = ProtoTcp" "ip4_payload rfc_wire ?ip = ?l4"
    using hdr by (simp_all add: ip4_ok_def rfc_ip4_sel proto_of_def slice_def)
  have addr: "V4 (ip4_src rfc_wire ?ip) = demo_client_ip" "V4 (ip4_dst rfc_wire ?ip) = demo_server_ip"
    by (simp_all add: rfc_ip4_sel slice_def v4_of_octets_def demo_client_ip_def demo_server_ip_def)
  have tcp: "tcp_checked rfc_wire ?l4" "tcp_payload rfc_wire ?l4 = [104, 105]"
    by (simp_all add: rfc_tcp_sel tcp_hlen_def)
  have "carries rfc_wire ?f (tcp_info rfc_wire TcpV4 demo_client_ip demo_server_ip ?l4)
      (demo_mac 1) (demo_mac 9) [104, 105]"
    using ty len by (subst rfc.carries_tcp4) (simp_all add: pay ip addr tcp mac rfc_wire_sel(1) del: append.simps)
  then show ?thesis by (simp add: packet_carries_def demo_packet_def len)
qed

lemma demo_syn_carries:
  "packet_carries rfc_wire (demo_packet (demo_tcp_frame 0x0F 0xA0 0x01 0xBB 2)) (demo_info 4000 443 True False)
     (demo_mac 1) (demo_mac 9) [104, 105]"
  using demo_frame_carries [of "0x0F" "0xA0" "0x01" "0xBB" 2]
  by (simp add: tcp_info_def demo_info_def rfc_tcp_sel get_u16_def u16_of_def slice_def u16_from_be_bytes_def)

lemma demo_reply_carries:
  "packet_carries rfc_wire (demo_packet (demo_tcp_frame 0xC3 0x50 0x0F 0xA0 16)) (demo_info 50000 4000 False True)
     (demo_mac 1) (demo_mac 9) [104, 105]"
  using demo_frame_carries [of "0xC3" "0x50" "0x0F" "0xA0" 16]
  by (simp add: tcp_info_def demo_info_def rfc_tcp_sel get_u16_def u16_of_def slice_def u16_from_be_bytes_def)


definition demo_syn_packet :: intermediate_buffer where
  "demo_syn_packet = demo_packet (demo_tcp_frame 0x0F 0xA0 0x01 0xBB 2)"

definition demo_reply_packet :: intermediate_buffer where
  "demo_reply_packet = demo_packet (demo_tcp_frame 0xC3 0x50 0x0F 0xA0 16)"

lemma demo_packet_carries:
  "packet_carries rfc_wire demo_syn_packet (demo_info 4000 443 True False) (demo_mac 1) (demo_mac 9) [104, 105]"
  "packet_carries rfc_wire demo_reply_packet (demo_info 50000 4000 False True) (demo_mac 1) (demo_mac 9) [104, 105]"
  unfolding demo_syn_packet_def demo_reply_packet_def by (rule demo_syn_carries demo_reply_carries)+

lemma demo_info_sel [simp]:
  "pi_kind (demo_info a b c d) = TcpV4" "pi_src_ip (demo_info a b c d) = demo_client_ip"
  "pi_dst_ip (demo_info a b c d) = demo_server_ip" "pi_src_port (demo_info a b c d) = a"
  "pi_dst_port (demo_info a b c d) = b" "pi_syn (demo_info a b c d) = c" "pi_ack (demo_info a b c d) = d"
  "pi_rst (demo_info a b c d) = False" "pi_fin (demo_info a b c d) = False"
  by (simp_all add: demo_info_def)

definition demo_redirected :: "unit router" where
  "demo_redirected = demo_live\<lparr>tcp_connections := hm_or_insert (demo_server_ip, demo_client_ip, 4000)
      \<lparr>tm_dst_ip = demo_server_ip, tm_dst_port = 443, tm_proxy_port = 50000\<rparr> hm_empty\<rparr>"

lemma demo_decision:
  "decision (demo_flow_env 0) (demo_info 4000 443 True False) demo_live = (Some (RewriteToProxy 50000), demo_redirected)"
  by (simp add: decision_tcp demo_redirected_def
      tcp_syn_redirected [where path = "''C:/fox.exe''" and l = "()" and port = 50000])

lemma demo_process:
  obtains packet1 where "process_packet rfc_wire (demo_flow_env 0) demo_syn_packet demo_live =
    Inr (Some ToProxy, packet1, demo_redirected)"
  using process_packet_carried [OF rfc_wire_laws demo_packet_carries(1) tcp_unicast_source demo_decision] by auto


theorem packet_rewritten_witness:
  "\<exists>packet1. process_packet rfc_wire (demo_flow_env 0) demo_syn_packet demo_live = Inr (Some ToProxy, packet1, demo_redirected) \<and>
    packet_carries rfc_wire packet1 ((demo_info 4000 50000 True False)
      \<lparr>pi_src_ip := demo_server_ip, pi_dst_ip := demo_client_ip\<rparr>) (demo_mac 9) (demo_mac 1) [104, 105]"
proof -
  obtain packet1 where p: "process_packet rfc_wire (demo_flow_env 0) demo_syn_packet demo_live =
      Inr (Some ToProxy, packet1, demo_redirected)"
    by (rule demo_process)
  from packet_rewritten [OF rfc_wire_laws demo_packet_carries(1) tcp_unicast_source p] demo_decision
  have "packet_carries rfc_wire packet1 (info_effect (RewriteToProxy 50000) (demo_info 4000 443 True False))
      (demo_mac 9) (demo_mac 1) [104, 105]"
    by simp
  then show ?thesis using p by (simp add: demo_info_def)
qed

theorem tcp_exchange_witness:
  "\<exists>packet1 reply1 r3.
    process_packet rfc_wire (demo_flow_env 0) demo_syn_packet demo_live = Inr (Some ToProxy, packet1, demo_redirected) \<and>
    process_packet rfc_wire (demo_flow_env 5) demo_reply_packet demo_redirected = Inr (Some FromProxy, reply1, r3) \<and>
    packet_carries rfc_wire reply1 ((demo_info 443 4000 False True)
      \<lparr>pi_src_ip := demo_server_ip, pi_dst_ip := demo_client_ip\<rparr>) (demo_mac 9) (demo_mac 1) [104, 105]"
proof -
  obtain packet1 where p: "process_packet rfc_wire (demo_flow_env 0) demo_syn_packet demo_live =
      Inr (Some ToProxy, packet1, demo_redirected)"
    by (rule demo_process)
  have px: "is_tcp_proxy_port demo_redirected 50000"
    and free: "hm_get (tcp_connections demo_redirected) (demo_server_ip, demo_client_ip, 50000) = None"
    by (simp_all add: demo_redirected_def is_tcp_proxy_port_def hm_or_insert_get)
  from tcp_exchange [OF rfc_wire_laws demo_packet_carries(1) _ _ _ _ _ _ _ _ p rtranclp.rtrancl_refl
      demo_packet_carries(2), where path = "''C:/fox.exe''" and l = "()" and port = 50000 and env' = "demo_flow_env 5"]
  obtain reply1 r3 where
    "process_packet rfc_wire (demo_flow_env 5) demo_reply_packet demo_redirected = Inr (Some FromProxy, reply1, r3)"
    "packet_carries rfc_wire reply1 ((demo_info 50000 4000 False True)
      \<lparr>pi_src_ip := demo_server_ip, pi_dst_ip := demo_client_ip, pi_src_port := 443\<rparr>) (demo_mac 9) (demo_mac 1) [104, 105]"
    using px free by auto
  with p show ?thesis by (auto simp: demo_info_def)
qed

end
