(* ===== verification/PacketLoop.thy ===== *)
theory PacketLoop
  imports PacketSpec "HOL-Library.Multiset"
begin

text \<open>
  The packet task, \<open>run_packet_loop\<close> of \<open>src/src/router/adapter.rs\<close>: opening the adapter in
  tunnel mode, reading batches, sending every packet on to the network or to the local stack,
  counting redirected bytes, cleaning up every twentieth batch, and leaving on shutdown or for a
  new adapter. What the driver and the other tasks do is a script: before each check of the
  flags another task may change the router (\<open>tk_other\<close>), then a read fails or yields a batch.
\<close>

definition CLEANUP_BATCHES :: u32 where
  "CLEANUP_BATCHES = 20"

section \<open>One batch\<close>

definition count_bytes :: "proxy_direction option \<Rightarrow> u64 \<Rightarrow> 'l router \<Rightarrow> 'l router" where
  "count_bytes dir n r =
     (case dir of
        None \<Rightarrow> r
      | Some ToProxy \<Rightarrow> r\<lparr>bytes_sent := bytes_sent r + n\<rparr>
      | Some FromProxy \<Rightarrow> r\<lparr>bytes_received := bytes_received r + n\<rparr>)"

definition send_to_adapter :: "proxy_direction option \<Rightarrow> intermediate_buffer \<Rightarrow> bool" where
  "send_to_adapter dir packet =
     (let is_send = ib_on_send packet; redirected = (dir \<noteq> None) in
      if redirected then \<not> is_send else is_send)"

text \<open>
  Each packet comes with what the lookup and the clock give while it is processed. The result is
  the packets as rewritten, the routing, and the router.
\<close>

fun process_batch ::
    "wire_lib \<Rightarrow> ('l flow_env \<times> intermediate_buffer) list \<Rightarrow> 'l router \<Rightarrow>
     panic + intermediate_buffer list \<times> bool list \<times> 'l router" where
  "process_batch W [] r = Inr ([], [], r)"
| "process_batch W ((env, packet) # rest) r =
     rbind (process_packet W env packet r) (\<lambda>(dir, packet, r).
       rbind (process_batch W rest (count_bytes dir (ucast (ib_length packet)) r)) (\<lambda>(packets, routing, r).
         Inr (packet # packets, send_to_adapter dir packet # routing, r)))"

datatype send_call = ToAdapter "intermediate_buffer list" | ToMstcp "intermediate_buffer list"

definition selected :: "bool \<Rightarrow> intermediate_buffer list \<Rightarrow> bool list \<Rightarrow> intermediate_buffer list" where
  "selected b packets routing = map fst (filter (\<lambda>(_, to_adapter). to_adapter = b) (zip packets routing))"

definition send_calls :: "intermediate_buffer list \<Rightarrow> bool list \<Rightarrow> send_call list" where
  "send_calls packets routing =
     (let adapter_count = length (filter (\<lambda>to_adapter. to_adapter) routing) in
      (if adapter_count \<noteq> 0 then [ToAdapter (selected True packets routing)] else []) @
      (if adapter_count \<noteq> length packets then [ToMstcp (selected False packets routing)] else []))"

section \<open>The loop\<close>

record 'l loop_state =
  lp_router :: "'l router"
  lp_counter :: u32
  lp_calls :: "send_call list"

definition handle_batch ::
    "wire_lib \<Rightarrow> instant \<Rightarrow> ('l router \<Rightarrow> udp_flow_key list) \<Rightarrow> ('l flow_env \<times> intermediate_buffer) list \<Rightarrow>
     'l loop_state \<Rightarrow> panic + 'l loop_state" where
  "handle_batch W now order batch st =
     rbind (process_batch W batch (lp_router st)) (\<lambda>(packets, routing, r).
       let st = st\<lparr>lp_router := r, lp_calls := lp_calls st @ send_calls packets routing\<rparr>;
           counter = lp_counter st + 1 in
       if CLEANUP_BATCHES \<le> counter
       then Inr (st\<lparr>lp_counter := 0, lp_router := cleanup_stale_udp_endpoints now (order r) r\<rparr>)
       else Inr (st\<lparr>lp_counter := counter\<rparr>))"

text \<open>A tick: interference, the outcome of the read, and the clock and map order of a cleanup.\<close>

record 'l tick =
  tk_other :: "'l router \<Rightarrow> 'l router"
  tk_read :: "nat + ('l flow_env \<times> intermediate_buffer) list"
  tk_now :: instant
  tk_order :: "'l router \<Rightarrow> udp_flow_key list"

datatype 'l exit =
    LeftLoop "'l loop_state"
  | Panicked panic
  | Reading "'l loop_state"

text \<open>The inner loop leaves on either flag; \<open>Reading\<close> is the loop at the end of the script.\<close>

fun packet_loop :: "wire_lib \<Rightarrow> 'l tick list \<Rightarrow> 'l loop_state \<Rightarrow> 'l exit" where
  "packet_loop W [] st = Reading st"
| "packet_loop W (t # ts) st =
     (let r = tk_other t (lp_router st) in
      if shutdown r then LeftLoop (st\<lparr>lp_router := r\<rparr>)
      else if restart r then LeftLoop (st\<lparr>lp_router := r\<lparr>restart := False\<rparr>\<rparr>)
      else
        let st = st\<lparr>lp_router := r\<rparr> in
        (case tk_read t of
           Inl _ \<Rightarrow> packet_loop W ts st
         | Inr batch \<Rightarrow>
             if batch = [] then packet_loop W ts st
             else (case handle_batch W (tk_now t) (tk_order t) batch st of
                     Inl p \<Rightarrow> Panicked p
                   | Inr st \<Rightarrow> packet_loop W ts st)))"

text \<open>
  A session: the adapter is looked up by the name read at its start, opened, put in tunnel mode,
  served, and put back. A missing adapter is retried after 200 ms; other failures end the task.
\<close>

record 'l session =
  se_other :: "'l router \<Rightarrow> 'l router"
  se_driver :: "nat option"
  se_env :: driver_env
  se_adapter :: "nat option"
  se_mode :: "nat option"
  se_ticks :: "'l tick list"

datatype 'l task_result =
    Finished "'l router"
  | Failed router_error "'l router"
  | TaskPanicked panic
  | Running "'l router"

text \<open>The second component says whether an adapter is left in tunnel mode.\<close>

fun run_packet_loop :: "wire_lib \<Rightarrow> 'l session list \<Rightarrow> 'l router \<Rightarrow> 'l task_result \<times> bool" where
  "run_packet_loop W [] r = (Running r, False)"
| "run_packet_loop W (s # ss) r =
     (let r = se_other s r; name = adapter_name r in
      case driver_call (se_driver s) of
        Inl e \<Rightarrow> (Failed e r, False)
      | Inr _ \<Rightarrow>
          (case find_adapter_handle (se_env s) name of
             Inl e \<Rightarrow> if shutdown r then (Finished r, False) else run_packet_loop W ss r
           | Inr handle \<Rightarrow>
               (case rbind (driver_call (se_adapter s)) (\<lambda>_. driver_call (se_mode s)) of
                  Inl e \<Rightarrow> (Failed e r, False)
                | Inr _ \<Rightarrow>
                    (case packet_loop W (se_ticks s) \<lparr>lp_router = r, lp_counter = 0, lp_calls = []\<rparr> of
                       Reading st \<Rightarrow> (Running (lp_router st), True)
                     | Panicked p \<Rightarrow> (TaskPanicked p, True)
                     | LeftLoop st \<Rightarrow>
                         if shutdown (lp_router st) then (Finished (lp_router st), False)
                         else run_packet_loop W ss (lp_router st)))))"


section \<open>Frames\<close>



lemma decision_udp:
  "\<not> (pi_kind i = TcpV4 \<or> pi_kind i = TcpV6) \<Longrightarrow>
   decision env i r = process_udp_payload env (socket_addr_new (pi_src_ip i) (pi_src_port i))
     (socket_addr_new (pi_dst_ip i) (pi_dst_port i)) (pi_src_ip i) (pi_dst_ip i) (pi_src_port i) (pi_dst_port i)
     (kind_is_v6 (pi_kind i)) r"
  by (simp add: decision_def Let_def)


lemma live_decision:
  assumes "live r"
  shows "live (snd (decision env i r))"
proof (cases "pi_kind i = TcpV4 \<or> pi_kind i = TcpV6")
  case True
  show ?thesis unfolding decision_tcp [OF True] by (rule live.step [OF assms live_step.tcp])
next
  case False
  show ?thesis unfolding decision_udp [OF False] by (rule live.step [OF assms live_step.udp])
qed

lemma apply_rewrite_frame:
  assumes "apply_rewrite W packet i rwo = Inr (dir, packet')"
  shows "ib_length packet' = ib_length packet" and "ib_on_send packet' = ib_on_send packet"
proof -
  have "ib_length packet' = ib_length packet \<and> ib_on_send packet' = ib_on_send packet"
  proof (cases rwo)
    case (Some rw)
    show ?thesis
    proof (cases "frame_of packet")
      case (Inr f)
      with Some assms show ?thesis
        by (cases "apply_kind W (pi_kind i) rw f") (auto simp: apply_rewrite_def split: if_splits)
    qed (use Some assms in \<open>auto simp: apply_rewrite_def split: if_splits\<close>)
  qed (use assms in \<open>simp add: apply_rewrite_def\<close>)
  then show "ib_length packet' = ib_length packet" and "ib_on_send packet' = ib_on_send packet" by auto
qed

lemma process_packet_frame:
  assumes "process_packet W env packet r = Inr (dir, packet', r')"
  shows "ib_length packet' = ib_length packet" and "ib_on_send packet' = ib_on_send packet"
    and "r' = r \<or> (\<exists>i. r' = snd (decision env i r))"
proof -
  from assms obtain parsed where p: "parse_packet_info W packet = Inr parsed"
    by (auto simp: process_packet_decision rbind_Inr_iff)
  have "ib_length packet' = ib_length packet \<and> ib_on_send packet' = ib_on_send packet \<and>
    (r' = r \<or> (\<exists>i. r' = snd (decision env i r)))"
  proof (cases parsed)
    case None
    with p assms show ?thesis by (simp add: process_packet_decision)
  next
    case (Some i)
    obtain rw q where d: "decision env i r = (rw, q)" by force
    with p assms Some have a: "apply_rewrite W packet i rw = Inr (dir, packet')" and "r' = q"
      by (auto simp: process_packet_decision rbind_Inr_iff)
    then have "r' = snd (decision env i r)" using d by simp
    then show ?thesis using apply_rewrite_frame [OF a] by blast
  qed
  then show "ib_length packet' = ib_length packet" and "ib_on_send packet' = ib_on_send packet"
    and "r' = r \<or> (\<exists>i. r' = snd (decision env i r))" by auto
qed

section \<open>A batch is forwarded\<close>














section \<open>The loop keeps the tables\<close>

lemma live_count_bytes: "live r \<Longrightarrow> live (count_bytes d n r)"
proof -
  assume l: "live r"
  have "r\<lparr>bytes_sent := a\<rparr> = r\<lparr>bytes_sent := a, bytes_received := bytes_received r\<rparr>"
    and "r\<lparr>bytes_received := a\<rparr> = r\<lparr>bytes_sent := bytes_sent r, bytes_received := a\<rparr>" for a by simp_all
  then have "live (r\<lparr>bytes_sent := a\<rparr>)" "live (r\<lparr>bytes_received := a\<rparr>)" for a
    using live.step [OF l live_step.counters] by metis+
  with l show ?thesis by (auto simp: count_bytes_def split: option.split proxy_direction.split)
qed

lemma live_process_packet:
  "live r \<Longrightarrow> process_packet W env packet r = Inr (dir, packet', r') \<Longrightarrow> live r'"
  using process_packet_frame(3) [of W env packet r dir packet' r'] live_decision by auto

lemma live_process_batch:
  "live r \<Longrightarrow> process_batch W batch r = Inr (packets, routing, r') \<Longrightarrow> live r'"
proof (induction batch arbitrary: r packets routing)
  case (Cons a rest)
  obtain env p where a: "a = (env, p)" by force
  from Cons.prems a obtain dir p1 r1 ps rt where
    p: "process_packet W env p r = Inr (dir, p1, r1)"
    and b: "process_batch W rest (count_bytes dir (ucast (ib_length p1)) r1) = Inr (ps, rt, r')"
    by (auto simp: rbind_Inr_iff)
  show ?case
    by (rule Cons.IH [OF live_count_bytes [OF live_process_packet [OF Cons.prems(1) p]] b])
qed simp

text \<open>What a tick may do: other tasks make steps of the router, and a map is iterated in one of its orders.\<close>

definition tick_ok :: "'l tick \<Rightarrow> bool" where
  "tick_ok t \<longleftrightarrow> (\<forall>r. live r \<longrightarrow> live (tk_other t r)) \<and>
     (\<forall>r. iteration_order (uf.expire (tk_now t) (by_flow (udp_endpoints r))) (tk_order t r))"

lemma live_handle_batch:
  assumes "live (lp_router st)" and "\<And>r. iteration_order (uf.expire now (by_flow (udp_endpoints r))) (order r)"
    and "handle_batch W now order batch st = Inr st'"
  shows "live (lp_router st')"
proof -
  obtain packets routing r where b: "process_batch W batch (lp_router st) = Inr (packets, routing, r)"
    using assms(3) by (auto simp: handle_batch_def rbind_Inr_iff)
  from live_process_batch [OF assms(1) b] have "live r" .
  then show ?thesis
    using assms(3) b live.step [OF \<open>live r\<close> live_step.cleanup [OF assms(2)]]
    by (auto simp: handle_batch_def Let_def split: if_splits)
qed



fun exit_router :: "'l exit \<Rightarrow> 'l router option" where
  "exit_router (LeftLoop st) = Some (lp_router st)"
| "exit_router (Panicked p) = None"
| "exit_router (Reading st) = Some (lp_router st)"

lemma live_packet_loop:
  "list_all tick_ok ticks \<Longrightarrow> live (lp_router st) \<Longrightarrow> exit_router (packet_loop W ticks st) = Some r \<Longrightarrow> live r"
proof (induction ticks arbitrary: st)
  case (Cons t ts)
  let ?r = "tk_other t (lp_router st)"
  let ?st = "st\<lparr>lp_router := ?r\<rparr>"
  have r: "live ?r" using Cons.prems by (simp add: tick_ok_def)
  show ?case
  proof (cases "shutdown ?r \<or> restart ?r")
    case True
    with Cons.prems(3) r live.step [OF r live_step.restarted] show ?thesis
      by (auto simp: Let_def split: if_splits)
  next
    case False
    show ?thesis
    proof (cases "tk_read t")
      case (Inl e)
      with False Cons.prems r show ?thesis by (intro Cons.IH [of ?st]) (auto simp: Let_def)
    next
      case (Inr batch)
      show ?thesis
      proof (cases "batch = []")
        case True
        with False Inr Cons.prems r show ?thesis by (intro Cons.IH [of ?st]) (auto simp: Let_def)
      next
        case ne: False
        obtain st' where h: "handle_batch W (tk_now t) (tk_order t) batch ?st = Inr st'"
          using False Inr ne Cons.prems(3)
          by (cases "handle_batch W (tk_now t) (tk_order t) batch ?st") (auto simp: Let_def)
        have "live (lp_router st')"
          by (rule live_handle_batch [OF _ _ h]) (use r Cons.prems(1) in \<open>simp_all add: tick_ok_def\<close>)
        with False Inr ne Cons.prems h show ?thesis by (intro Cons.IH [of st']) (auto simp: Let_def)
      qed
    qed
  qed
qed simp

fun task_router :: "'l task_result \<Rightarrow> 'l router option" where
  "task_router (Finished r) = Some r"
| "task_router (Failed e r) = Some r"
| "task_router (TaskPanicked p) = None"
| "task_router (Running r) = Some r"

definition session_ok :: "'l session \<Rightarrow> bool" where
  "session_ok s \<longleftrightarrow> (\<forall>r. live r \<longrightarrow> live (se_other s r)) \<and> list_all tick_ok (se_ticks s)"

lemma live_run_packet_loop:
  "list_all session_ok ss \<Longrightarrow> live r \<Longrightarrow> task_router (fst (run_packet_loop W ss r)) = Some r' \<Longrightarrow> live r'"
proof (induction ss arbitrary: r)
  case (Cons s ss)
  let ?r = "se_other s r"
  let ?l = "packet_loop W (se_ticks s) \<lparr>lp_router = ?r, lp_counter = 0, lp_calls = []\<rparr>"
  have ss: "list_all session_ok ss" using Cons.prems(1) by simp
  have r: "live ?r" and ticks: "list_all tick_ok (se_ticks s)"
    using Cons.prems(1,2) by (simp_all add: session_ok_def)
  have loop: "exit_router ?l = Some q \<Longrightarrow> live q" for q
    by (rule live_packet_loop [OF ticks]) (simp_all add: r)
  show ?case
    using Cons.prems(3) r Cons.IH [OF ss r] loop Cons.IH [OF ss loop]
    by (auto simp: Let_def split: sum.splits exit.splits if_splits)
qed simp

text \<open>C18: Whatever the driver delivers and the other tasks do, the packet task keeps the router in a
  reachable state: when it ends, fails or is still running, the connection tables satisfy their
  invariant.\<close>
theorem packet_task_keeps_tables:
  assumes "list_all session_ok ss" and "live r"
    and "task_router (fst (run_packet_loop W ss r)) = Some r'"
  shows "live r' \<and> (hm_get (tcp_connections r') (d, s, p) = Some e \<longrightarrow> tm_dst_ip e = d \<and> tm_proxy_port e \<noteq> 0) \<and>
    (hm_get (by_peer (udp_endpoints r')) ik = Some (Some k) \<longleftrightarrow>
      {x \<in> flows (udp_endpoints r'). index_key x = ik} = {k})"
  using live_run_packet_loop [OF assms] live_tables_ok [OF live_run_packet_loop [OF assms]]
    index_ok_unique [of "udp_endpoints r'" ik k]
  by (auto simp: tables_ok_facts)

definition demo_tick :: "unit tick" where
  "demo_tick = \<lparr>tk_other = (\<lambda>r. r), tk_read = Inr [(demo_flow_env 0, demo_syn_packet)], tk_now = 0,
     tk_order = (\<lambda>r. remdups (hm_keys (uf.expire 0 (by_flow (udp_endpoints r)))))\<rparr>"

definition demo_session :: "unit session" where
  "demo_session = \<lparr>se_other = (\<lambda>r. r), se_driver = None, se_env = demo_driver, se_adapter = None,
     se_mode = None, se_ticks = [demo_tick]\<rparr>"

lemma demo_session_ok: "session_ok demo_session"
  by (simp add: session_ok_def demo_session_def tick_ok_def demo_tick_def iteration_order_def)

lemma demo_decision_running:
  assumes "proxies r = [p]" and "tcp_port_v4 p = 50000" and "name_to_proxy r = hm_insert ''fox'' 0 hm_empty"
    and "tcp_connections r = hm_empty"
  shows "decision (demo_flow_env 0) (demo_info 4000 443 True False) (r :: unit router) = (Some (RewriteToProxy 50000),
    r\<lparr>tcp_connections := hm_or_insert (demo_server_ip, demo_client_ip, 4000)
      \<lparr>tm_dst_ip = demo_server_ip, tm_dst_port = 443, tm_proxy_port = 50000\<rparr> hm_empty\<rparr>)"
  using assms
  by (simp add: decision_tcp unit_lookup demo_running_ports kind_is_v6_def
      tcp_syn_redirected [where path = "''C:/fox.exe''" and l = "()" and port = 50000])

theorem packet_task_keeps_tables_witness:
  "\<exists>(r :: unit router) r' e. live r \<and> run_packet_loop rfc_wire [demo_session] r = (Running r', True) \<and>
    hm_get (tcp_connections r') (demo_server_ip, demo_client_ip, 4000) = Some e \<and> tm_dst_ip e = demo_server_ip"
proof -
  obtain r p where r: "live (r :: unit router)" "proxies r = [p]" "tcp_port_v4 p = 50000"
    "name_to_proxy r = hm_insert ''fox'' 0 hm_empty" "tcp_connections r = hm_empty" "adapter_name r = ''eth1''"
    "\<not> shutdown r" "\<not> restart r"
    by (rule demo_running)
  let ?e = "\<lparr>tm_dst_ip = demo_server_ip, tm_dst_port = 443, tm_proxy_port = 50000\<rparr>"
  note d = demo_decision_running [OF r(2-5)]
  from process_packet_carried [OF rfc_wire_laws demo_packet_carries(1) tcp_unicast_source d]
  obtain packet1 where p: "process_packet rfc_wire (demo_flow_env 0) demo_syn_packet r = Inr (Some ToProxy, packet1,
      r\<lparr>tcp_connections := hm_or_insert (demo_server_ip, demo_client_ip, 4000) ?e hm_empty\<rparr>)"
    by auto
  have h: "find_adapter_handle demo_driver ''eth1'' = Inr 8"
    by (simp add: find_adapter_handle_def demo_driver_def)
  have early: "\<not> (20 :: u32) \<le> 1" by (simp add: word_le_nat_alt)
  obtain r' where run: "run_packet_loop rfc_wire [demo_session] r = (Running r', True)"
    and get: "hm_get (tcp_connections r') (demo_server_ip, demo_client_ip, 4000) = Some ?e"
    using p h r early
    by (simp add: demo_session_def demo_tick_def handle_batch_def CLEANUP_BATCHES_def count_bytes_def Let_def hm_or_insert_get)
  have "list_all session_ok [demo_session]" using demo_session_ok by simp
  from packet_task_keeps_tables [OF this r(1), where W = rfc_wire and r' = r' and e = ?e] run get r(1)
  show ?thesis by auto
qed




end
