(* ===== verification/App.thy ===== *)
theory App
  imports Tui PacketLoop
begin

text \<open>
  The program itself: the configuration records of \<open>src/src/config.rs\<close> and \<open>run\<close> of
  \<open>src/src/app.rs\<close>. Reading the file, the TOML parser, the driver, the sockets, the terminal and
  the order of events are the fields of \<open>app_env\<close>. What the tasks do to the router between start
  and close is \<open>ae_work\<close>; the theorems constrain it to the steps of theory \<open>FlowSpec\<close>. \<open>ae_driver\<close> gives
  the driver's answers while the proxy of each position is added, \<open>ae_start_driver\<close> and
  \<open>ae_close_driver\<close> those of the later calls.
\<close>

section \<open>Configuration\<close>

record proxy_settings =
  app_names :: "string list"
  endpoint :: string

record service_settings =
  ss_proxies :: "proxy_settings list"

section \<open>The environment of the program\<close>

record 'l app_env =
  ae_log :: log_env
  ae_open_driver :: "nat + unit"
  ae_driver_version :: "nat + unit"
  ae_net :: net_env
  ae_new_driver :: driver_env
  ae_driver :: "nat \<Rightarrow> driver_env"
  ae_start_driver :: driver_env
  ae_sockets :: "nat \<Rightarrow> socket_os"
  ae_now :: instant
  ae_lookup :: 'l
  ae_config :: "nat + string"
  ae_parse_toml :: "string \<Rightarrow> string + service_settings"
  ae_terminal :: terminal_env
  ae_rounds :: "tui_round list"
  ae_ctrl_c :: bool
  ae_work :: "'l router \<Rightarrow> 'l router"
  ae_close_driver :: driver_env

text \<open>
  What the run leaves: the statics of the logger, the router once it exists, the terminal, the
  shutdown flag, and whether the log was flushed.
\<close>

record 'l app_state =
  as_log :: log_statics
  as_router :: "'l router option"
  as_terminal :: terminal
  as_shutdown :: bool
  as_flushed :: bool

section \<open>Start-up\<close>

fun associate_all :: "nat \<Rightarrow> string list \<Rightarrow> 'l router \<Rightarrow> unit router_result \<times> 'l router" where
  "associate_all proxy_id [] r = (Inr (), r)"
| "associate_all proxy_id (app # apps) r =
     (case associate_process_name_to_proxy app proxy_id r of
        (Inl e, r) \<Rightarrow> (Inl e, r)
      | (Inr _, r) \<Rightarrow> associate_all proxy_id apps r)"

fun configure :: "net_env \<Rightarrow> (nat \<Rightarrow> driver_env) \<Rightarrow> proxy_settings list \<Rightarrow> 'l router \<Rightarrow> unit router_result \<times> 'l router" where
  "configure net env [] r = (Inr (), r)"
| "configure net env (p # ps) r =
     (case add_socks5_proxy net (env (length (proxies r))) (endpoint p) r of
        (Inl e, r) \<Rightarrow> (Inl e, r)
      | (Inr proxy_id, r) \<Rightarrow>
          (case associate_all proxy_id (app_names p) r of
             (Inl e, r) \<Rightarrow> (Inl e, r)
           | (Inr _, r) \<Rightarrow> configure net env ps r))"

definition app_start :: "('l, 'm) app_env_scheme \<Rightarrow> 'l router \<Rightarrow> unit router_result \<times> 'l router" where
  "app_start env r =
     (case ae_config env of
        Inl e \<Rightarrow> (Inl (Context ''failed to open config.toml'' (FromIo (OsError e))), r)
      | Inr config_content \<Rightarrow>
          (case ae_parse_toml env config_content of
             Inl e \<Rightarrow> (Inl (Context ''failed to parse config.toml'' (Msg e)), r)
           | Inr settings \<Rightarrow>
               (case configure (ae_net env) (ae_driver env) (ss_proxies settings) r of
                  (Inl e, r) \<Rightarrow> (Inl e, r)
                | (Inr _, r) \<Rightarrow> router_start (ae_start_driver env) (ae_sockets env) r)))"

section \<open>The run\<close>

text \<open>
  The screen's thread runs its loop over \<open>ae_rounds\<close>. When the loop has not ended by then, it ends
  in the next round, in which it sees the shutdown flag that \<open>run\<close> sets before it joins the thread.
\<close>

definition final_round :: tui_round where
  "final_round = \<lparr>tr_shutdown = True, tr_draw = Inr (), tr_poll = Inr False, tr_read = Inr OtherEvent\<rparr>"

definition join_screen :: "('l, 'm) app_env_scheme \<Rightarrow> terminal \<Rightarrow> terminal" where
  "join_screen env t = (case tui_run (ae_terminal env) (ae_rounds env @ [final_round]) False t of
     Some (_, _, t) \<Rightarrow> t | None \<Rightarrow> t)"

text \<open>The \<open>select!\<close> waits for Ctrl+C or for the end of the screen's thread.\<close>

definition app_ended :: "('l, 'm) app_env_scheme \<Rightarrow> terminal \<Rightarrow> bool" where
  "app_ended env t \<longleftrightarrow> ae_ctrl_c env \<or> tui_run (ae_terminal env) (ae_rounds env) False t \<noteq> None"

text \<open>\<open>None\<close>: the program is still running at the end of the script.\<close>

definition app_run ::
    "('l, 'm) app_env_scheme \<Rightarrow> log_statics \<Rightarrow> terminal \<Rightarrow> (unit router_result \<times> 'l app_state) option" where
  "app_run env statics t =
     (let (logged, statics) = logging_init (ae_log env) [] statics;
          s = \<lparr>as_log = statics, as_router = None, as_terminal = t, as_shutdown = False, as_flushed = False\<rparr> in
      case logged of
        Inl e \<Rightarrow> Some (Inl (Msg (''failed to initialize logger: '' @ e)), s)
      | Inr _ \<Rightarrow>
     (case with_context ''windows packet filter driver is not installed''
             (rbind (case ae_open_driver env of Inl e \<Rightarrow> Inl (DriverError e) | Inr _ \<Rightarrow> Inr ()) (\<lambda>_.
                case ae_driver_version env of Inl e \<Rightarrow> Inl (DriverError e) | Inr _ \<Rightarrow> Inr ())) of
        Inl e \<Rightarrow> Some (Inl e, s)
      | Inr _ \<Rightarrow>
     (case router_new (ae_new_driver env) (ae_lookup env) (ae_now env) of
        Inl e \<Rightarrow> Some (Inl e, s)
      | Inr r \<Rightarrow>
     (case app_start env r of
        (Inl e, r) \<Rightarrow>
          Some (Inl e, s\<lparr>as_router := Some r, as_shutdown := True, as_terminal := join_screen env t\<rparr>)
      | (Inr _, r) \<Rightarrow>
          if \<not> app_ended env t then None
          else
          let r = ae_work env r;
              s = s\<lparr>as_shutdown := True, as_terminal := join_screen env t, as_flushed := True\<rparr>;
              (closed, r) = router_close (ae_close_driver env) r
          in Some (closed, s\<lparr>as_router := Some r\<rparr>)))))"

section \<open>What the configuration becomes\<close>

text \<open>Which of the listed proxies a process name belongs to: the last one that names it.\<close>

fun listed_proxy :: "nat \<Rightarrow> proxy_settings list \<Rightarrow> string \<Rightarrow> nat option" where
  "listed_proxy i [] name = None"
| "listed_proxy i (p # ps) name =
     (case listed_proxy (i + 1) ps name of
        Some j \<Rightarrow> Some j
      | None \<Rightarrow> if name \<in> set (app_names p) then Some i else None)"

lemma associate_all_Inr:
  assumes "associate_all i apps r = (Inr u, r')" and "hm_wf (name_to_proxy r)"
  shows "r' = r\<lparr>name_to_proxy := name_to_proxy r'\<rparr> \<and> hm_wf (name_to_proxy r') \<and>
    (\<forall>n. hm_get (name_to_proxy r') n = (if n \<in> set apps then Some i else hm_get (name_to_proxy r) n))"
  using assms
proof (induction apps arbitrary: r)
  case (Cons app apps)
  let ?r = "r\<lparr>name_to_proxy := hm_insert app i (name_to_proxy r)\<rparr>"
  from Cons.prems(1) have "associate_all i apps ?r = (Inr u, r')"
    by (auto simp: associate_process_name_to_proxy_def split: if_splits)
  from Cons.IH [OF this] Cons.prems(2) show ?case by (auto simp: hm.wf_ins hm.get_ins)
qed simp

lemma add_socks5_proxy_Inr:
  assumes "add_socks5_proxy net env ep r = (Inr n, r')"
  obtains d where "dialer_new net ep = Inr d" "n = length (proxies r)"
    "proxies r' = proxies r @ [transparent_proxy_new 0 d]" "name_to_proxy r' = name_to_proxy r"
    "static_filters r' = static_filters r @ proxy_filters (proxy_addr d)"
proof -
  from assms obtain d where d: "dialer_new net ep = Inr d"
    by (auto simp: add_socks5_proxy_def split: sum.splits)
  let ?r = "r\<lparr>static_filters := static_filters r @ proxy_filters (proxy_addr d),
              proxies := proxies r @ [transparent_proxy_new 0 d]\<rparr>"
  from assms d have a: "apply_static_filters env ?r = (Inr (), r')" and n: "n = length (proxies r') - 1"
    by (auto simp: add_socks5_proxy_def Let_def split: prod.splits sum.splits)
  note eq = apply_frame [OF a]
  have "proxies r' = proxies r @ [transparent_proxy_new 0 d]" "name_to_proxy r' = name_to_proxy r"
    "static_filters r' = static_filters r @ proxy_filters (proxy_addr d)"
    by (subst eq, simp)+
  with d n show thesis by (intro that) auto
qed

lemma configure_Inr:
  assumes "configure net env ps r = (Inr u, r')" and "hm_wf (name_to_proxy r)"
  shows "(\<exists>ds. length ds = length ps \<and> proxies r' = proxies r @ map (transparent_proxy_new 0) ds \<and>
      (\<forall>i < length ps. dialer_new net (endpoint (ps ! i)) = Inr (ds ! i))) \<and>
    (\<forall>n. hm_get (name_to_proxy r') n =
       (case listed_proxy (length (proxies r)) ps n of Some i \<Rightarrow> Some i | None \<Rightarrow> hm_get (name_to_proxy r) n))"
  using assms
proof (induction ps arbitrary: r)
  case (Cons p ps)
  from Cons.prems(1) obtain i q t where add: "add_socks5_proxy net (env (length (proxies r))) (endpoint p) r = (Inr i, q)"
    and assoc: "associate_all i (app_names p) q = (Inr (), t)" and conf: "configure net env ps t = (Inr u, r')"
    by (auto split: prod.splits sum.splits)
  from add obtain d where d: "dialer_new net (endpoint p) = Inr d" "i = length (proxies r)"
    "proxies q = proxies r @ [transparent_proxy_new 0 d]" "name_to_proxy q = name_to_proxy r"
    by (rule add_socks5_proxy_Inr)
  have wf: "hm_wf (name_to_proxy q)" using Cons.prems(2) d(4) by simp
  note t = associate_all_Inr [OF assoc wf]
  have px: "proxies t = proxies r @ [transparent_proxy_new 0 d]" by (subst t [THEN conjunct1]) (simp add: d)
  from Cons.IH [OF conf] t obtain ds where ds: "length ds = length ps"
      "proxies r' = proxies t @ map (transparent_proxy_new 0) ds"
      "\<forall>j < length ps. dialer_new net (endpoint (ps ! j)) = Inr (ds ! j)"
    and names: "\<forall>n. hm_get (name_to_proxy r') n =
       (case listed_proxy (length (proxies t)) ps n of Some j \<Rightarrow> Some j | None \<Rightarrow> hm_get (name_to_proxy t) n)"
    by blast
  have "\<exists>ds. length ds = length (p # ps) \<and> proxies r' = proxies r @ map (transparent_proxy_new 0) ds \<and>
      (\<forall>j < length (p # ps). dialer_new net (endpoint ((p # ps) ! j)) = Inr (ds ! j))"
    using ds d px by (intro exI [of _ "d # ds"]) (auto simp: less_Suc_eq_0_disj)
  moreover have "hm_get (name_to_proxy r') n = (case listed_proxy (length (proxies r)) (p # ps) n of
      Some j \<Rightarrow> Some j | None \<Rightarrow> hm_get (name_to_proxy r) n)" for n
    using names t px d by (auto split: option.split)
  ultimately show ?case by blast
qed (auto intro: exI [of _ "[]"])

lemma listed_proxy_bounds: "listed_proxy k ps n = Some i \<Longrightarrow> k \<le> i \<and> i < k + length ps"
  by (induction ps arbitrary: k) (force split: option.splits if_splits)+

section \<open>Started proxies\<close>

lemma start_proxies_Inr:
  "start_proxies os k ps = (Inr u, ps') \<Longrightarrow>
   length ps' = length ps \<and> (\<forall>i < length ps. proxy_start (os (k + i)) (ps ! i) = (Inr (), ps' ! i))"
proof (induction ps arbitrary: k ps')
  case (Cons p ps)
  then obtain p' qs where p: "proxy_start (os k) p = (Inr (), p')" "ps' = p' # qs"
    and qs: "start_proxies os (k + 1) ps = (Inr u, qs)"
    by (auto split: prod.splits sum.splits)
  from Cons.IH [OF qs] p show ?case by (auto simp: nth_Cons split: nat.split)
qed simp

lemma proxy_start_Inr:
  assumes "proxy_start os p = (Inr u, p')"
  shows "tp_socks5 p' = tp_socks5 p \<and>
    (\<exists>a. os_local_addr os Stream = Inr a \<and> tcp_port_v4 p' = sa_port a \<and> tcp_port_v6 p' = sa_port a) \<and>
    (\<exists>a. os_local_addr os Dgram = Inr a \<and> udp_port_v4 p' = sa_port a \<and> udp_port_v6 p' = sa_port a)"
  using assms by (auto simp: proxy_start_def Let_def rbind_Inr_iff split: sum.splits)

lemma router_start_Inr:
  assumes "router_start env os r = (Inr (), r')"
  shows "start_proxies os 0 (proxies r) = (Inr (), proxies r') \<and> name_to_proxy r' = name_to_proxy r"
proof -
  obtain t ps where a: "apply_static_filters env (r\<lparr>is_active := True\<rparr>) = (Inr (), t)"
      and ps: "start_proxies os 0 (proxies t) = (Inr (), ps)"
      and r': "r' = register_interface_change_notifications env (t\<lparr>proxies := ps, packet_task := True\<rparr>)"
    using assms by (auto simp: router_start_def Let_def split: if_splits prod.splits sum.splits)
  have "proxies t = proxies r" "name_to_proxy t = name_to_proxy r" by (subst apply_frame [OF a], simp)+
  with ps show ?thesis by (simp add: r' register_interface_change_notifications_def Let_def split: sum.split)
qed

lemma app_start_Inr:
  assumes "app_start env r0 = (Inr (), r)"
  obtains config settings r1 where "ae_config env = Inr config" "ae_parse_toml env config = Inr settings"
    "configure (ae_net env) (ae_driver env) (ss_proxies settings) r0 = (Inr (), r1)"
    "router_start (ae_start_driver env) (ae_sockets env) r1 = (Inr (), r)"
  using assms by (auto simp: app_start_def split: sum.splits prod.splits)

text \<open>The state of the router after a successful start, in terms of the configuration.\<close>

lemma app_start_configured:
  assumes "router_new drv l now = Inr r0" and "app_start env r0 = (Inr (), r)"
    and "ae_config env = Inr config" and "ae_parse_toml env config = Inr settings"
  shows "length (proxies r) = length (ss_proxies settings) \<and>
    (\<forall>n. hm_get (name_to_proxy r) n = listed_proxy 0 (ss_proxies settings) n) \<and>
    (\<forall>i < length (ss_proxies settings).
       dialer_new (ae_net env) (endpoint (ss_proxies settings ! i)) = Inr (tp_socks5 (proxies r ! i)) \<and>
       (\<exists>a. os_local_addr (ae_sockets env i) Stream = Inr a \<and>
          tcp_port_v4 (proxies r ! i) = sa_port a \<and> tcp_port_v6 (proxies r ! i) = sa_port a) \<and>
       (\<exists>a. os_local_addr (ae_sockets env i) Dgram = Inr a \<and>
          udp_port_v4 (proxies r ! i) = sa_port a \<and> udp_port_v6 (proxies r ! i) = sa_port a))"
proof -
  let ?ps = "ss_proxies settings"
  from assms(2-4) obtain r1 where conf: "configure (ae_net env) (ae_driver env) ?ps r0 = (Inr (), r1)"
    and start: "router_start (ae_start_driver env) (ae_sockets env) r1 = (Inr (), r)"
    by (auto elim: app_start_Inr)
  have r0: "proxies r0 = []" "name_to_proxy r0 = hm_empty"
    using assms(1) by (auto simp: router_new_def rbind_Inr_iff)
  then have "hm_wf (name_to_proxy r0)" by (simp add: hm.wf_empty)
  from configure_Inr [OF conf this] r0 obtain ds where ds: "length ds = length ?ps"
      "proxies r1 = map (transparent_proxy_new 0) ds"
      "\<forall>i < length ?ps. dialer_new (ae_net env) (endpoint (?ps ! i)) = Inr (ds ! i)"
    and names: "\<forall>n. hm_get (name_to_proxy r1) n = listed_proxy 0 ?ps n"
    by (auto simp: hm.get_empty split: option.splits)
  note st = router_start_Inr [OF start]
  from start_proxies_Inr [OF st [THEN conjunct1]] ds
  have len: "length (proxies r) = length ?ps"
    and each: "\<And>i. i < length ?ps \<Longrightarrow>
      proxy_start (ae_sockets env i) (transparent_proxy_new 0 (ds ! i)) = (Inr (), proxies r ! i)"
    by auto
  show ?thesis
  proof (intro conjI allI impI)
    fix i assume i: "i < length ?ps"
    note p = proxy_start_Inr [OF each [OF i]]
    show "dialer_new (ae_net env) (endpoint (?ps ! i)) = Inr (tp_socks5 (proxies r ! i))"
      using p ds(3) i by (simp add: transparent_proxy_new_def)
    show "\<exists>a. os_local_addr (ae_sockets env i) Stream = Inr a \<and>
        tcp_port_v4 (proxies r ! i) = sa_port a \<and> tcp_port_v6 (proxies r ! i) = sa_port a"
      using p by blast
    show "\<exists>a. os_local_addr (ae_sockets env i) Dgram = Inr a \<and>
        udp_port_v4 (proxies r ! i) = sa_port a \<and> udp_port_v6 (proxies r ! i) = sa_port a"
      using p by blast
  qed (use len names st in auto)
qed

text \<open>The names of the configuration that occur in a process path, and the proxies they belong to.\<close>

definition proxies_of_path :: "proxy_settings list \<Rightarrow> string \<Rightarrow> nat set" where
  "proxies_of_path ps path = {i. \<exists>n. str_contains path n \<and> listed_proxy 0 ps n = Some i}"

lemma configured_choice:
  assumes "router_new drv l now = Inr r0" and "app_start env r0 = (Inr (), r)"
    and "ae_config env = Inr config" and "ae_parse_toml env config = Inr settings"
    and "iteration_order (name_to_proxy r) order" and "proxies_of_path (ss_proxies settings) path = {i}"
  shows "i < length (ss_proxies settings) \<and>
    first_match order (name_to_proxy r) (proxies r) path = Some (proxies r ! i)"
proof -
  let ?ps = "ss_proxies settings"
  note conf = app_start_configured [OF assms(1-4)]
  have applies: "name_applies r path n p \<longleftrightarrow>
      (\<exists>i. str_contains path n \<and> listed_proxy 0 ?ps n = Some i \<and> proxies r ! i = p)" for n p
    using conf listed_proxy_bounds [of 0 ?ps n] by (auto simp: name_applies_def)
  from assms(6) obtain n where n: "str_contains path n" "listed_proxy 0 ?ps n = Some i"
    by (auto simp: proxies_of_path_def)
  have "p' = proxies r ! i" if "name_applies r path n' p'" for n' p'
    using that assms(6) by (force simp: applies proxies_of_path_def)
  with n have "first_match order (name_to_proxy r) (proxies r) path = Some (proxies r ! i)"
    by (intro first_match_unique [OF assms(5), of path n]) (auto simp: applies)
  then show ?thesis using listed_proxy_bounds [of 0 ?ps n i] n by simp
qed

lemma configured_no_choice:
  assumes "router_new drv l now = Inr r0" and "app_start env r0 = (Inr (), r)"
    and "ae_config env = Inr config" and "ae_parse_toml env config = Inr settings"
    and "proxies_of_path (ss_proxies settings) path = {}"
  shows "first_match order (name_to_proxy r) (proxies r) path = None"
  using app_start_configured [OF assms(1-4)] assms(5)
  by (intro first_match_none_applies) (auto simp: name_applies_def proxies_of_path_def)

text \<open>C5: After a successful start-up, a process whose path contains names of exactly one listed proxy
  (a name listed several times belongs to the last listing) is sent to the port the listener of that
  proxy got, and that proxy dials the server of its own endpoint; a process whose path contains no
  listed name gets no proxy. This holds for every iteration order of the map of names.\<close>
theorem configured_process_proxy:
  assumes "router_new drv l now = Inr r0" and "app_start env r0 = (Inr (), r)"
    and "ae_config env = Inr config" and "ae_parse_toml env config = Inr settings"
    and "iteration_order (name_to_proxy r) order"
  shows "(proxies_of_path (ss_proxies settings) path = {i} \<longrightarrow>
      i < length (ss_proxies settings) \<and>
      dialer_new (ae_net env) (endpoint (ss_proxies settings ! i)) = Inr (tp_socks5 (proxies r ! i)) \<and>
      (\<exists>a. os_local_addr (ae_sockets env i) Stream = Inr a \<and> get_proxy_port_tcp order r path v6 = sa_port a) \<and>
      (\<exists>a. os_local_addr (ae_sockets env i) Dgram = Inr a \<and> get_proxy_port_udp order r path v6 = sa_port a)) \<and>
    (proxies_of_path (ss_proxies settings) path = {} \<longrightarrow>
      get_proxy_port_tcp order r path v6 = 0 \<and> get_proxy_port_udp order r path v6 = 0)"
proof (intro conjI impI)
  note conf = app_start_configured [OF assms(1-4)]
  assume one: "proxies_of_path (ss_proxies settings) path = {i}"
  from configured_choice [OF assms one] show i: "i < length (ss_proxies settings)" by blast
  from configured_choice [OF assms one]
  have m: "first_match order (name_to_proxy r) (proxies r) path = Some (proxies r ! i)" by blast
  show "dialer_new (ae_net env) (endpoint (ss_proxies settings ! i)) = Inr (tp_socks5 (proxies r ! i))"
    using conf i by blast
  show "\<exists>a. os_local_addr (ae_sockets env i) Stream = Inr a \<and> get_proxy_port_tcp order r path v6 = sa_port a"
    using conf i m by (auto simp: get_proxy_port_tcp_def)
  show "\<exists>a. os_local_addr (ae_sockets env i) Dgram = Inr a \<and> get_proxy_port_udp order r path v6 = sa_port a"
    using conf i m by (auto simp: get_proxy_port_udp_def)
next
  assume "proxies_of_path (ss_proxies settings) path = {}"
  from configured_no_choice [OF assms(1-4) this]
  show "get_proxy_port_tcp order r path v6 = 0" "get_proxy_port_udp order r path v6 = 0"
    by (simp_all add: get_proxy_port_tcp_def get_proxy_port_udp_def)
qed

section \<open>The end of the program\<close>




text \<open>Start-up is a sequence of steps of the router.\<close>

lemma associate_all_steps: "router_step\<^sup>*\<^sup>* r (snd (associate_all i apps r))"
proof (induction apps arbitrary: r)
  case (Cons app apps)
  obtain res q where a: "associate_process_name_to_proxy app i r = (res, q)" by force
  then have "router_step r q" using router_step.assoc [of r app i] by simp
  then have "router_step\<^sup>*\<^sup>* r q" by simp
  with Cons.IH [of q] a show ?case by (cases res) auto
qed simp

lemma configure_steps: "router_step\<^sup>*\<^sup>* r (snd (configure net env ps r))"
proof (induction ps arbitrary: r)
  case (Cons p ps)
  obtain res q where a: "add_socks5_proxy net (env (length (proxies r))) (endpoint p) r = (res, q)" by force
  then have "router_step r q" using router_step.add [of r net "env (length (proxies r))" "endpoint p"] by simp
  then have q: "router_step\<^sup>*\<^sup>* r q" by simp
  show ?case
  proof (cases res)
    case (Inr i)
    obtain res2 t where b: "associate_all i (app_names p) q = (res2, t)" by force
    with associate_all_steps [of q i "app_names p"] q have "router_step\<^sup>*\<^sup>* r t" by simp
    with Cons.IH [of t] a b Inr show ?thesis by (cases res2) auto
  qed (use a q in simp)
qed simp

lemma app_start_steps: "router_step\<^sup>*\<^sup>* r0 (snd (app_start env r0))"
proof (cases "\<exists>config settings. ae_config env = Inr config \<and> ae_parse_toml env config = Inr settings")
  case True
  then obtain config settings where c: "ae_config env = Inr config" "ae_parse_toml env config = Inr settings" by blast
  obtain res r where conf: "configure (ae_net env) (ae_driver env) (ss_proxies settings) r0 = (res, r)" by force
  have r: "router_step\<^sup>*\<^sup>* r0 r"
    using configure_steps [of r0 "ae_net env" "ae_driver env" "ss_proxies settings"] conf by simp
  show ?thesis
  proof (cases res)
    case (Inr u)
    have "router_step r (snd (router_start (ae_start_driver env) (ae_sockets env) r))" by (rule router_step.start)
    with r c conf Inr show ?thesis by (simp add: app_start_def)
  qed (use c conf r in \<open>simp add: app_start_def\<close>)
qed (auto simp: app_start_def split: sum.split)

lemma router_inv_app_start:
  assumes "router_inv r0"
  shows "router_inv (snd (app_start env r0))"
  using app_start_steps [of r0 env] assms by (induction rule: rtranclp_induct) (auto intro: router_step_inv)

lemma same_tables_app_start:
  "tcp_connections (snd (app_start env r0)) = tcp_connections r0"
  "udp_endpoints (snd (app_start env r0)) = udp_endpoints r0"
proof -
  have "tcp_connections r = tcp_connections r0 \<and> udp_endpoints r = udp_endpoints r0" if "router_step\<^sup>*\<^sup>* r0 r" for r
    using that by (induction rule: rtranclp_induct) (auto dest: same_tables_step simp: same_tables_def)
  from this [OF app_start_steps] show "tcp_connections (snd (app_start env r0)) = tcp_connections r0"
    and "udp_endpoints (snd (app_start env r0)) = udp_endpoints r0" by blast+
qed





section \<open>A concrete run\<close>

definition demo_settings :: service_settings where
  "demo_settings = \<lparr>ss_proxies = [\<lparr>app_names = [''fox''], endpoint = demo_endpoint\<rparr>]\<rparr>"

definition demo_terminal :: terminal_env where
  "demo_terminal = \<lparr>te_enable_raw = Inr (), te_enter = Inr (), te_terminal = Inr (), te_clear = Inr (),
     te_leave = Inr (), te_disable_raw = Inr (), te_show_cursor = Inr ()\<rparr>"

definition demo_app :: "unit app_env" where
  "demo_app = \<lparr>ae_log = \<lparr>le_current_exe = None, le_file_name = (\<lambda>_. None), le_parent = (\<lambda>_. None),
       le_push = (\<lambda>dir name. dir @ name), le_open_append = (\<lambda>_. None)\<rparr>,
     ae_open_driver = Inr (), ae_driver_version = Inr (), ae_net = demo_env,
     ae_new_driver = demo_driver, ae_driver = (\<lambda>_. demo_driver), ae_start_driver = demo_driver,
     ae_sockets = (\<lambda>_. demo_os), ae_now = 0, ae_lookup = (),
     ae_config = Inr ''config'', ae_parse_toml = (\<lambda>_. Inr demo_settings), ae_terminal = demo_terminal,
     ae_rounds = [], ae_ctrl_c = True, ae_work = (\<lambda>r. r), ae_close_driver = demo_driver\<rparr>"

lemma demo_app_sel [simp]:
  "ae_net demo_app = demo_env" "ae_new_driver demo_app = demo_driver" "ae_driver demo_app i = demo_driver"
  "ae_start_driver demo_app = demo_driver" "ae_sockets demo_app i = demo_os" "ae_config demo_app = Inr ''config''"
  "ae_parse_toml demo_app config = Inr demo_settings" "ae_terminal demo_app = demo_terminal" "ae_rounds demo_app = []"
  "ae_ctrl_c demo_app" "ae_work demo_app r = r" "ae_close_driver demo_app = demo_driver"
  "ae_lookup demo_app = ()" "ae_now demo_app = 0" "ae_open_driver demo_app = Inr ()" "ae_driver_version demo_app = Inr ()"
  by (simp_all add: demo_app_def)

definition demo_named :: "unit router" where
  "demo_named = demo_configured\<lparr>name_to_proxy := hm_insert ''fox'' 0 (name_to_proxy demo_configured)\<rparr>"

lemma demo_configured_facts:
  "length (proxies demo_configured) = 1" "proxies demo_configured \<noteq> []"
  "driver_table demo_configured = Some (static_filters demo_configured)"
  "length (static_filters demo_configured) = 5"
  by (simp_all add: demo_configured_def add_socks5_proxy_def dialer_new_demo Let_def apply_static_filters_def
      MAX_STATIC_FILTERS_def demo_driver_def demo_router_def)

lemma demo_configure:
  "configure demo_env (\<lambda>_. demo_driver) (ss_proxies demo_settings) demo_router = (Inr (), demo_named)"
  using demo_configured_facts
  by (simp add: demo_settings_def demo_add associate_process_name_to_proxy_def demo_named_def)

lemma demo_app_start: "\<exists>r. app_start demo_app demo_router = (Inr (), r)"
proof -
  have "\<exists>r. router_start demo_driver (\<lambda>_. demo_os) demo_named = (Inr (), r)"
    by (simp add: demo_named_def demo_configured_def add_socks5_proxy_def dialer_new_demo Let_def apply_static_filters_def
        MAX_STATIC_FILTERS_def demo_driver_def demo_router_def router_start_def transparent_proxy_new_def
        proxy_start_def demo_os_def bind_dual_stack_tcp_def bind_dual_stack_udp_def bind_dual_stack_socket_def)
  moreover have "ae_driver demo_app = (\<lambda>_. demo_driver)" "ae_sockets demo_app = (\<lambda>_. demo_os)" by auto
  ultimately show ?thesis by (simp add: app_start_def demo_configure)
qed

lemma demo_fox_proxies: "proxies_of_path (ss_proxies demo_settings) ''C:/fox.exe'' = {0}"
proof -
  have "str_contains ''C:/fox.exe'' ''fox''" by (simp add: str_contains_def)
  then show ?thesis by (auto simp: proxies_of_path_def demo_settings_def split: if_splits)
qed

theorem configured_process_proxy_witness:
  "\<exists>r a. app_start demo_app demo_router = (Inr (), r) \<and> os_local_addr demo_os Stream = Inr a \<and>
     get_proxy_port_tcp (hm_keys (name_to_proxy r)) r ''C:/fox.exe'' False = sa_port a \<and>
     tp_socks5 (proxies r ! 0) = demo_plain_dialer"
proof -
  obtain r where r: "app_start demo_app demo_router = (Inr (), r)" using demo_app_start by blast
  have "router_inv r"
    using router_inv_app_start [OF router_inv_new [OF router_new_demo], of demo_app] r by simp
  then have order: "iteration_order (name_to_proxy r) (hm_keys (name_to_proxy r))"
    by (intro iteration_order_keys) (simp add: router_inv_defs)
  have "ae_config demo_app = Inr ''config''" "ae_parse_toml demo_app ''config'' = Inr demo_settings" by simp_all
  from configured_process_proxy [OF router_new_demo r this order, of "''C:/fox.exe''" 0 False] demo_fox_proxies r
  show ?thesis by (auto simp: demo_settings_def dialer_new_demo)
qed


text \<open>
  When a later proxy of the configuration cannot be added, \<open>run\<close> returns without closing the
  router: the filters of the earlier proxies stay in the driver after the program has ended.
\<close>

definition demo_broken :: "unit app_env" where
  "demo_broken = demo_app\<lparr>ae_parse_toml := (\<lambda>_. Inr \<lparr>ss_proxies =
     [\<lparr>app_names = [''fox''], endpoint = demo_endpoint\<rparr>, \<lparr>app_names = [], endpoint = ''socks''\<rparr>]\<rparr>)\<rparr>"

lemma dialer_new_no_port: "dialer_new env ''socks'' = Inl (err_input ''missing port separator'')"
  by (simp add: dialer_new_def parse_socks5_endpoint_def split_scheme_def split_userinfo_def parse_auth_def
      split_host_port_def Let_def)

theorem failed_start_leaves_filters:
  "\<exists>e s r. app_run demo_broken \<lparr>ls_logger = None, ls_installed = False, ls_max_level = None\<rparr>
       \<lparr>raw_mode = False, alternate_screen = False\<rparr> = Some (Inl e, s) \<and>
     as_router s = Some r \<and> driver_table r = Some (static_filters r) \<and> length (static_filters r) = 5"
proof -
  let ?st = "\<lparr>ls_logger = None, ls_installed = False, ls_max_level = None\<rparr>"
  and ?t = "\<lparr>raw_mode = False, alternate_screen = False\<rparr>"
  have sel: "ae_parse_toml demo_broken config = Inr \<lparr>ss_proxies =
      [\<lparr>app_names = [''fox''], endpoint = demo_endpoint\<rparr>, \<lparr>app_names = [], endpoint = ''socks''\<rparr>]\<rparr>"
    "ae_config demo_broken = Inr ''config''" "ae_net demo_broken = demo_env" "ae_driver demo_broken = (\<lambda>_. demo_driver)"
    "ae_open_driver demo_broken = Inr ()" "ae_driver_version demo_broken = Inr ()"
    "ae_new_driver demo_broken = demo_driver" "ae_lookup demo_broken = ()" "ae_now demo_broken = 0" for config
    by (simp_all add: demo_broken_def demo_app_def)
  have "\<exists>e. app_start demo_broken demo_router = (Inl e, demo_named)"
    using demo_configured_facts
    by (simp add: app_start_def sel demo_add associate_process_name_to_proxy_def demo_named_def
        add_socks5_proxy_def [of _ _ "''socks''"] dialer_new_no_port)
  then obtain e where e: "app_start demo_broken demo_router = (Inl e, demo_named)" ..
  obtain st where "logging_init (ae_log demo_broken) [] ?st = (Inr (), st)"
    by (simp add: logging_init_def Let_def)
  with e have "\<exists>s. app_run demo_broken ?st ?t = Some (Inl e, s) \<and> as_router s = Some demo_named"
    by (simp add: app_run_def Let_def sel router_new_demo)
  moreover have "driver_table demo_named = Some (static_filters demo_named)" "length (static_filters demo_named) = 5"
    using demo_configured_facts by (simp_all add: demo_named_def)
  ultimately show ?thesis by blast
qed

end
