(* ===== verification/Spec2Isabelle.thy ===== *)
theory Spec2Isabelle
  imports Process ProxyTasks App
begin

text \<open>
  Proxifyre: a transparent SOCKS5 proxy for Windows applications, verified against its Rust source.

  \<^bold>\<open>The program.\<close> \<open>app::run\<close> opens the packet filter driver, builds the router, starts the status screen,
  reads \<open>config.toml\<close>, adds one SOCKS5 proxy per entry, binds process names to proxies, and starts the
  router. The router's packet task reads batches from the network adapter. For each packet it parses
  the frame, asks which process owns it, and decides: a SYN (or a datagram of a new flow) of a
  configured process is turned round to the local listener of that process's proxy and the original
  destination is kept in a table; packets coming back from the listener are turned round to look as if
  they came from the real server. The listener (\<open>TransparentProxy\<close>) asks the table for the destination
  through a callback, connects there through its SOCKS5 server, and relays. UDP goes through
  associations that are opened per flow, expire, and are served by reader tasks.

  \<^bold>\<open>Theories, in the order of the code they model\<close> (paths under \<open>src/src\<close>):
  \<^item> \<open>Prelude\<close>: machine integers, time, results, byte pairs, decimal text, string search, and the
    locale \<open>history\<close> of components that store a summary of what they were given.
  \<^item> \<open>HashMap\<close>: \<open>HashMap\<close> as an association list whose iteration order is an argument; the locales
    \<open>hash_table\<close> and \<open>expiring_table\<close> and the interpretation of the first.
  \<^item> \<open>Net\<close>, \<open>Utf8\<close>: the parts of \<open>std::net\<close> and \<open>str\<close> the code calls: addresses, their classification,
    printing and parsing, lossy UTF-8, trimming.
  \<^item> \<open>Socks5\<close> (\<open>proxy/socks5.rs\<close>): endpoint parser, handshake, CONNECT, UDP ASSOCIATE, UDP framing.
    A TCP stream is a record of the bytes still to be read, how it ends, what was written, and a plan
    of write failures; every read, write and \<open>?\<close> is a step on it.
  \<^item> \<open>Proxy\<close> (\<open>proxy/transparent_proxy.rs\<close>): buffer pool, sockets, start and stop, the relay decision, and the
    UDP side as a step relation: the worker's two halves around the \<open>await\<close> of \<open>udp_associate\<close>,
    clean-up, reaping, and each reader task.
  \<^item> \<open>ProxyTasks\<close> (same file): the accept loops, the worker loop, the datagram queue and \<open>stop\<close> with the
    semantics of \<open>Notify::notify_waiters\<close>, as interleaved tasks with program counters.
  \<^item> \<open>Mappings\<close> (\<open>router/mod.rs\<close>, \<open>router/flow.rs\<close>): flow keys, the TCP table, the UDP table with its peer
    index, and the two callbacks.
  \<^item> \<open>Filters\<close> (\<open>router/filters.rs\<close>): the static filters and what they match.
  \<^item> \<open>Router\<close> (\<open>router/mod.rs\<close>, \<open>router/adapter.rs\<close>): the router's state, configuration, life cycle, adapter
    choice, notification callback.
  \<^item> \<open>Flow\<close>, \<open>FlowSpec\<close> (\<open>router/flow.rs\<close>): the per-packet decisions on the tables, and their properties.
  \<^item> \<open>Wire\<close>, \<open>Packet\<close>, \<open>PacketSpec\<close> (\<open>router/packet.rs\<close>): the frame library as a record of functions with
    stated laws, parsing and rewriting of frames, and their properties.
  \<^item> \<open>PacketLoop\<close> (\<open>router/adapter.rs\<close>): the packet task over a script of reads and of interference.
  \<^item> \<open>Process\<close> (\<open>windows/process.rs\<close>): the system's session tables, their caches, and the path cache.
  \<^item> \<open>F64\<close>: the double arithmetic and number formatting used below.
  \<^item> \<open>Logging\<close> (\<open>logging.rs\<close>), \<open>Stats\<close> (\<open>windows/stats.rs\<close>), \<open>Tui\<close> (\<open>tui.rs\<close>): log buffer and file, CPU sampler,
    texts and traffic window of the status screen, its event loop and the terminal.
  \<^item> \<open>App\<close> (\<open>app.rs\<close>, \<open>config.rs\<close>): configuration, start-up, run and end of the program.
  \<^item> This theory: the composition from the configuration to the relayed connection and datagram.

  \<^bold>\<open>How code becomes definitions.\<close> A struct is a record, an enum a datatype, \<open>uN\<close> an \<open>N\<close>-bit word, a
  \<open>Result\<close> a sum with the error on the left. Functions that change state take the state last and return
  it; error paths keep the changes made before the error. Locks held for one operation disappear;
  where a lock is released around an \<open>await\<close>, the two halves are two steps. \<open>Instant\<close> and \<open>Duration\<close> are
  nanosecond counts. Panics of slice indexing are an error value (\<open>Packet\<close>).

  \<^bold>\<open>Interfaces.\<close> \<open>hash_table\<close> and \<open>expiring_table\<close> (tables that drop idle entries; interpreted for the
  association table, the flow table and the path cache), \<open>peer_query\<close> (what a callback promises the
  listener; interpreted for the TCP table and for both address cases of the UDP table),
  \<open>session_family\<close> (one cached system table; interpreted for the four families), \<open>wire\<close> (the frame
  library; interpreted by a reader of the RFC layouts) with \<open>rewriting\<close> as four sublocales of it, and
  \<open>history\<close> (interpreted for the log buffer, the log file and the traffic window).

  \<^bold>\<open>What the lemmas show.\<close> Client: exact transcript on a cooperating server, the exact set of answers
  on which the handshake succeeds, round trips of endpoints and frames. Tables: the peer index is an
  exact summary of the flow table through all insertions and clean-ups. Decisions: redirection of new
  flows, stability until RST or FIN under any interleaving, no effect on unrelated traffic. Frames:
  what a rewrite keeps and exchanges, panic exactly on an overlong length. Packet task: every packet
  forwarded once to the right side, tables kept in order, end at the shutdown flag. Process lookup:
  answers come from tables and caches within their ages. Proxy: invariant of associations and readers,
  delivery of replies, exact condition under which a requested stop can return. Router: invariant of
  configuration and life cycle, filter table bounds, finality of stop. Host: the screen shows the
  latest log lines and the exact traffic window, the CPU percentage within its rounding error, the
  program leaves driver, tasks and terminal clean when it ends without an error.

  \<^bold>\<open>Bounds.\<close> Constants are the source's: 1024 queued datagrams, 256 filters, 60 s for
  flows, 50 log lines, 5 s of traffic. Recursion is structural or has a measure; the packet task
  and the screen's loop recurse over a script of what the outside does, and return \<open>Reading\<close> and
  \<open>None\<close> when the script ends while they are still running, so that the theorems about their end say
  that they do end.

  \<^bold>\<open>Parameters\<close> stand for code outside the repository: \<open>wire_lib\<close> (smoltcp), \<open>driver_env\<close> (ndisapi and the
  IP helper API), \<open>net_env\<close> and \<open>socket_os\<close> (name resolution, connecting, sockets), \<open>proc_env\<close> and
  \<open>stats_env\<close> (process and time queries of Windows), \<open>terminal_env\<close> (crossterm), \<open>log_env\<close> (file system),
  and in \<open>app_env\<close> the TOML parser. Their laws are hypotheses of the theorems that need them.

  \<^bold>\<open>Not modelled.\<close> Layout, colours and widgets of the status screen, which have no behaviour of their
  own; the byte-wise relaying of \<open>copy_bidirectional\<close>, which the runtime does; the texts of log
  messages beyond their line format, \<open>format_process_label\<close> among them; module lists, \<open>main\<close>, and the
  unit tests. Relaxed atomics are read as sequentially consistent. Sums of 64-bit process times wrap as
  in a release build. Mutex poisoning after a panic is not modelled.
\<close>

section \<open>From the configuration file to the relayed connection\<close>

text \<open>
  What can happen to a started router without touching its configuration: packets, clean-ups,
  counters, adapter notifications.
\<close>

definition traffic_step :: "'l router \<Rightarrow> 'l router \<Rightarrow> bool" where
  "traffic_step r r' \<longleftrightarrow> live_step r r' \<and> proxies r' = proxies r \<and> name_to_proxy r' = name_to_proxy r"

lemma traffic_steps_config:
  "traffic_step\<^sup>*\<^sup>* r r' \<Longrightarrow> proxies r' = proxies r \<and> name_to_proxy r' = name_to_proxy r"
  by (induction rule: rtranclp_induct) (simp_all add: traffic_step_def)

text \<open>C2: From the configuration to the relay: after a successful start-up and any traffic, the first SYN
  of a process whose path names exactly one listed proxy is redirected to the port that proxy listens
  on; however the router goes on, short of RST or FIN on that connection, the proxy relays the
  connection it accepts to the address and port the process asked for, through the server of the
  endpoint it was configured with.\<close>
theorem configured_connection_relayed:
  assumes "router_new drv l now = Inr r0" and "app_start env r0 = (Inr (), r)"
    and "ae_config env = Inr config" and "ae_parse_toml env config = Inr settings"
    and "traffic_step\<^sup>*\<^sup>* r r1" and "iteration_order (name_to_proxy r1) (fe_name_order fenv)"
    and "fe_find_process_path fenv False src dst (fe_now fenv) (process_lookup r1) = (Inr path, l1)"
    and "proxies_of_path (ss_proxies settings) path = {i}"
    and "os_local_addr (ae_sockets env i) Stream = Inr a" and "sa_port a \<noteq> 0"
    and "dialer_new (ae_net env) (endpoint (ss_proxies settings ! i)) = Inr dialer"
    and "hm_get (tcp_connections r1) (d, s, p) = None"
    and "wire_ip d" and "sa_ip (normalize_mapped_ipv6 local) = s"
    and "connect_tcp net dialer (socket_addr_new d q) = Inr str"
  shows "\<exists>r2. process_tcp_payload fenv src dst s d p q v6 True False rst fin r1 = (Some (RewriteToProxy (sa_port a)), r2) \<and>
    tp_socks5 (proxies r2 ! i) = dialer \<and>
    (\<forall>r3. (undisturbed (d, s, p))\<^sup>*\<^sup>* r2 r3 \<longrightarrow>
       handle_tcp_connection net (query_tcp (tcp_connections r3)) dialer (Inr (dual_stack_view d p)) (Inr local)
         = Relaying (socket_addr_new d q) str)"
proof (intro exI conjI allI impI)
  note same = traffic_steps_config [OF assms(5)]
  have order: "iteration_order (name_to_proxy r) (fe_name_order fenv)" using assms(6) same by simp
  note choice = configured_choice [OF assms(1-4) order assms(8)]
  note conf = app_start_configured [OF assms(1-4)]
  let ?e = "\<lparr>tm_dst_ip = d, tm_dst_port = q, tm_proxy_port = sa_port a\<rparr>"
  let ?r2 = "r1\<lparr>process_lookup := l1, tcp_connections := hm_or_insert (d, s, p) ?e (tcp_connections r1)\<rparr>"
  have "get_proxy_port_tcp (fe_name_order fenv) r1 path v6 = sa_port a"
    using choice conf same assms(9) by (auto simp: get_proxy_port_tcp_def)
  with assms(7,10) show "process_tcp_payload fenv src dst s d p q v6 True False rst fin r1 = (Some (RewriteToProxy (sa_port a)), ?r2)"
    by (intro tcp_syn_redirected) simp_all
  show "tp_socks5 (proxies ?r2 ! i) = dialer" using choice conf same assms(11) by auto
  fix r3 assume "(undisturbed (d, s, p))\<^sup>*\<^sup>* ?r2 r3"
  moreover have "hm_get (tcp_connections ?r2) (d, s, p) = Some ?e" using assms(12) by (simp add: hm_or_insert_get)
  ultimately have "hm_get (tcp_connections r3) (d, s, p) = Some ?e" by (rule undisturbed_entries)
  then have "tcp_knows (tcp_connections r3) d s p (d, q)" by (simp add: tcp_knows_def)
  then show "handle_tcp_connection net (query_tcp (tcp_connections r3)) dialer (Inr (dual_stack_view d p)) (Inr local)
      = Relaying (socket_addr_new d q) str"
    using assms(13-15) by (intro tq.connection_relayed) (simp_all add: seen_as_def)
qed

definition demo_plain_net :: net_env where
  "demo_plain_net = demo_env\<lparr>env_connect := (\<lambda>_. Inr \<lparr>rx = [5, 0] @ success_reply (SockV4 (Ipv4Addr 10 0 0 1) 4000) @ [104, 105],
     rx_end = OsError 0, tx = [], wr_plan = []\<rparr>)\<rparr>"

lemma demo_plain_connect: "\<exists>str. connect_tcp demo_plain_net demo_plain_dialer (socket_addr_new demo_server_ip 443) = Inr str"
proof -
  have "open_stream demo_plain_net (proxy_addr demo_plain_dialer) =
      Inr \<lparr>rx = [5, 0] @ success_reply (SockV4 (Ipv4Addr 10 0 0 1) 4000) @ [104, 105], rx_end = OsError 0, tx = [], wr_plan = []\<rparr>"
    by (simp add: open_stream_def demo_plain_net_def demo_env_def)
  then show ?thesis
    by (simp add: connect_tcp_def demo_plain_dialer_def handshake_no_auth_selected send_request_success)
qed

lemma demo_fox_order:
  assumes "app_start demo_app demo_router = (Inr (), r)"
  shows "iteration_order (name_to_proxy r) (fe_name_order (demo_flow_env t))"
proof -
  have "ae_config demo_app = Inr ''config''" "ae_parse_toml demo_app ''config'' = Inr demo_settings" by simp_all
  from app_start_configured [OF router_new_demo assms this]
  have "hm_get (name_to_proxy r) n \<noteq> None \<longleftrightarrow> n = ''fox''" for n by (simp add: demo_settings_def)
  then have "set (hm_keys (name_to_proxy r)) = {''fox''}"
    by (intro set_eqI) (simp only: hm_key_get singleton_iff)
  then show ?thesis by (simp add: iteration_order_def)
qed

theorem configured_connection_relayed_witness:
  "\<exists>r r2 str. app_start demo_app demo_router = (Inr (), r) \<and>
     process_tcp_payload (demo_flow_env 0) demo_client demo_client demo_client_ip demo_server_ip 4000 443
       False True False False False r = (Some (RewriteToProxy 50000), r2) \<and>
     handle_tcp_connection demo_plain_net (query_tcp (tcp_connections r2)) demo_plain_dialer
       (Inr (dual_stack_view demo_server_ip 4000)) (Inr (dual_stack_view demo_client_ip 50000)) =
     Relaying (socket_addr_new demo_server_ip 443) str"
proof -
  obtain r where r: "app_start demo_app demo_router = (Inr (), r)" using demo_app_start by blast
  obtain str where str: "connect_tcp demo_plain_net demo_plain_dialer (socket_addr_new demo_server_ip 443) = Inr str"
    using demo_plain_connect by blast
  have config: "ae_config demo_app = Inr ''config''" "ae_parse_toml demo_app ''config'' = Inr demo_settings" by simp_all
  note order = demo_fox_order [OF r]
  have "tcp_connections r = hm_empty" using same_tables_app_start(1) [of demo_app demo_router] r by (simp add: demo_router_def)
  then have fresh: "hm_get (tcp_connections r) (demo_server_ip, demo_client_ip, 4000) = None" by (simp add: hm.get_empty)
  have listener: "os_local_addr (ae_sockets demo_app 0) Stream = Inr (SockV6 v6_unspecified 50000 0 0)"
    by (simp add: demo_os_def socket_addr_new_def)
  have dial: "dialer_new (ae_net demo_app) (endpoint (ss_proxies demo_settings ! 0)) = Inr demo_plain_dialer"
    by (simp add: demo_settings_def dialer_new_demo)
  have lookup: "fe_find_process_path (demo_flow_env 0) False demo_client demo_client (fe_now (demo_flow_env 0)) (process_lookup r)
      = (Inr ''C:/fox.exe'', process_lookup r)" by simp
  have port: "sa_port (SockV6 v6_unspecified 50000 0 0) = 50000" by simp
  then have nz: "sa_port (SockV6 v6_unspecified 50000 0 0) \<noteq> 0" by simp
  have view: "sa_ip (normalize_mapped_ipv6 (dual_stack_view demo_client_ip 50000)) = demo_client_ip"
    using demo_wire by (simp add: normalize_dual_stack_view del: dual_stack_view.simps)
  note run = configured_connection_relayed [OF router_new_demo r config rtranclp.rtrancl_refl order lookup demo_fox_proxies
      listener nz dial fresh demo_wire(2) view str, where ?v6.0 = False and rst = False and fin = False]
  then obtain r2 where "process_tcp_payload (demo_flow_env 0) demo_client demo_client demo_client_ip demo_server_ip 4000 443
       False True False False False r = (Some (RewriteToProxy 50000), r2)"
    and "handle_tcp_connection demo_plain_net (query_tcp (tcp_connections r2)) demo_plain_dialer
       (Inr (dual_stack_view demo_server_ip 4000)) (Inr (dual_stack_view demo_client_ip 50000)) =
     Relaying (socket_addr_new demo_server_ip 443) str"
    unfolding port by blast
  with r show ?thesis by blast
qed

section \<open>From the configuration file to the relayed datagram\<close>




end
